(* ===== verification/Prelude.thy ===== *)
theory Prelude
  imports Main "HOL-Library.Word" "HOL-Library.Sublist"
begin

text \<open>
  Shared vocabulary of the development: bytes, the exceptions the package raises and lets
  escape, results that are either an exception or a value, little-endian integers, slices and
  fixed-size chunks of byte strings, and the ASCII string methods of Python that the package
  calls.  Python integers are \<^typ>\<open>int\<close>; a byte is an \<^typ>\<open>8 word\<close>; a \<open>str\<close> is a list of
  ASCII characters (addresses, UUIDs and adapter names are; advertised names, which are not,
  are decoded to code points in theory \<open>Device\<close>).
\<close>

named_theorems result_simps \<open>computation rules of results\<close>
named_theorems codec_simps \<open>encode/decode cancellation rules\<close>

type_synonym byte = "8 word"
type_synonym bytes = "byte list"


section \<open>Exceptions and results\<close>

text \<open>
  The specifier of a characteristic, where it is not a characteristic object itself, and the
  exceptions: those of \<open>bluek/exc.py\<close> and \<open>_att.ATTError\<close> with their attributes, and the built-in
  ones the code raises or lets through.  An \<open>OSError\<close> carries its \<open>errno\<close>; \<open>ForeignError\<close> stands for
  the exception classes of third-party packages, by name.  The messages of built-in exceptions are
  not modelled.
\<close>

datatype py_spec = SpecInt int | SpecStr string

datatype exn =
    BleakError string
  | ATTError int int int
  | BleakDeviceNotFoundError string "exn option"
  | BleakCharacteristicNotFoundError py_spec
  | TimeoutError
  | OSError int
  | ValueError
  | IndexError
  | KeyError
  | OverflowError
  | StructError
  | RuntimeError
  | AttributeError
  | TypeError
  | AssertionError
  | SystemExit
  | ForeignError string

text \<open>The class tests of \<open>except BleakError\<close> and \<open>except OSError\<close>.  Since Python 3.11
  \<open>asyncio.TimeoutError\<close> is the built-in \<open>TimeoutError\<close>, a subclass of \<open>OSError\<close>.\<close>

fun is_bleak_error :: "exn \<Rightarrow> bool" where
  "is_bleak_error (BleakError _) = True"
| "is_bleak_error (ATTError _ _ _) = True"
| "is_bleak_error (BleakDeviceNotFoundError _ _) = True"
| "is_bleak_error (BleakCharacteristicNotFoundError _) = True"
| "is_bleak_error _ = False"

fun is_os_error :: "exn \<Rightarrow> bool" where
  "is_os_error (OSError _) = True"
| "is_os_error TimeoutError = True"
| "is_os_error _ = False"

text \<open>\<open>raise OSError(e, ...)\<close>: the constructor picks the subclass \<open>TimeoutError\<close> for
  \<open>ETIMEDOUT\<close>.\<close>

definition ETIMEDOUT :: int where "ETIMEDOUT = 110"
definition EBADF :: int where "EBADF = 9"

definition os_error :: "int \<Rightarrow> exn" where
  "os_error e = (if e = ETIMEDOUT then TimeoutError else OSError e)"

lemma is_os_error_os_error [simp]: "is_os_error (os_error e)"
  by (simp add: os_error_def)

type_synonym 'a result = "exn + 'a"

definition rbind :: "'a result \<Rightarrow> ('a \<Rightarrow> 'b result) \<Rightarrow> 'b result" where
  "rbind r f = (case r of Inl e \<Rightarrow> Inl e | Inr x \<Rightarrow> f x)"

lemma rbind_simps [simp, result_simps]:
  "rbind (Inl e) f = Inl e"
  "rbind (Inr x) f = f x"
  by (simp_all add: rbind_def)

lemma rbind_eq_Inr: "rbind r f = Inr y \<longleftrightarrow> (\<exists>x. r = Inr x \<and> f x = Inr y)"
  by (cases r) auto

lemma rbind_cong [fundef_cong]:
  "r = r' \<Longrightarrow> (\<And>x. r' = Inr x \<Longrightarrow> f x = f' x) \<Longrightarrow> rbind r f = rbind r' f'"
  by (cases r') auto

fun rmap :: "('a \<Rightarrow> 'b result) \<Rightarrow> 'a list \<Rightarrow> 'b list result" where
  "rmap f [] = Inr []"
| "rmap f (x # xs) = rbind (f x) (\<lambda>y. rbind (rmap f xs) (\<lambda>ys. Inr (y # ys)))"

lemma rmap_Inr_map: "(\<And>x. x \<in> set xs \<Longrightarrow> f x = Inr (g x)) \<Longrightarrow> rmap f xs = Inr (map g xs)"
  by (induction xs) auto

lemma rmap_length: "rmap f xs = Inr ys \<Longrightarrow> length ys = length xs"
  by (induction xs arbitrary: ys) (auto simp: rbind_eq_Inr)

text \<open>State-passing code that may raise: the exception does not undo the state.\<close>

type_synonym ('s, 'a) sx = "'s \<Rightarrow> 'a result \<times> 's"

definition sx_bind :: "('s, 'a) sx \<Rightarrow> ('a \<Rightarrow> ('s, 'b) sx) \<Rightarrow> ('s, 'b) sx" where
  "sx_bind m f s = (case m s of (Inl e, s') \<Rightarrow> (Inl e, s') | (Inr x, s') \<Rightarrow> f x s')"

definition sx_lift :: "'a result \<Rightarrow> ('s, 'a) sx" where
  "sx_lift r s = (r, s)"

fun sx_map :: "('a \<Rightarrow> ('s, 'b) sx) \<Rightarrow> 'a list \<Rightarrow> ('s, 'b list) sx" where
  "sx_map f [] s = (Inr [], s)"
| "sx_map f (x # xs) s =
     sx_bind (f x) (\<lambda>y. sx_bind (sx_map f xs) (\<lambda>ys. sx_lift (Inr (y # ys)))) s"

lemma sx_bind_simps [simp, result_simps]:
  "m s = (Inl e, s') \<Longrightarrow> sx_bind m f s = (Inl e, s')"
  "m s = (Inr x, s') \<Longrightarrow> sx_bind m f s = f x s'"
  "sx_bind (sx_lift r) f s = (case r of Inl e \<Rightarrow> (Inl e, s) | Inr x \<Rightarrow> f x s)"
  by (simp_all add: sx_bind_def sx_lift_def split: sum.split)

lemma sx_bindE:
  assumes "sx_bind m f s = (Inr y, s')"
  obtains x s1 where "m s = (Inr x, s1)" "f x s1 = (Inr y, s')"
  using assms by (auto simp: sx_bind_def split: prod.splits sum.splits)

lemma sx_lift_simps [simp, result_simps]: "sx_lift r s = (r, s)"
  by (simp add: sx_lift_def)

text \<open>A state property that a step keeps, while it returns \<open>g x\<close> for each \<open>x\<close>, holds after all of them.\<close>

lemma sx_map_returns:
  assumes "\<And>x s. x \<in> set xs \<Longrightarrow> P s \<Longrightarrow> \<exists>s'. f x s = (Inr (g x), s') \<and> P s'" and "P s"
  shows "\<exists>s'. sx_map f xs s = (Inr (map g xs), s') \<and> P s'"
  using assms
proof (induction xs arbitrary: s)
  case (Cons x xs)
  from Cons.prems obtain s1 where "f x s = (Inr (g x), s1)" "P s1" by auto
  moreover from Cons.IH [of s1] Cons.prems(1) \<open>P s1\<close>
  obtain s2 where "sx_map f xs s1 = (Inr (map g xs), s2)" "P s2" by auto
  ultimately show ?case by simp
qed simp

lemma sx_map_keeps:
  assumes "\<And>x s. P s \<Longrightarrow> P (snd (f x s))" and "P s"
  shows "P (snd (sx_map f xs s))"
  using assms(2)
proof (induction xs arbitrary: s)
  case (Cons x xs)
  obtain r s1 where 1: "f x s = (r, s1)" by (cases "f x s")
  with assms(1) [OF Cons.prems, of x] have "P s1" by simp
  then have "P (snd (sx_map f xs s1))" by (rule Cons.IH)
  then show ?case
    using 1 \<open>P s1\<close> by (auto simp: sx_bind_def sx_lift_def split: sum.split prod.split)
qed simp


section \<open>Slices, chunks and little-endian integers\<close>

definition slice :: "nat \<Rightarrow> nat \<Rightarrow> 'a list \<Rightarrow> 'a list" where
  "slice i j xs = take (j - i) (drop i xs)"

lemma slice_drop [simp]: "i \<le> j \<Longrightarrow> slice i j xs @ drop j xs = drop i xs"
  by (simp add: slice_def) (metis append_take_drop_id drop_drop le_add_diff_inverse2)

definition py_get :: "'a list \<Rightarrow> nat \<Rightarrow> 'a result" where
  "py_get xs i = (if i < length xs then Inr (xs ! i) else Inl IndexError)"

lemma py_get_simps [simp]:
  "py_get [] i = Inl IndexError"
  "py_get (x # xs) 0 = Inr x"
  "py_get (x # xs) (Suc i) = py_get xs i"
  by (simp_all add: py_get_def)

text \<open>\<open>[xs[i:i+n] for i in range(0, len(xs) - n + 1, n)]\<close>: the full chunks of \<open>n\<close> elements.\<close>

function chunks :: "nat \<Rightarrow> 'a list \<Rightarrow> 'a list list" where
  "chunks n xs = (if n = 0 \<or> length xs < n then [] else take n xs # chunks n (drop n xs))"
  by pat_completeness auto
termination by (relation "measure (\<lambda>(n, xs). length xs)") auto

text \<open>\<open>[xs[i:i+n] for i in range(0, len(xs), n)]\<close>: the last chunk may be short.\<close>

function chunks_all :: "nat \<Rightarrow> 'a list \<Rightarrow> 'a list list" where
  "chunks_all n xs = (if n = 0 \<or> xs = [] then [] else take n xs # chunks_all n (drop n xs))"
  by pat_completeness auto
termination by (relation "measure (\<lambda>(n, xs). length xs)") auto

declare chunks.simps [simp del] chunks_all.simps [simp del]

lemma chunks_Nil [simp]: "chunks n [] = []"
  by (subst chunks.simps) auto

lemma chunks_append [simp]:
  "length x = n \<Longrightarrow> 0 < n \<Longrightarrow> chunks n (x @ ys) = x # chunks n ys"
  by (subst chunks.simps) auto

lemma chunks_short [simp]: "length xs < n \<Longrightarrow> chunks n xs = []"
  by (subst chunks.simps) auto

lemma chunks_concat:
  "0 < n \<Longrightarrow> \<forall>x\<in>set xss. length x = n \<Longrightarrow> chunks n (concat xss) = xss"
  by (induction xss) auto

lemma chunks_length: "0 < n \<Longrightarrow> c \<in> set (chunks n xs) \<Longrightarrow> length c = n"
  by (induction n xs rule: chunks.induct) (subst (asm) (2) chunks.simps, auto split: if_splits)

fun from_le :: "bytes \<Rightarrow> int" where
  "from_le [] = 0"
| "from_le (b # bs) = uint b + 256 * from_le bs"

fun le_bytes :: "nat \<Rightarrow> int \<Rightarrow> bytes" where
  "le_bytes 0 x = []"
| "le_bytes (Suc n) x = word_of_int x # le_bytes n (x div 256)"

text \<open>\<open>x.to_bytes(n, "little")\<close> raises \<open>OverflowError\<close> for a negative or too large \<open>x\<close>.\<close>

definition to_le :: "nat \<Rightarrow> int \<Rightarrow> bytes result" where
  "to_le n x = (if 0 \<le> x \<and> x < 256 ^ n then Inr (le_bytes n x) else Inl OverflowError)"

text \<open>\<open>int.from_bytes(bs, "little", signed=True)\<close>.\<close>

definition from_le_signed :: "bytes \<Rightarrow> int" where
  "from_le_signed bs =
     (let v = from_le bs; n = length bs
      in if n > 0 \<and> 2 * v \<ge> 256 ^ n then v - 256 ^ n else v)"

text \<open>\<open>struct.unpack_from\<close> of one little-endian unsigned field of \<open>n\<close> bytes at offset \<open>i\<close>, and
  \<open>struct.pack\<close> of one: both raise \<open>struct.error\<close>.\<close>

definition unpack_le :: "nat \<Rightarrow> nat \<Rightarrow> bytes \<Rightarrow> int result" where
  "unpack_le n i d = (if i + n \<le> length d then Inr (from_le (slice i (i + n) d)) else Inl StructError)"

definition pack_le :: "nat \<Rightarrow> int \<Rightarrow> bytes result" where
  "pack_le n x = (if 0 \<le> x \<and> x < 256 ^ n then Inr (le_bytes n x) else Inl StructError)"

lemma uint_byte_bounds [simp]: "0 \<le> uint (b :: byte)" "uint (b :: byte) < 256"
  using uint_lt2p [of b] by (simp_all)

lemma unat_byte_less [simp]: "unat (b :: byte) < 256"
  using unsigned_less [of b] by simp

lemma from_le_nonneg [simp]: "0 \<le> from_le bs"
  by (induction bs) auto

lemma from_le_less: "from_le bs < 256 ^ length bs"
proof (induction bs)
  case (Cons b bs)
  have "uint b + 256 * from_le bs < 256 + 256 * from_le bs" by simp
  also have "\<dots> \<le> 256 * 256 ^ length bs" using Cons by simp
  finally show ?case by simp
qed simp

lemma length_le_bytes [simp]: "length (le_bytes n x) = n"
  by (induction n arbitrary: x) auto

lemma uint_word_of_int_byte: "uint (word_of_int x :: byte) = x mod 256"
  by (simp add: uint_word_of_int)

lemma from_le_le_bytes: "0 \<le> x \<Longrightarrow> x < 256 ^ n \<Longrightarrow> from_le (le_bytes n x) = x"
proof (induction n arbitrary: x)
  case (Suc n)
  have "x div 256 < 256 ^ n" using Suc.prems by (auto simp: div_less_iff_less_mult mult.commute)
  with Suc show ?case by (simp add: uint_word_of_int_byte)
qed simp

lemma le_bytes_from_le [simp, codec_simps]: "le_bytes (length bs) (from_le bs) = bs"
proof (induction bs)
  case (Cons b bs)
  have "(word_of_int (uint b + 256 * from_le bs) :: byte) = b"
    by (rule word_uint_eqI) (simp only: uint_word_of_int_byte, simp)
  moreover have "(uint b + 256 * from_le bs) div 256 = from_le bs"
    by simp
  ultimately show ?case using Cons by simp
qed simp

lemma to_le_Inr: "to_le n x = Inr bs \<Longrightarrow> length bs = n \<and> from_le bs = x"
  by (auto simp: to_le_def from_le_le_bytes split: if_splits)

lemma to_le_from_le [simp, codec_simps]: "to_le (length bs) (from_le bs) = Inr bs"
  using from_le_less [of bs] by (simp add: to_le_def)

lemma from_le_append: "from_le (xs @ ys) = from_le xs + 256 ^ length xs * from_le ys"
  by (induction xs) (auto simp: algebra_simps)

lemma from_le_inj: "length xs = length ys \<Longrightarrow> from_le xs = from_le ys \<Longrightarrow> xs = ys"
  by (metis le_bytes_from_le)

text \<open>Reading a 16-bit field of a packet never exceeds 16 bits, short or not.\<close>

lemma from_le_slice_u16: "from_le (slice i (i + 2) bs) \<le> 0xFFFF"
proof -
  have "from_le (slice i (i + 2) bs) < 256 ^ length (slice i (i + 2) bs)"
    by (rule from_le_less)
  also have "\<dots> \<le> 256 ^ 2"
    by (rule power_increasing) (auto simp: slice_def)
  finally show ?thesis by simp
qed


section \<open>Hexadecimal and decimal digits\<close>

definition hexdigit :: "nat \<Rightarrow> char" where
  "hexdigit n = ''0123456789abcdef'' ! n"

definition hexval :: "char \<Rightarrow> nat option" where
  "hexval c =
     (let n = of_char c :: nat
      in if 48 \<le> n \<and> n \<le> 57 then Some (n - 48)
         else if 97 \<le> n \<and> n \<le> 102 then Some (n - 87)
         else if 65 \<le> n \<and> n \<le> 70 then Some (n - 55)
         else None)"

text \<open>Exactly \<open>k\<close> hexadecimal digits, most significant first.\<close>

fun hexw :: "nat \<Rightarrow> int \<Rightarrow> string" where
  "hexw 0 n = []"
| "hexw (Suc k) n = hexw k (n div 16) @ [hexdigit (nat (n mod 16))]"

function hexlen :: "int \<Rightarrow> nat" where
  "hexlen n = (if n < 16 then 1 else Suc (hexlen (n div 16)))"
  by pat_completeness auto
termination by (relation "measure nat") auto

declare hexlen.simps [simp del]

text \<open>The format \<open>f"{v:0kx}"\<close>: at least \<open>k\<close> characters, the sign included.\<close>

definition fmt_hex :: "nat \<Rightarrow> int \<Rightarrow> string" where
  "fmt_hex k v =
     (if v < 0 then CHR ''-'' # hexw (max (k - 1) (hexlen (- v))) (- v)
      else hexw (max k (hexlen v)) v)"

lemma less16_cases:
  "n < (16::nat) \<Longrightarrow> n = 0 \<or> n = 15 \<or> n = 1 \<or> n = 14 \<or> n = 2 \<or> n = 13
     \<or> n = 3 \<or> n = 12 \<or> n = 4 \<or> n = 11 \<or> n = 5 \<or> n = 10 \<or> n = 6 \<or> n = 9 \<or> n = 7 \<or> n = 8"
  by arith

lemma hexval_hexdigit [simp, codec_simps]: "n < 16 \<Longrightarrow> hexval (hexdigit n) = Some n"
  by (drule less16_cases) (auto simp: hexval_def hexdigit_def nth_Cons')

definition is_lower_hex :: "char \<Rightarrow> bool" where
  "is_lower_hex c \<longleftrightarrow> c \<in> set ''0123456789abcdef''"

lemma is_lower_hex_hexdigit [simp]: "n < 16 \<Longrightarrow> is_lower_hex (hexdigit n)"
  by (drule less16_cases) (auto simp: is_lower_hex_def hexdigit_def nth_Cons')

lemma length_hexw [simp]: "length (hexw k n) = k"
  by (induction k arbitrary: n) auto

lemma hexw_eq_Nil [simp]: "hexw k n = [] \<longleftrightarrow> k = 0"
  by (cases k) auto

lemma hexw_lower: "c \<in> set (hexw k n) \<Longrightarrow> is_lower_hex c"
  by (induction k arbitrary: n) auto

lemma div16_less: "(n :: int) < 16 ^ Suc k \<Longrightarrow> n div 16 < 16 ^ k"
  by (simp add: div_less_iff_less_mult mult.commute)

lemma nat_mod16 [simp]: "nat ((n :: int) mod 16) < 16"
  by (simp add: nat_less_iff)

lemma hexlen_le: "n < 16 ^ k \<Longrightarrow> 0 < k \<Longrightarrow> hexlen n \<le> k"
proof (induction n arbitrary: k rule: hexlen.induct)
  case (1 n)
  show ?case
  proof (cases "n < 16")
    case True
    with "1.prems" show ?thesis by (subst hexlen.simps) simp
  next
    case False
    have "k \<noteq> 1" using False "1.prems"(1) by auto
    with "1.prems"(2) obtain k' where k: "k = Suc k'" "0 < k'"
      using that [of "k - 1"] by auto
    with "1.prems" have "n div 16 < 16 ^ k'"
      using div16_less by simp
    with False k "1.IH" have "hexlen (n div 16) \<le> k'" by blast
    with False k show ?thesis by (subst hexlen.simps) simp
  qed
qed

lemma fmt_hex_hexw: "0 \<le> v \<Longrightarrow> v < 16 ^ k \<Longrightarrow> 0 < k \<Longrightarrow> fmt_hex k v = hexw k v"
  using hexlen_le [of v k] by (simp add: fmt_hex_def max_absorb1)

function dec_digits :: "int \<Rightarrow> string" where
  "dec_digits n =
     (if n < 10 then [char_of (nat (48 + n))]
      else dec_digits (n div 10) @ [char_of (nat (48 + n mod 10))])"
  by pat_completeness auto
termination by (relation "measure nat") auto

declare dec_digits.simps [simp del]

text \<open>\<open>str(v)\<close> of an integer.\<close>

definition str_int :: "int \<Rightarrow> string" where
  "str_int v = (if v < 0 then CHR ''-'' # dec_digits (- v) else dec_digits v)"


section \<open>String methods\<close>

definition is_space :: "char \<Rightarrow> bool" where
  "is_space c = (let n = of_char c :: nat in (9 \<le> n \<and> n \<le> 13) \<or> (28 \<le> n \<and> n \<le> 32))"

definition strip_by :: "('a \<Rightarrow> bool) \<Rightarrow> 'a list \<Rightarrow> 'a list" where
  "strip_by P s = rev (dropWhile P (rev (dropWhile P s)))"

definition py_strip :: "string \<Rightarrow> string" where
  "py_strip = strip_by is_space"

definition to_lower :: "char \<Rightarrow> char" where
  "to_lower c = (let n = of_char c :: nat in if 65 \<le> n \<and> n \<le> 90 then char_of (n + 32) else c)"

definition to_upper :: "char \<Rightarrow> char" where
  "to_upper c = (let n = of_char c :: nat in if 97 \<le> n \<and> n \<le> 122 then char_of (n - 32) else c)"

definition py_lower :: "string \<Rightarrow> string" where "py_lower = map to_lower"
definition py_upper :: "string \<Rightarrow> string" where "py_upper = map to_upper"

text \<open>\<open>s.replace(pat, rep)\<close> for a non-empty \<open>pat\<close>: leftmost occurrences, not overlapping.\<close>

function py_replace :: "string \<Rightarrow> string \<Rightarrow> string \<Rightarrow> string" where
  "py_replace pat rep s =
     (case s of
        [] \<Rightarrow> []
      | c # cs \<Rightarrow>
          if pat \<noteq> [] \<and> prefix pat s then rep @ py_replace pat rep (drop (length pat) s)
          else c # py_replace pat rep cs)"
  by pat_completeness auto
termination
  by (relation "measure (\<lambda>(p, r, s). length s)") (auto simp: prefix_def)

declare py_replace.simps [simp del]

fun py_split :: "char \<Rightarrow> string \<Rightarrow> string list" where
  "py_split d [] = [[]]"
| "py_split d (c # cs) =
     (case py_split d cs of
        [] \<Rightarrow> []
      | w # ws \<Rightarrow> if c = d then [] # w # ws else (c # w) # ws)"

fun py_join :: "string \<Rightarrow> string list \<Rightarrow> string" where
  "py_join sep [] = []"
| "py_join sep [w] = w"
| "py_join sep (w # v # ws) = w @ sep @ py_join sep (v # ws)"

lemma strip_by_id: "\<forall>c\<in>set s. \<not> P c \<Longrightarrow> strip_by P s = s"
proof -
  assume a: "\<forall>c\<in>set s. \<not> P c"
  then have "dropWhile P s = s" by (cases s) auto
  moreover from a have "dropWhile P (rev s) = rev s" by (cases "rev s") (auto simp: rev_eq_Cons_iff)
  ultimately show ?thesis by (simp add: strip_by_def)
qed

lemma py_replace_absent: "pat \<noteq> [] \<Longrightarrow> hd pat \<notin> set s \<Longrightarrow> py_replace pat rep s = s"
proof (induction s)
  case Nil
  then show ?case by (simp add: py_replace.simps)
next
  case (Cons c cs)
  from Cons.prems have "\<not> prefix pat (c # cs)" by (cases pat) auto
  with Cons show ?case by (simp add: py_replace.simps [of pat rep "c # cs"])
qed

lemma py_replace_single: "py_replace [d] [] s = filter (\<lambda>c. c \<noteq> d) s"
  by (induction s) (simp_all add: py_replace.simps [of "[d]" "[]" "_ # _"]
      py_replace.simps [of "[d]" "[]" "[]"])

lemma py_split_nonempty [simp]: "py_split d s \<noteq> []"
  by (induction s) (auto split: list.splits)

lemma py_split_no_sep: "d \<notin> set w \<Longrightarrow> py_split d w = [w]"
  by (induction w) auto

lemma py_split_append: "d \<notin> set w \<Longrightarrow> py_split d (w @ d # s) = w # py_split d s"
  by (induction w) (auto split: list.splits)

lemma py_split_join:
  "ws \<noteq> [] \<Longrightarrow> \<forall>w\<in>set ws. d \<notin> set w \<Longrightarrow> py_split d (py_join [d] ws) = ws"
  by (induction "[d]" ws rule: py_join.induct) (auto simp: py_split_no_sep py_split_append)

text \<open>
  \<open>int(s, 16)\<close>: surrounding white space, a sign, the prefix \<open>0x\<close> (after which one underscore may
  follow), then hexadecimal digits with single underscores between them.
\<close>

fun hex_digits_us :: "bool \<Rightarrow> int \<Rightarrow> string \<Rightarrow> int option" where
  "hex_digits_us prev acc [] = (if prev then Some acc else None)"
| "hex_digits_us prev acc (c # cs) =
     (if c = CHR ''_'' then (if prev then hex_digits_us False acc cs else None)
      else (case hexval c of
              None \<Rightarrow> None
            | Some d \<Rightarrow> hex_digits_us True (16 * acc + int d) cs))"

definition is_cspace :: "char \<Rightarrow> bool" where
  "is_cspace c = (let n = of_char c :: nat in (9 \<le> n \<and> n \<le> 13) \<or> n = 32)"

definition strip_hex_prefix :: "string \<Rightarrow> string" where
  "strip_hex_prefix s =
     (if prefix ''0x'' s \<or> prefix ''0X'' s
      then (let t = drop 2 s in if prefix ''_'' t then drop 1 t else t)
      else s)"

definition py_int16 :: "string \<Rightarrow> int result" where
  "py_int16 s =
     (let t = strip_by is_cspace s;
          neg = prefix ''-'' t;
          u = (if neg \<or> prefix ''+'' t then drop 1 t else t)
      in case hex_digits_us False 0 (strip_hex_prefix u) of
           None \<Rightarrow> Inl ValueError
         | Some v \<Rightarrow> Inr (if neg then - v else v))"


text \<open>Printing and reading back hexadecimal numbers, in lower and in upper case.\<close>

lemma hexval_upper [simp]: "hexval c = Some d \<Longrightarrow> hexval (to_upper c) = Some d"
  by (auto simp: hexval_def to_upper_def Let_def split: if_splits)

lemma hex_not_special:
  assumes "hexval c = Some d"
  shows "c \<noteq> CHR ''_''" "c \<noteq> CHR ''-''" "c \<noteq> CHR ''+''" "c \<noteq> CHR ''x''" "c \<noteq> CHR ''X''"
    "c \<noteq> CHR '':''" "c \<noteq> CHR ''u''" "c \<noteq> CHR ''{''" "c \<noteq> CHR ''}''" "\<not> is_cspace c" "\<not> is_space c"
  using assms by (auto simp: hexval_def is_cspace_def is_space_def Let_def split: if_splits)

lemma hexw_hexval: "c \<in> set (hexw k n) \<Longrightarrow> \<exists>d. hexval c = Some d"
  by (induction k arbitrary: n) auto

lemma upper_hexw_hexval: "c \<in> set (py_upper (hexw k n)) \<Longrightarrow> \<exists>d. hexval c = Some d"
  by (auto simp: py_upper_def dest!: hexw_hexval)

lemma hex_digits_us_append:
  "\<forall>c\<in>set s. \<exists>d. hexval c = Some d \<Longrightarrow> s \<noteq> [] \<Longrightarrow>
   hex_digits_us prev acc (s @ t) = hex_digits_us True (the (hex_digits_us prev acc s)) t"
proof (induction s arbitrary: prev acc)
  case (Cons c s)
  then show ?case by (cases s) (auto dest: hex_not_special)
qed simp

lemma hex_digits_us_hexw:
  "0 \<le> n \<Longrightarrow> n < 16 ^ k \<Longrightarrow> 0 < k \<Longrightarrow>
   hex_digits_us prev acc (hexw k n) = Some (acc * 16 ^ k + n)"
proof (induction k arbitrary: n prev acc)
  case (Suc k)
  have d: "hex_digits_us b a [hexdigit (nat (n mod 16))] = Some (16 * a + n mod 16)" for b a
    using hex_not_special(1) [OF hexval_hexdigit [of "nat (n mod 16)"]] by simp
  have "n div 16 < 16 ^ k" "0 \<le> n div 16" using Suc.prems(1,2) div16_less by auto
  moreover have "n = 16 * (n div 16) + n mod 16" by simp
  ultimately show ?case
    using Suc.IH [of "n div 16" prev acc] d
    by (cases "k = 0") (simp_all add: hex_digits_us_append hexw_hexval algebra_simps del: hex_digits_us.simps)
qed simp

lemma hex_digits_us_upper:
  "\<forall>c\<in>set s. \<exists>d. hexval c = Some d \<Longrightarrow>
   hex_digits_us prev acc (py_upper s) = hex_digits_us prev acc s"
proof (induction s arbitrary: prev acc)
  case (Cons c s)
  then obtain d where d: "hexval c = Some d" by auto
  from hex_not_special(1) [OF d] hex_not_special(1) [OF hexval_upper [OF d]] d Cons
  show ?case by (simp add: py_upper_def)
qed (simp add: py_upper_def)

lemma py_int16_plain:
  assumes "\<forall>c\<in>set s. \<exists>d. hexval c = Some d"
  shows "py_int16 s = (case hex_digits_us False 0 s of None \<Rightarrow> Inl ValueError | Some v \<Rightarrow> Inr v)"
proof -
  have 1: "strip_by is_cspace s = s"
    using assms hex_not_special(10) by (intro strip_by_id) blast
  have 2: "\<not> prefix [c] s" if "hexval c = None" for c
    using assms that by (cases s) auto
  have 3: "\<not> prefix [c0, c] s" if "hexval c = None" for c0 c
    using assms that by (cases s; cases "tl s") auto
  have "strip_hex_prefix s = s"
    using 3 [of "CHR ''x''"] 3 [of "CHR ''X''"] by (simp add: strip_hex_prefix_def hexval_def)
  moreover have "\<not> prefix ''-'' s" "\<not> prefix ''+'' s"
    using 2 by (simp_all add: hexval_def)
  ultimately show ?thesis by (simp add: py_int16_def 1 Let_def split: option.split)
qed

lemma py_int16_hexw [codec_simps]:
  "0 \<le> n \<Longrightarrow> n < 16 ^ k \<Longrightarrow> 0 < k \<Longrightarrow> py_int16 (hexw k n) = Inr n"
  by (subst py_int16_plain) (auto simp: hexw_hexval hex_digits_us_hexw)

lemma py_int16_upper_hexw [codec_simps]:
  "0 \<le> n \<Longrightarrow> n < 16 ^ k \<Longrightarrow> 0 < k \<Longrightarrow> py_int16 (py_upper (hexw k n)) = Inr n"
  by (subst py_int16_plain)
    (auto simp: upper_hexw_hexval hexw_hexval hex_digits_us_upper hex_digits_us_hexw)

lemma hexw_append:
  "0 \<le> y \<Longrightarrow> y < 16 ^ b \<Longrightarrow> hexw (a + b) (x * 16 ^ b + y) = hexw a x @ hexw b y"
proof (induction b arbitrary: y)
  case (Suc b)
  have y: "y div 16 < 16 ^ b" "0 \<le> y div 16" using Suc.prems div16_less by auto
  have "x * 16 ^ Suc b + y = (x * 16 ^ b) * 16 + y" by simp
  then have "(x * 16 ^ Suc b + y) div 16 = x * 16 ^ b + y div 16"
    "(x * 16 ^ Suc b + y) mod 16 = y mod 16"
    by (simp_all only: div_mult_self3 mod_mult_self3)
  then show ?case using Suc.IH [OF y(2,1)] by simp
next
  case 0
  then have "y = 0" by simp
  then show ?case by simp
qed

end
