(* ===== verification/Bdaddr.thy ===== *)
theory Bdaddr
  imports Prelude
begin

text \<open>
  \<open>bluek/_util.py\<close>: a Bluetooth device address as six bytes in wire order (least significant
  first) and as the string \<open>"AA:BB:CC:DD:EE:FF"\<close>.
\<close>

text \<open>The format \<open>"%02X"\<close> of one byte.\<close>

definition fmt_02X :: "byte \<Rightarrow> string" where
  "fmt_02X b = py_upper (hexw 2 (uint b))"

text \<open>One item of \<open>bytes(<ints>)\<close>: an integer outside 0..255 raises \<open>ValueError\<close>.\<close>

definition byte_of_int :: "int \<Rightarrow> byte result" where
  "byte_of_int v = (if 0 \<le> v \<and> v < 256 then Inr (word_of_int v) else Inl ValueError)"

definition str_to_bdaddr :: "string \<Rightarrow> bytes result" where
  "str_to_bdaddr addr =
     (let parts = py_split (CHR '':'') (py_strip addr)
      in if length parts \<noteq> 6 then Inl ValueError
         else rmap (\<lambda>p. rbind (py_int16 p) byte_of_int) (rev parts))"

definition bdaddr_to_str :: "bytes \<Rightarrow> string result" where
  "bdaddr_to_str b =
     (if length b \<noteq> 6 then Inl ValueError else Inr (py_join '':'' (map fmt_02X (rev b))))"


section \<open>Printing and reading one byte\<close>

lemma fmt_02X_hexval: "c \<in> set (fmt_02X b) \<Longrightarrow> \<exists>d. hexval c = Some d"
  by (auto simp: fmt_02X_def dest: upper_hexw_hexval)

lemma length_fmt_02X [simp]: "length (fmt_02X b) = 2"
  by (simp add: fmt_02X_def py_upper_def)

lemma colon_not_in_fmt_02X: "CHR '':'' \<notin> set (fmt_02X b)"
  using fmt_02X_hexval hex_not_special(6) by blast

lemma py_int16_fmt_02X [simp, codec_simps]: "py_int16 (fmt_02X b) = Inr (uint b)"
  by (simp add: fmt_02X_def py_int16_upper_hexw)

lemma byte_of_int_uint [simp, codec_simps]: "byte_of_int (uint b) = Inr b"
  by (simp add: byte_of_int_def)

lemma join_no_space:
  "\<forall>w\<in>set ws. \<forall>c\<in>set w. \<not> is_space c \<Longrightarrow> \<forall>c\<in>set sep. \<not> is_space c \<Longrightarrow>
   \<forall>c\<in>set (py_join sep ws). \<not> is_space c"
  by (induction sep ws rule: py_join.induct) auto

lemma strip_bdaddr: "py_strip (py_join '':'' (map fmt_02X bs)) = py_join '':'' (map fmt_02X bs)"
  unfolding py_strip_def
proof (rule strip_by_id, rule join_no_space)
  show "\<forall>w\<in>set (map fmt_02X bs). \<forall>c\<in>set w. \<not> is_space c"
    using fmt_02X_hexval hex_not_special(11) by auto
qed (simp add: is_space_def)

lemma split_bdaddr:
  "bs \<noteq> [] \<Longrightarrow> py_split (CHR '':'') (py_join '':'' (map fmt_02X bs)) = map fmt_02X bs"
  by (rule py_split_join) (auto simp: colon_not_in_fmt_02X)

lemma bdaddr_to_str_Inr: "length b = 6 \<Longrightarrow> \<exists>s. bdaddr_to_str b = Inr s"
  by (simp add: bdaddr_to_str_def)


section \<open>Properties\<close>

text \<open>
  C25.  A six-byte address printed by \<open>bdaddr_to_str\<close> is read back by \<open>str_to_bdaddr\<close> as the same
  bytes, and whatever spelling \<open>str_to_bdaddr\<close> accepts (white space, lower case, missing leading
  zeros) denotes the same address as the canonical string of the result.
\<close>

theorem bdaddr_roundtrip:
  assumes "length b = 6 \<or> str_to_bdaddr spelling = Inr b"
  shows "rbind (bdaddr_to_str b) str_to_bdaddr = Inr b"
proof -
  have len: "length b = 6"
    using assms by (auto simp: str_to_bdaddr_def Let_def dest!: rmap_length split: if_splits)
  then have "rev b \<noteq> []" by auto
  then have "py_split (CHR '':'') (py_join '':'' (map fmt_02X (rev b))) = map fmt_02X (rev b)"
    by (rule split_bdaddr)
  moreover have "rmap (\<lambda>p. rbind (py_int16 p) byte_of_int) (map fmt_02X b) = Inr b"
    by (induction b) auto
  ultimately show ?thesis
    using len by (simp add: bdaddr_to_str_def str_to_bdaddr_def strip_bdaddr rev_map)
qed

theorem bdaddr_roundtrip_witness:
  "str_to_bdaddr '' 20:a1:11:2:23:45 '' = Inr [0x45, 0x23, 0x02, 0x11, 0xa1, 0x20] \<and>
   rbind (bdaddr_to_str [0x45, 0x23, 0x02, 0x11, 0xa1, 0x20]) str_to_bdaddr
     = Inr [0x45, 0x23, 0x02, 0x11, 0xa1, 0x20]"
proof -
  have h: "str_to_bdaddr '' 20:a1:11:2:23:45 '' = Inr [0x45, 0x23, 0x02, 0x11, 0xa1, 0x20]"
    by code_simp
  then show ?thesis using bdaddr_roundtrip [OF disjI2, OF h] by simp
qed

end
