(* ===== verification/L2CAP.thy ===== *)
theory L2CAP
  imports Bdaddr
begin

text \<open>
  \<open>bluek/_l2cap.py\<close>: the L2CAP socket on the ATT channel.  Opening it is a sequence of system
  calls whose outcomes are the record \<open>l2_kernel\<close>; the open socket is the record \<open>l2\<close>, on which
  \<open>_read_ready\<close>, \<open>_fail\<close> and \<open>close\<close> act and from which the two callbacks given to
  \<open>start_reader\<close> are called.  A call of a callback is an \<open>upcall\<close>.

  The interface the ATT client uses, \<open>send\<close>, the callbacks and \<open>close\<close>, is the record
  \<open>transport\<close>: what \<open>await send(pdu)\<close> returns or raises, the upcalls that happen while a request
  waits for its response, and \<open>close\<close>, each over the transport's own state.  Its two providers
  in the repository are the socket of this theory (\<open>l2_transport\<close>) and the in-memory peripheral
  of the benchmarks (theory \<open>Fake_Peripheral\<close>).
\<close>

datatype upcall = OnData bytes | OnClose "exn option"

record 't transport =
  tsend :: "bytes \<Rightarrow> 't \<Rightarrow> unit result \<times> 't"
  trecv :: "'t \<Rightarrow> upcall list \<times> 't"
  tclose :: "'t \<Rightarrow> 't"


section \<open>Socket addresses\<close>

definition AF_BLUETOOTH :: int where "AF_BLUETOOTH = 31"
definition ATT_CID :: int where "ATT_CID = 0x0004"
definition BDADDR_LE_PUBLIC :: int where "BDADDR_LE_PUBLIC = 1"
definition BDADDR_LE_RANDOM :: int where "BDADDR_LE_RANDOM = 2"

record sockaddr_l2 =
  l2_family :: int
  l2_psm :: int
  l2_bdaddr :: bytes
  l2_cid :: int
  l2_bdaddr_type :: byte

definition make_addr :: "bytes \<Rightarrow> int \<Rightarrow> sockaddr_l2" where
  "make_addr bdaddr bdaddr_type =
     \<lparr>l2_family = AF_BLUETOOTH, l2_psm = 0, l2_bdaddr = bdaddr, l2_cid = ATT_CID,
      l2_bdaddr_type = word_of_int bdaddr_type\<rparr>"


section \<open>The socket object\<close>

record l2 =
  l2_closed :: bool
  l2_reader :: bool
  l2_on_data :: bool
  l2_on_close :: bool

definition l2_init :: l2 where
  "l2_init = \<lparr>l2_closed = False, l2_reader = False, l2_on_data = False, l2_on_close = False\<rparr>"

text \<open>\<open>on_close\<close> is optional; \<open>with_close\<close> says whether it was given.\<close>

definition l2_start_reader :: "bool \<Rightarrow> l2 \<Rightarrow> l2" where
  "l2_start_reader with_close s = s\<lparr>l2_on_data := True, l2_on_close := with_close, l2_reader := True\<rparr>"

definition l2_close :: "l2 \<Rightarrow> l2" where
  "l2_close s = (if l2_closed s then s else s\<lparr>l2_closed := True, l2_reader := False\<rparr>)"

definition l2_fail :: "exn option \<Rightarrow> l2 \<Rightarrow> l2 \<times> upcall list" where
  "l2_fail exc s =
     (if l2_closed s then (s, [])
      else (l2_close s, if l2_on_close s then [OnClose exc] else []))"

text \<open>What \<open>sock.recv(4096)\<close> does: bytes (none of them when the peer has closed), not ready, or
  another \<open>OSError\<close>.\<close>

datatype recv_outcome = RecvData bytes | RecvBlocked | RecvError int

fun l2_read_ready :: "recv_outcome \<Rightarrow> l2 \<Rightarrow> l2 \<times> upcall list" where
  "l2_read_ready RecvBlocked s = (s, [])"
| "l2_read_ready (RecvError e) s = l2_fail (Some (os_error e)) s"
| "l2_read_ready (RecvData d) s =
     (if d = [] then l2_fail None s
      else (s, if l2_on_data s then [OnData d] else []))"

text \<open>The event loop calls \<open>_read_ready\<close> only while the reader is registered.\<close>

fun l2_pump :: "recv_outcome list \<Rightarrow> l2 \<Rightarrow> l2 \<times> upcall list" where
  "l2_pump [] s = (s, [])"
| "l2_pump (r # rs) s =
     (if l2_reader s then
        (let (s', us) = l2_read_ready r s; (s'', us') = l2_pump rs s'
         in (s'', us @ us'))
      else (s, []))"

text \<open>The \<open>send\<close> loop over the outcomes of its \<open>sock.send\<close> calls; \<open>None\<close>: still waiting for the
  socket to become writable.\<close>

datatype send_try = SendDone | SendBlocked | SendError int

fun l2_send :: "send_try list \<Rightarrow> unit result option" where
  "l2_send [] = None"
| "l2_send (SendDone # ts) = Some (Inr ())"
| "l2_send (SendBlocked # ts) = l2_send ts"
| "l2_send (SendError e # ts) = Some (Inl (os_error e))"

text \<open>The peer and the kernel behind the socket: how often \<open>send\<close> blocks on a PDU and how it then
  ends (\<open>None\<close>: sent), and what arrives while a request waits.  A closed socket object raises
  \<open>EBADF\<close>.\<close>

record 'p peer =
  peer_send :: "bytes \<Rightarrow> 'p \<Rightarrow> (nat \<times> int option) \<times> 'p"
  peer_recv :: "'p \<Rightarrow> recv_outcome list \<times> 'p"

definition send_tries :: "nat \<times> int option \<Rightarrow> send_try list" where
  "send_tries x = replicate (fst x) SendBlocked
     @ [case snd x of None \<Rightarrow> SendDone | Some e \<Rightarrow> SendError e]"

definition l2_transport :: "'p peer \<Rightarrow> (l2 \<times> 'p) transport" where
  "l2_transport P =
     \<lparr>tsend = (\<lambda>pdu (s, p).
        if l2_closed s then (Inl (os_error EBADF), (s, p))
        else let (o', p') = peer_send P pdu p
             in (case l2_send (send_tries o') of Some r \<Rightarrow> r | None \<Rightarrow> Inl TimeoutError, (s, p'))),
      trecv = (\<lambda>(s, p). let (rs, p') = peer_recv P p; (s', us) = l2_pump rs s in (us, (s', p'))),
      tclose = (\<lambda>(s, p). (l2_close s, p))\<rparr>"


section \<open>Connecting\<close>

text \<open>Outcomes of the system calls: \<open>socket\<close> (an \<open>errno\<close> or success), \<open>bind\<close> and \<open>connect\<close> (the
  \<open>errno\<close>, 0 on success), and the wait for writability (\<open>None\<close>: timed out, else the
  \<open>SO_ERROR\<close>).\<close>

record l2_kernel =
  k_socket :: "int option"
  k_bind :: "sockaddr_l2 \<Rightarrow> int"
  k_connect :: "sockaddr_l2 \<Rightarrow> int"
  k_wait :: "int option"

definition EINPROGRESS :: int where "EINPROGRESS = 115"
definition EALREADY :: int where "EALREADY = 114"
definition EAGAIN :: int where "EAGAIN = 11"

definition l2_wait_connected :: "l2_kernel \<Rightarrow> unit result" where
  "l2_wait_connected k =
     (case k_wait k of
        None \<Rightarrow> Inl TimeoutError
      | Some err \<Rightarrow> if err \<noteq> 0 then Inl (os_error err) else Inr ())"

definition l2_connect_steps :: "l2_kernel \<Rightarrow> string \<Rightarrow> int \<Rightarrow> string option \<Rightarrow> unit result" where
  "l2_connect_steps k dst dst_type src =
     rbind (case src of None \<Rightarrow> Inr (replicate 6 0)
                      | Some a \<Rightarrow> if a = [] then Inr (replicate 6 0) else str_to_bdaddr a) (\<lambda>src_bytes.
     rbind (let e = k_bind k (make_addr src_bytes BDADDR_LE_PUBLIC)
            in if e \<noteq> 0 then Inl (os_error e) else Inr ()) (\<lambda>_.
     rbind (str_to_bdaddr dst) (\<lambda>dst_bytes.
       let e = k_connect k (make_addr dst_bytes dst_type)
       in if e = 0 then Inr ()
          else if e \<notin> set [EINPROGRESS, EALREADY, EAGAIN] then Inl (os_error e)
          else l2_wait_connected k)))"

text \<open>The result, and whether the file descriptor is still open.\<close>

definition l2_connect :: "l2_kernel \<Rightarrow> string \<Rightarrow> int \<Rightarrow> string option \<Rightarrow> l2 result \<times> bool" where
  "l2_connect k dst dst_type src =
     (case k_socket k of
        Some e \<Rightarrow> (Inl (os_error e), False)
      | None \<Rightarrow>
          (case l2_connect_steps k dst dst_type src of
             Inl e \<Rightarrow> (Inl e, False)
           | Inr _ \<Rightarrow> (Inr l2_init, True)))"


section \<open>Lemmas\<close>

lemma l2_send_tries [simp]:
  "l2_send (send_tries x) =
     Some (case snd x of None \<Rightarrow> Inr () | Some e \<Rightarrow> Inl (os_error e))"
proof -
  have "l2_send (replicate n SendBlocked @ ts) = l2_send ts" for n ts
    by (induction n) auto
  then show ?thesis by (simp add: send_tries_def split: option.split)
qed

lemma l2_send_returns: "l2_send ts \<noteq> None \<longleftrightarrow> (\<exists>t\<in>set ts. t \<noteq> SendBlocked)"
  by (induction ts rule: l2_send.induct) auto

lemma l2_close_idem [simp]: "l2_close (l2_close s) = l2_close s"
  by (simp add: l2_close_def)

lemma l2_close_closed [simp]: "l2_closed (l2_close s)"
  by (simp add: l2_close_def)

text \<open>The reader is never registered on a closed socket.\<close>

definition l2_inv :: "l2 \<Rightarrow> bool" where
  "l2_inv s \<longleftrightarrow> (l2_closed s \<longrightarrow> \<not> l2_reader s)"

lemma l2_inv_ops:
  "l2_inv l2_init"
  "\<not> l2_closed s \<Longrightarrow> l2_inv (l2_start_reader b s)"
  "l2_inv s \<Longrightarrow> l2_inv (l2_close s)"
  "l2_inv s \<Longrightarrow> l2_inv (fst (l2_fail e s))"
  by (auto simp: l2_inv_def l2_init_def l2_start_reader_def l2_close_def l2_fail_def)

lemma l2_inv_read_ready: "l2_inv s \<Longrightarrow> l2_inv (fst (l2_read_ready r s))"
  by (cases r) (auto intro: l2_inv_ops(4))

lemma l2_pump_stopped: "\<not> l2_reader s \<Longrightarrow> l2_pump rs s = (s, [])"
  by (cases rs) auto

lemma l2_inv_pump: "l2_inv s \<Longrightarrow> l2_inv (fst (l2_pump rs s))"
proof (induction rs arbitrary: s)
  case (Cons r rs)
  from Cons.prems have "l2_inv (fst (l2_read_ready r s))" by (rule l2_inv_read_ready)
  from Cons.IH [OF this] Cons.prems show ?case by (auto simp: split_beta Let_def)
qed simp

definition is_close :: "upcall \<Rightarrow> bool" where
  "is_close u \<longleftrightarrow> (case u of OnClose _ \<Rightarrow> True | _ \<Rightarrow> False)"

lemma l2_read_ready_cases:
  "l2_inv s \<Longrightarrow> l2_reader s \<Longrightarrow> l2_read_ready r s = (s', us) \<Longrightarrow>
   (s' = s \<and> (us = [] \<or> (\<exists>d. us = [OnData d] \<and> d \<noteq> [])))
   \<or> (s' = l2_close s \<and> (us = [] \<or> (\<exists>e. us = [OnClose e])))"
  by (cases r) (auto simp: l2_fail_def l2_inv_def split: if_splits)

text \<open>The upcalls of a batch: data, then at most one close, after which the socket is closed.\<close>

lemma l2_pump_upcalls:
  assumes "l2_inv s" "l2_pump rs s = (s', us)"
  shows "(list_all (\<lambda>u. \<exists>d. u = OnData d \<and> d \<noteq> []) us)
    \<or> (l2_closed s' \<and> (\<exists>ds e. us = ds @ [OnClose e] \<and> list_all (\<lambda>u. \<exists>d. u = OnData d \<and> d \<noteq> []) ds))"
  using assms
proof (induction rs arbitrary: s s' us)
  case (Cons r rs)
  show ?case
  proof (cases "l2_reader s")
    case True
    obtain s1 us1 where r: "l2_read_ready r s = (s1, us1)" by (cases "l2_read_ready r s")
    obtain s2 us2 where p: "l2_pump rs s1 = (s2, us2)" by (cases "l2_pump rs s1")
    from Cons.prems True r p have e: "s' = s2" "us = us1 @ us2" by auto
    have i: "l2_inv s1" using l2_inv_read_ready [OF Cons.prems(1), of r] r by simp
    from l2_read_ready_cases [OF Cons.prems(1) True r] show ?thesis
    proof
      assume "s1 = s \<and> (us1 = [] \<or> (\<exists>d. us1 = [OnData d] \<and> d \<noteq> []))"
      then show ?thesis using Cons.IH [OF i p] e by (auto intro: exI [of _ "us1 @ _"])
    next
      assume a: "s1 = l2_close s \<and> (us1 = [] \<or> (\<exists>e. us1 = [OnClose e]))"
      with i have "\<not> l2_reader s1" by (simp add: l2_inv_def)
      with p have "s2 = s1" "us2 = []" by (simp_all add: l2_pump_stopped)
      with a e show ?thesis by auto
    qed
  qed (use Cons.prems in auto)
qed simp

end
