(* ===== verification/ATT_Core.thy ===== *)
theory ATT_Core
  imports L2CAP
begin

text \<open>
  The state and the transaction layer of \<open>bluek/_att.py\<close>: the demultiplexer \<open>_on_data\<close>, the close
  callback, the fire-and-forget replies and \<open>_request\<close>.

  The record \<open>att\<close> is the \<open>ATTClient\<close> object over a transport state \<open>'t\<close>; notification callbacks
  are values of a type \<open>'h\<close>.  Calls of callbacks are observations, so they are logged in order:
  \<open>a_notified\<close> for notification callbacks, \<open>a_disconnects\<close> for \<open>on_disconnect\<close>.  A pending future
  is the value of \<open>a_pending\<close>.

  One \<open>_request\<close> runs at a time here (the lock is free; theory \<open>ATT_Locking\<close> has the contended
  case).  While it waits, the event loop delivers the upcalls \<open>trecv\<close> returns, in order, and runs
  the tasks each of them creates; if the future is still pending when they are exhausted, the wait
  has timed out.  Upcalls after the one that resolves the future belong to the same batch: they
  arrive before the waiting coroutine resumes.
\<close>

section \<open>Opcodes and error codes\<close>

definition ERROR_RSP :: int where "ERROR_RSP = 0x01"
definition EXCHANGE_MTU_REQ :: int where "EXCHANGE_MTU_REQ = 0x02"
definition EXCHANGE_MTU_RSP :: int where "EXCHANGE_MTU_RSP = 0x03"
definition FIND_INFO_REQ :: int where "FIND_INFO_REQ = 0x04"
definition FIND_INFO_RSP :: int where "FIND_INFO_RSP = 0x05"
definition READ_BY_TYPE_REQ :: int where "READ_BY_TYPE_REQ = 0x08"
definition READ_BY_TYPE_RSP :: int where "READ_BY_TYPE_RSP = 0x09"
definition READ_REQ :: int where "READ_REQ = 0x0A"
definition READ_RSP :: int where "READ_RSP = 0x0B"
definition READ_BLOB_REQ :: int where "READ_BLOB_REQ = 0x0C"
definition READ_BLOB_RSP :: int where "READ_BLOB_RSP = 0x0D"
definition READ_BY_GROUP_TYPE_REQ :: int where "READ_BY_GROUP_TYPE_REQ = 0x10"
definition READ_BY_GROUP_TYPE_RSP :: int where "READ_BY_GROUP_TYPE_RSP = 0x11"
definition WRITE_REQ :: int where "WRITE_REQ = 0x12"
definition WRITE_RSP :: int where "WRITE_RSP = 0x13"
definition WRITE_CMD :: int where "WRITE_CMD = 0x52"
definition HANDLE_VALUE_NTF :: int where "HANDLE_VALUE_NTF = 0x1B"
definition HANDLE_VALUE_IND :: int where "HANDLE_VALUE_IND = 0x1D"
definition HANDLE_VALUE_CFM :: int where "HANDLE_VALUE_CFM = 0x1E"

definition ATT_ERR_INVALID_HANDLE :: int where "ATT_ERR_INVALID_HANDLE = 0x01"
definition ATT_ERR_INVALID_OFFSET :: int where "ATT_ERR_INVALID_OFFSET = 0x07"
definition ATT_ERR_ATTRIBUTE_NOT_FOUND :: int where "ATT_ERR_ATTRIBUTE_NOT_FOUND = 0x0A"
definition ATT_ERR_ATTRIBUTE_NOT_LONG :: int where "ATT_ERR_ATTRIBUTE_NOT_LONG = 0x0B"

definition DEFAULT_MTU :: int where "DEFAULT_MTU = 23"
definition PREFERRED_MTU :: int where "PREFERRED_MTU = 247"

text \<open>The message of an \<open>ATTError\<close>.\<close>

definition att_error_message :: "int \<Rightarrow> int \<Rightarrow> int \<Rightarrow> string" where
  "att_error_message req_opcode handle error_code =
     ''ATT error 0x'' @ fmt_hex 2 error_code @ '' (req 0x'' @ fmt_hex 2 req_opcode @ '', handle 0x'' @ fmt_hex 4 handle @ '')''"

lemmas att_opcodes =
  ERROR_RSP_def EXCHANGE_MTU_REQ_def EXCHANGE_MTU_RSP_def FIND_INFO_REQ_def FIND_INFO_RSP_def
  READ_BY_TYPE_REQ_def READ_BY_TYPE_RSP_def READ_REQ_def READ_RSP_def READ_BLOB_REQ_def
  READ_BLOB_RSP_def READ_BY_GROUP_TYPE_REQ_def READ_BY_GROUP_TYPE_RSP_def WRITE_REQ_def
  WRITE_RSP_def WRITE_CMD_def HANDLE_VALUE_NTF_def HANDLE_VALUE_IND_def HANDLE_VALUE_CFM_def

lemmas att_errors =
  ATT_ERR_INVALID_HANDLE_def ATT_ERR_INVALID_OFFSET_def ATT_ERR_ATTRIBUTE_NOT_FOUND_def
  ATT_ERR_ATTRIBUTE_NOT_LONG_def

lemmas att_mtus = DEFAULT_MTU_def PREFERRED_MTU_def

text \<open>\<open>bytes([opcode])\<close>.\<close>

abbreviation op_byte :: "int \<Rightarrow> byte" where "op_byte \<equiv> word_of_int"


section \<open>The client object\<close>

datatype fut = FutPending | FutResult bytes | FutExc exn

datatype att_task = TaskConfirm | TaskMtuRsp

record ('t, 'h) att =
  a_l2 :: 't
  a_pending :: "fut option"
  a_pending_opcode :: "int option"
  a_mtu :: int
  a_peer_initiated_mtu :: bool
  a_notify_handlers :: "int \<rightharpoonup> 'h"
  a_tasks :: "att_task list"
  a_notified :: "('h \<times> bytes) list"
  a_disconnects :: "exn option list"

definition att_init :: "'t \<Rightarrow> ('t, 'h) att" where
  "att_init t =
     \<lparr>a_l2 = t, a_pending = None, a_pending_opcode = None, a_mtu = DEFAULT_MTU,
      a_peer_initiated_mtu = False, a_notify_handlers = Map.empty, a_tasks = [],
      a_notified = [], a_disconnects = []\<rparr>"

definition att_close :: "'t transport \<Rightarrow> ('t, 'h) att \<Rightarrow> ('t, 'h) att" where
  "att_close T s = s\<lparr>a_l2 := tclose T (a_l2 s)\<rparr>"


section \<open>Inbound demultiplexing\<close>

definition dispatch_notify :: "int \<Rightarrow> bytes \<Rightarrow> ('t, 'h) att \<Rightarrow> ('t, 'h) att" where
  "dispatch_notify value_handle val s =
     (case a_notify_handlers s value_handle of
        None \<Rightarrow> s
      | Some cb \<Rightarrow> s\<lparr>a_notified := a_notified s @ [(cb, val)]\<rparr>)"

definition on_data :: "bytes \<Rightarrow> ('t, 'h) att \<Rightarrow> ('t, 'h) att" where
  "on_data data s =
     (if data = [] then s
      else
        let opcode = uint (hd data) in
        if opcode = HANDLE_VALUE_NTF then
          dispatch_notify (from_le (slice 1 3 data)) (drop 3 data) s
        else if opcode = HANDLE_VALUE_IND then
          (let s1 = dispatch_notify (from_le (slice 1 3 data)) (drop 3 data) s
           in s1\<lparr>a_tasks := a_tasks s1 @ [TaskConfirm]\<rparr>)
        else if opcode = EXCHANGE_MTU_REQ then
          (let peer_mtu = from_le (slice 1 3 data);
               s1 = s\<lparr>a_mtu := max DEFAULT_MTU (min PREFERRED_MTU peer_mtu),
                      a_peer_initiated_mtu := True,
                      a_tasks := a_tasks s @ [TaskMtuRsp]\<rparr>
           in if a_pending s1 = Some FutPending \<and> a_pending_opcode s1 = Some EXCHANGE_MTU_RSP
              then s1\<lparr>a_pending :=
                     Some (FutResult (op_byte EXCHANGE_MTU_RSP # le_bytes 2 peer_mtu))\<rparr>
              else s1)
        else if a_pending s = Some FutPending
             \<and> (a_pending_opcode s = Some opcode \<or> opcode = ERROR_RSP) then
          s\<lparr>a_pending := Some (FutResult data)\<rparr>
        else s)"

text \<open>\<open>_confirm\<close> and \<open>_send_mtu_rsp\<close>: an \<open>OSError\<close> of \<open>send\<close> is swallowed (and no other one is
  raised by a transport).\<close>

fun task_pdu :: "att_task \<Rightarrow> bytes" where
  "task_pdu TaskConfirm = [op_byte HANDLE_VALUE_CFM]"
| "task_pdu TaskMtuRsp = op_byte EXCHANGE_MTU_RSP # le_bytes 2 PREFERRED_MTU"

definition run_task :: "'t transport \<Rightarrow> att_task \<Rightarrow> ('t, 'h) att \<Rightarrow> ('t, 'h) att" where
  "run_task T task s = s\<lparr>a_l2 := snd (tsend T (task_pdu task) (a_l2 s))\<rparr>"

definition run_tasks :: "'t transport \<Rightarrow> ('t, 'h) att \<Rightarrow> ('t, 'h) att" where
  "run_tasks T s = fold (run_task T) (a_tasks s) (s\<lparr>a_tasks := []\<rparr>)"

definition on_close :: "exn option \<Rightarrow> ('t, 'h) att \<Rightarrow> ('t, 'h) att" where
  "on_close exc s =
     (let s1 = (if a_pending s = Some FutPending
                then s\<lparr>a_pending := Some (FutExc (case exc of
                         Some e \<Rightarrow> e | None \<Rightarrow> BleakError ''disconnected''))\<rparr>
                else s)
      in s1\<lparr>a_disconnects := a_disconnects s1 @ [exc]\<rparr>)"

fun deliver :: "'t transport \<Rightarrow> upcall \<Rightarrow> ('t, 'h) att \<Rightarrow> ('t, 'h) att" where
  "deliver T (OnData d) s = run_tasks T (on_data d s)"
| "deliver T (OnClose e) s = on_close e s"

definition deliver_all :: "'t transport \<Rightarrow> upcall list \<Rightarrow> ('t, 'h) att \<Rightarrow> ('t, 'h) att" where
  "deliver_all T us s = fold (deliver T) us s"


section \<open>Transactions\<close>

definition begin_request :: "int \<Rightarrow> ('t, 'h) att \<Rightarrow> ('t, 'h) att" where
  "begin_request expected s = s\<lparr>a_pending := Some FutPending, a_pending_opcode := Some expected\<rparr>"

definition end_request :: "('t, 'h) att \<Rightarrow> ('t, 'h) att" where
  "end_request s = s\<lparr>a_pending := None, a_pending_opcode := None\<rparr>"

text \<open>What \<open>await asyncio.wait_for(fut, ATT_TIMEOUT)\<close> gives once the batch is delivered.\<close>

definition await_result :: "('t, 'h) att \<Rightarrow> bytes result" where
  "await_result s =
     (case a_pending s of
        Some (FutResult d) \<Rightarrow> Inr d
      | Some (FutExc e) \<Rightarrow> Inl e
      | _ \<Rightarrow> Inl TimeoutError)"

definition fmt_02x :: "int \<Rightarrow> string" where
  "fmt_02x v = fmt_hex 2 v"

definition decode_response :: "int \<Rightarrow> bytes \<Rightarrow> bytes result" where
  "decode_response expected data =
     rbind (py_get data 0) (\<lambda>b.
       if uint b = ERROR_RSP then
         rbind (unpack_le 1 1 data) (\<lambda>req_op.
         rbind (unpack_le 2 2 data) (\<lambda>handle.
         rbind (unpack_le 1 4 data) (\<lambda>err.
           Inl (ATTError req_op handle err))))
       else if uint b \<noteq> expected then
         Inl (BleakError (''unexpected ATT opcode 0x'' @ fmt_02x (uint b)
                @ '' (wanted 0x'' @ fmt_02x expected @ '')''))
       else Inr data)"

definition request ::
  "'t transport \<Rightarrow> bytes \<Rightarrow> int \<Rightarrow> ('t, 'h) att \<Rightarrow> bytes result \<times> ('t, 'h) att" where
  "request T payload expected s =
     (let s1 = begin_request expected s;
          (sent, t) = tsend T payload (a_l2 s1);
          s2 = s1\<lparr>a_l2 := t\<rparr>
      in case sent of
           Inl e \<Rightarrow> (Inl e, end_request s2)
         | Inr _ \<Rightarrow>
             (let (us, t') = trecv T (a_l2 s2);
                  s3 = deliver_all T us (s2\<lparr>a_l2 := t'\<rparr>)
              in (rbind (await_result s3) (decode_response expected), end_request s3)))"



section \<open>What a batch of upcalls does\<close>

text \<open>
  The effects of one upcall, separately: how it resolves a pending request that waits for
  \<open>op\<close>, which notification value it carries, which PDUs it makes the client send, and the MTU
  it sets.
\<close>

definition opcode_of :: "bytes \<Rightarrow> int" where
  "opcode_of d = (if d = [] then - 1 else uint (hd d))"

fun response_of :: "int \<Rightarrow> upcall \<Rightarrow> bytes result option" where
  "response_of op (OnClose e) =
     Some (Inl (case e of Some x \<Rightarrow> x | None \<Rightarrow> BleakError ''disconnected''))"
| "response_of op (OnData d) =
     (if d = [] \<or> opcode_of d = HANDLE_VALUE_NTF \<or> opcode_of d = HANDLE_VALUE_IND then None
      else if opcode_of d = EXCHANGE_MTU_REQ then
        (if op = EXCHANGE_MTU_RSP
         then Some (Inr (op_byte EXCHANGE_MTU_RSP # le_bytes 2 (from_le (slice 1 3 d)))) else None)
      else if opcode_of d = op \<or> opcode_of d = ERROR_RSP then Some (Inr d)
      else None)"

fun value_of :: "upcall \<Rightarrow> (int \<times> bytes) option" where
  "value_of (OnClose e) = None"
| "value_of (OnData d) =
     (if opcode_of d = HANDLE_VALUE_NTF \<or> opcode_of d = HANDLE_VALUE_IND
      then Some (from_le (slice 1 3 d), drop 3 d) else None)"

fun replies_of :: "upcall \<Rightarrow> att_task list" where
  "replies_of (OnClose e) = []"
| "replies_of (OnData d) =
     (if opcode_of d = HANDLE_VALUE_IND then [TaskConfirm]
      else if opcode_of d = EXCHANGE_MTU_REQ then [TaskMtuRsp] else [])"

fun mtu_of :: "upcall \<Rightarrow> int option" where
  "mtu_of (OnClose e) = None"
| "mtu_of (OnData d) =
     (if opcode_of d = EXCHANGE_MTU_REQ
      then Some (max DEFAULT_MTU (min PREFERRED_MTU (from_le (slice 1 3 d)))) else None)"

fun closes_of :: "upcall \<Rightarrow> exn option list" where
  "closes_of (OnClose e) = [e]"
| "closes_of (OnData d) = []"

fun fut_of :: "bytes result \<Rightarrow> fut" where
  "fut_of (Inr d) = FutResult d"
| "fut_of (Inl e) = FutExc e"

definition notify_entries :: "(int \<rightharpoonup> 'h) \<Rightarrow> upcall list \<Rightarrow> ('h \<times> bytes) list" where
  "notify_entries hs us =
     List.map_filter (\<lambda>u. case value_of u of
        None \<Rightarrow> None
      | Some (vh, v) \<Rightarrow> map_option (\<lambda>h. (h, v)) (hs vh)) us"

definition send_replies :: "'t transport \<Rightarrow> att_task list \<Rightarrow> 't \<Rightarrow> 't" where
  "send_replies T ts t = fold (\<lambda>k t. snd (tsend T (task_pdu k) t)) ts t"

text \<open>Tasks touch the transport only.\<close>

lemma fold_run_task: "fold (run_task T) ks s = s\<lparr>a_l2 := send_replies T ks (a_l2 s)\<rparr>"
  by (induction ks arbitrary: s) (simp_all add: run_task_def send_replies_def)

lemma run_tasks_eq: "run_tasks T s = s\<lparr>a_tasks := [], a_l2 := send_replies T (a_tasks s) (a_l2 s)\<rparr>"
  by (simp add: run_tasks_def fold_run_task)

lemma send_replies_append [simp]:
  "send_replies T (ks @ ks') t = send_replies T ks' (send_replies T ks t)"
  "send_replies T [] t = t"
  by (simp_all add: send_replies_def)

lemma opcodes_distinct [simp]:
  "HANDLE_VALUE_NTF \<noteq> HANDLE_VALUE_IND" "HANDLE_VALUE_IND \<noteq> HANDLE_VALUE_NTF"
  "HANDLE_VALUE_NTF \<noteq> EXCHANGE_MTU_REQ" "EXCHANGE_MTU_REQ \<noteq> HANDLE_VALUE_NTF"
  "HANDLE_VALUE_IND \<noteq> EXCHANGE_MTU_REQ" "EXCHANGE_MTU_REQ \<noteq> HANDLE_VALUE_IND"
  "HANDLE_VALUE_NTF \<noteq> - 1" "HANDLE_VALUE_IND \<noteq> - 1" "EXCHANGE_MTU_REQ \<noteq> - 1"
  "- 1 \<noteq> HANDLE_VALUE_NTF" "- 1 \<noteq> HANDLE_VALUE_IND" "- 1 \<noteq> EXCHANGE_MTU_REQ"
  by (simp_all add: att_opcodes)

lemma opcode_of_Nil [simp]: "opcode_of [] = - 1"
  by (simp add: opcode_of_def)

lemma opcode_of_Cons [simp]: "opcode_of (b # d) = uint b"
  by (simp add: opcode_of_def)

lemma dispatch_notify_eq:
  "dispatch_notify vh v s = s\<lparr>a_notified := a_notified s @
     (case a_notify_handlers s vh of None \<Rightarrow> [] | Some h \<Rightarrow> [(h, v)])\<rparr>"
  by (simp add: dispatch_notify_def split: option.split)

text \<open>The branches of \<open>_on_data\<close>.\<close>

lemma on_data_Nil: "on_data [] s = s"
  by (simp add: on_data_def)

lemma on_data_ntf:
  "opcode_of d = HANDLE_VALUE_NTF \<Longrightarrow>
   on_data d s = dispatch_notify (from_le (slice 1 3 d)) (drop 3 d) s"
  by (cases d) (simp_all add: on_data_def)

lemma on_data_ind:
  "opcode_of d = HANDLE_VALUE_IND \<Longrightarrow>
   on_data d s = (dispatch_notify (from_le (slice 1 3 d)) (drop 3 d) s)
     \<lparr>a_tasks := a_tasks s @ [TaskConfirm]\<rparr>"
  by (cases d) (simp_all add: on_data_def dispatch_notify_eq Let_def)

lemma on_data_mtu:
  "opcode_of d = EXCHANGE_MTU_REQ \<Longrightarrow>
   on_data d s = s\<lparr>a_mtu := max DEFAULT_MTU (min PREFERRED_MTU (from_le (slice 1 3 d))),
     a_peer_initiated_mtu := True, a_tasks := a_tasks s @ [TaskMtuRsp],
     a_pending := (if a_pending s = Some FutPending \<and> a_pending_opcode s = Some EXCHANGE_MTU_RSP
       then Some (FutResult (op_byte EXCHANGE_MTU_RSP # le_bytes 2 (from_le (slice 1 3 d))))
       else a_pending s)\<rparr>"
  by (cases d) (simp_all add: on_data_def Let_def)

lemma on_data_other:
  "d \<noteq> [] \<Longrightarrow> opcode_of d \<noteq> HANDLE_VALUE_NTF \<Longrightarrow> opcode_of d \<noteq> HANDLE_VALUE_IND \<Longrightarrow>
   opcode_of d \<noteq> EXCHANGE_MTU_REQ \<Longrightarrow>
   on_data d s = s\<lparr>a_pending := (if a_pending s = Some FutPending
       \<and> (a_pending_opcode s = Some (opcode_of d) \<or> opcode_of d = ERROR_RSP)
       then Some (FutResult d) else a_pending s)\<rparr>"
  by (cases d) (simp_all add: on_data_def Let_def)

lemmas on_data_branches = on_data_Nil on_data_ntf on_data_ind on_data_mtu on_data_other

lemma data_kinds:
  obtains "d = []" | "d \<noteq> []" "opcode_of d = HANDLE_VALUE_NTF"
  | "d \<noteq> []" "opcode_of d = HANDLE_VALUE_IND" | "d \<noteq> []" "opcode_of d = EXCHANGE_MTU_REQ"
  | "d \<noteq> []" "opcode_of d \<noteq> HANDLE_VALUE_NTF" "opcode_of d \<noteq> HANDLE_VALUE_IND"
    "opcode_of d \<noteq> EXCHANGE_MTU_REQ"
  by blast

text \<open>One upcall, described by its effects.\<close>

lemma deliver_effects_conj:
  "a_tasks s = [] \<Longrightarrow>
    a_notify_handlers (deliver T u s) = a_notify_handlers s \<and>
    a_pending_opcode (deliver T u s) = a_pending_opcode s \<and>
    a_tasks (deliver T u s) = [] \<and>
    a_notified (deliver T u s) = a_notified s @ notify_entries (a_notify_handlers s) [u] \<and>
    a_l2 (deliver T u s) = send_replies T (replies_of u) (a_l2 s) \<and>
    a_mtu (deliver T u s) = (case mtu_of u of None \<Rightarrow> a_mtu s | Some m \<Rightarrow> m) \<and>
    (a_peer_initiated_mtu (deliver T u s) \<longleftrightarrow> a_peer_initiated_mtu s \<or> mtu_of u \<noteq> None) \<and>
    a_disconnects (deliver T u s) = a_disconnects s @ closes_of u"
proof (cases u)
  case (OnData d)
  assume "a_tasks s = []"
  with OnData show ?thesis
    by (cases d rule: data_kinds)
      (simp_all add: run_tasks_eq on_data_branches dispatch_notify_eq notify_entries_def
        map_filter_simps split: option.split)
qed (simp add: on_close_def notify_entries_def map_filter_simps Let_def)

lemma deliver_effects:
  assumes "a_tasks s = []"
  shows "a_notify_handlers (deliver T u s) = a_notify_handlers s"
    and "a_pending_opcode (deliver T u s) = a_pending_opcode s"
    and "a_tasks (deliver T u s) = []"
    and "a_notified (deliver T u s) = a_notified s @ notify_entries (a_notify_handlers s) [u]"
    and "a_l2 (deliver T u s) = send_replies T (replies_of u) (a_l2 s)"
    and "a_mtu (deliver T u s) = (case mtu_of u of None \<Rightarrow> a_mtu s | Some m \<Rightarrow> m)"
    and "a_peer_initiated_mtu (deliver T u s) \<longleftrightarrow> a_peer_initiated_mtu s \<or> mtu_of u \<noteq> None"
    and "a_disconnects (deliver T u s) = a_disconnects s @ closes_of u"
  using deliver_effects_conj [OF assms] by blast+

lemma deliver_pending:
  assumes "a_pending_opcode s = Some op"
  shows "a_pending (deliver T u s) =
    (if a_pending s = Some FutPending
     then Some (case response_of op u of None \<Rightarrow> FutPending | Some r \<Rightarrow> fut_of r)
     else a_pending s)"
proof (cases u)
  case (OnData d)
  then show ?thesis
    using assms by (cases d rule: data_kinds)
      (auto simp: run_tasks_eq on_data_branches dispatch_notify_eq)
qed (auto simp: on_close_def Let_def)

lemma deliver_idle:
  assumes "a_pending s \<noteq> Some FutPending"
  shows "a_pending (deliver T u s) = a_pending s"
proof (cases u)
  case (OnData d)
  then show ?thesis
    using assms by (cases d rule: data_kinds)
      (simp_all add: run_tasks_eq on_data_branches dispatch_notify_eq)
qed (use assms in \<open>simp add: on_close_def Let_def\<close>)

text \<open>A whole batch.\<close>

lemma deliver_all_simps [simp]:
  "deliver_all T [] s = s"
  "deliver_all T (u # us) s = deliver_all T us (deliver T u s)"
  "deliver_all T (us @ vs) s = deliver_all T vs (deliver_all T us s)"
  by (simp_all add: deliver_all_def)

lemma notify_entries_simps [simp]:
  "notify_entries hs [] = []"
  "notify_entries hs (u # us) = notify_entries hs [u] @ notify_entries hs us"
  by (simp_all add: notify_entries_def map_filter_simps split: option.splits)

definition last_mtu :: "int \<Rightarrow> upcall list \<Rightarrow> int" where
  "last_mtu m us = fold (\<lambda>u m. case mtu_of u of None \<Rightarrow> m | Some m' \<Rightarrow> m') us m"

lemma deliver_all_effects:
  assumes "a_tasks s = []"
  shows "a_notify_handlers (deliver_all T us s) = a_notify_handlers s
    \<and> a_pending_opcode (deliver_all T us s) = a_pending_opcode s
    \<and> a_tasks (deliver_all T us s) = []
    \<and> a_notified (deliver_all T us s) = a_notified s @ notify_entries (a_notify_handlers s) us
    \<and> a_l2 (deliver_all T us s) = send_replies T (concat (map replies_of us)) (a_l2 s)
    \<and> a_mtu (deliver_all T us s) = last_mtu (a_mtu s) us
    \<and> (a_peer_initiated_mtu (deliver_all T us s) \<longleftrightarrow>
         a_peer_initiated_mtu s \<or> list_ex (\<lambda>u. mtu_of u \<noteq> None) us)
    \<and> a_disconnects (deliver_all T us s) = a_disconnects s @ concat (map closes_of us)"
  using assms
proof (induction us arbitrary: s)
  case Nil
  then show ?case by (simp add: last_mtu_def)
next
  case (Cons u us)
  note d = deliver_effects [OF Cons.prems, of T u]
  from Cons.IH [OF d(3)] show ?case
    by (auto simp: d last_mtu_def simp del: notify_entries_simps(2)
        simp add: notify_entries_simps(2) [of _ u us])
qed

lemma deliver_all_idle:
  "a_pending s \<noteq> Some FutPending \<Longrightarrow> a_pending (deliver_all T us s) = a_pending s"
  by (induction us arbitrary: s) (auto simp: deliver_idle)

lemma deliver_all_pending:
  assumes "a_pending_opcode s = Some op" "a_tasks s = []" "a_pending s = Some FutPending"
  shows "a_pending (deliver_all T us s) =
    Some (case List.map_filter (response_of op) us of [] \<Rightarrow> FutPending | r # _ \<Rightarrow> fut_of r)"
  using assms
proof (induction us arbitrary: s)
  case Nil
  then show ?case by (simp add: map_filter_simps)
next
  case (Cons u us)
  note d = deliver_effects [OF Cons.prems(2), of T u]
  note p = deliver_pending [OF Cons.prems(1), of T u]
  show ?case
  proof (cases "response_of op u")
    case None
    with p Cons.prems(3) have "a_pending (deliver T u s) = Some FutPending" by simp
    with Cons.IH [of "deliver T u s"] d(2,3) Cons.prems(1) None show ?thesis
      by (simp add: map_filter_simps)
  next
    case (Some r)
    with p Cons.prems(3) have "a_pending (deliver T u s) = Some (fut_of r)" by simp
    moreover have "fut_of r \<noteq> FutPending" by (cases r) auto
    ultimately show ?thesis using Some by (simp add: deliver_all_idle map_filter_simps)
  qed
qed


section \<open>Transactions as functions of the batch\<close>

text \<open>The first upcall that answers the request decides.\<close>

definition first_response :: "int \<Rightarrow> upcall list \<Rightarrow> bytes result" where
  "first_response op us =
     (case List.map_filter (response_of op) us of [] \<Rightarrow> Inl TimeoutError | r # _ \<Rightarrow> r)"

lemma fut_of_value: "(case fut_of r of FutResult d \<Rightarrow> Inr d | FutExc e \<Rightarrow> Inl e | _ \<Rightarrow> x) = r"
  by (cases r) auto

text \<open>Between transactions nothing is pending and no task is due.\<close>

definition quiet :: "('t, 'h) att \<Rightarrow> bool" where
  "quiet s \<longleftrightarrow> a_pending s = None \<and> a_pending_opcode s = None \<and> a_tasks s = []"

lemma quiet_init [simp]: "quiet (att_init t)"
  by (simp add: quiet_def att_init_def)

lemma request_eq:
  assumes "quiet s" and "tsend T payload (a_l2 s) = (sent, t)" and "trecv T t = (us, t')"
  shows "fst (request T payload op s) =
      (case sent of Inl e \<Rightarrow> Inl e
       | Inr _ \<Rightarrow> rbind (first_response op us) (decode_response op))"
    and "quiet (snd (request T payload op s))"
proof -
  let ?s = "s\<lparr>a_pending := Some FutPending, a_pending_opcode := Some op, a_l2 := t'\<rparr>"
  have "a_pending (deliver_all T us ?s) = Some
      (case List.map_filter (response_of op) us of [] \<Rightarrow> FutPending | r # _ \<Rightarrow> fut_of r)"
    by (rule deliver_all_pending) (use assms(1) in \<open>simp_all add: quiet_def\<close>)
  then have a: "await_result (deliver_all T us ?s) = first_response op us"
    by (auto simp: await_result_def first_response_def fut_of_value split: list.split)
  have t: "a_tasks (deliver_all T us ?s) = []"
    using deliver_all_effects [of ?s] assms(1) by (simp add: quiet_def)
  show "fst (request T payload op s) =
      (case sent of Inl e \<Rightarrow> Inl e
       | Inr _ \<Rightarrow> rbind (first_response op us) (decode_response op))"
    using assms(2,3) a
    by (simp add: request_def begin_request_def Let_def split: sum.split)
  show "quiet (snd (request T payload op s))"
    using assms t
    by (simp add: request_def begin_request_def end_request_def quiet_def Let_def split: sum.split)
qed


text \<open>While no request is in flight the loop delivers what arrives as well.\<close>

definition att_idle :: "'t transport \<Rightarrow> ('t, 'h) att \<Rightarrow> ('t, 'h) att" where
  "att_idle T s = (let (us, t) = trecv T (a_l2 s) in deliver_all T us (s\<lparr>a_l2 := t\<rparr>))"


section \<open>The link a client runs on\<close>

text \<open>
  What the client relies on: the state of the transport stays well formed, and the close callback
  is called at most once, and not after \<open>close\<close>.  \<open>dead\<close> says that it will not be called any more.
\<close>

definition n_closes :: "upcall list \<Rightarrow> nat" where
  "n_closes us = length (concat (map closes_of us))"

lemma n_closes_simps [simp]:
  "n_closes [] = 0"
  "n_closes (u # us) = length (closes_of u) + n_closes us"
  "n_closes (us @ vs) = n_closes us + n_closes vs"
  by (simp_all add: n_closes_def)

lemma of_bool_mono_nat: "(a \<longrightarrow> b) \<Longrightarrow> of_bool a \<le> (of_bool b :: nat)"
  by simp

lemma le_of_bool_1: "n \<le> of_bool b \<Longrightarrow> n \<le> (1 :: nat)"
  by (cases b) auto

lemma le_of_bool_trans: "n \<le> of_bool a \<Longrightarrow> (a \<longrightarrow> b) \<Longrightarrow> n \<le> (of_bool b :: nat)"
  by (cases a; cases b) auto

locale link =
  fixes T :: "'t transport" and ok :: "'t \<Rightarrow> bool" and dead :: "'t \<Rightarrow> bool"
  assumes send_link: "ok t \<Longrightarrow> ok (snd (tsend T p t)) \<and> (dead t \<longrightarrow> dead (snd (tsend T p t)))"
    and recv_link: "ok t \<Longrightarrow> ok (snd (trecv T t))"
    and recv_closes: "ok t \<Longrightarrow> n_closes (fst (trecv T t)) + of_bool (dead t) \<le> of_bool (dead (snd (trecv T t)))"
    and close_link: "ok t \<Longrightarrow> ok (tclose T t) \<and> dead (tclose T t)"
begin

text \<open>The client's invariant: idle, on a well-formed link, and its owner was told of the end of
  the connection at most once, and only when the link is dead.\<close>

definition linked :: "('t, 'h) att \<Rightarrow> bool" where
  "linked s \<longleftrightarrow> quiet s \<and> ok (a_l2 s) \<and> length (a_disconnects s) \<le> of_bool (dead (a_l2 s))"

lemma replies_link: "ok t \<Longrightarrow> ok (send_replies T ks t) \<and> (dead t \<longrightarrow> dead (send_replies T ks t))"
proof (induction ks arbitrary: t)
  case (Cons k ks)
  from send_link [OF Cons.prems, of "task_pdu k"] Cons.IH show ?case
    by (auto simp: send_replies_def)
qed simp

lemma recv_dead: "ok t \<Longrightarrow> dead t \<Longrightarrow> dead (snd (trecv T t)) \<and> n_closes (fst (trecv T t)) = 0"
  using recv_closes [of t] by (cases "dead (snd (trecv T t))") auto

lemma batch_link:
  assumes "ok t" "a_tasks s = []"
  defines "s' \<equiv> deliver_all T (fst (trecv T t)) (s\<lparr>a_l2 := snd (trecv T t)\<rparr>)"
  shows "ok (a_l2 s')" "dead t \<longrightarrow> dead (a_l2 s') \<and> a_disconnects s' = a_disconnects s"
    "length (a_disconnects s') + of_bool (dead t) \<le> length (a_disconnects s) + of_bool (dead (a_l2 s'))"
    "a_tasks s' = []"
proof -
  let ?us = "fst (trecv T t)" and ?t = "snd (trecv T t)"
  have e: "a_l2 s' = send_replies T (concat (map replies_of ?us)) ?t"
    "a_disconnects s' = a_disconnects s @ concat (map closes_of ?us)" "a_tasks s' = []"
    using deliver_all_effects [of "s\<lparr>a_l2 := ?t\<rparr>" T ?us] assms(2) by (simp_all add: s'_def)
  note r = replies_link [OF recv_link [OF assms(1)]]
  show "ok (a_l2 s')" "a_tasks s' = []" using e r by auto
  show "dead t \<longrightarrow> dead (a_l2 s') \<and> a_disconnects s' = a_disconnects s"
    using e r recv_dead [OF assms(1)] by (auto simp: n_closes_def)
  have "of_bool (dead ?t) \<le> (of_bool (dead (a_l2 s')) :: nat)"
    by (rule of_bool_mono_nat) (use e r in auto)
  with recv_closes [OF assms(1)]
  show "length (a_disconnects s') + of_bool (dead t) \<le> length (a_disconnects s) + of_bool (dead (a_l2 s'))"
    unfolding e(2) n_closes_def length_append by linarith
qed

lemma request_linked:
  fixes p :: bytes and op :: int
  assumes "linked s"
  defines "s' \<equiv> snd (request T p op s)"
  shows "linked s'" "dead (a_l2 s) \<Longrightarrow> dead (a_l2 s') \<and> a_disconnects s' = a_disconnects s"
proof -
  let ?s = "begin_request op s" and ?r = "tsend T p (a_l2 s)"
  have s: "s' = end_request (case fst ?r of Inl e \<Rightarrow> ?s\<lparr>a_l2 := snd ?r\<rparr>
     | Inr _ \<Rightarrow> deliver_all T (fst (trecv T (snd ?r))) (?s\<lparr>a_l2 := snd (trecv T (snd ?r))\<rparr>))"
    by (simp add: s'_def request_def begin_request_def split_beta Let_def split: sum.split)
  have q: "quiet s" "ok (a_l2 s)" "length (a_disconnects s) \<le> of_bool (dead (a_l2 s))"
    using assms(1) by (auto simp: linked_def)
  have l: "ok (snd ?r)" "dead (a_l2 s) \<longrightarrow> dead (snd ?r)" using send_link [OF q(2)] by auto
  have t: "a_tasks ?s = []" using q(1) by (simp add: begin_request_def quiet_def)
  note b = batch_link [OF l(1) t]
  have d: "a_disconnects ?s = a_disconnects s" by (simp add: begin_request_def)
  have "length (a_disconnects s) \<le> of_bool (dead (snd ?r))" by (rule le_of_bool_trans [OF q(3) l(2)])
  with s q l t b d show "linked s'"
    by (auto simp: linked_def quiet_def end_request_def split: sum.split)
  show "dead (a_l2 s) \<Longrightarrow> dead (a_l2 s') \<and> a_disconnects s' = a_disconnects s"
    using s l b d by (auto simp: end_request_def split: sum.split)
qed

lemma idle_linked:
  assumes "linked s"
  shows "linked (att_idle T s)"
    "dead (a_l2 s) \<Longrightarrow> dead (a_l2 (att_idle T s)) \<and> a_disconnects (att_idle T s) = a_disconnects s"
proof -
  have q: "quiet s" "ok (a_l2 s)" "length (a_disconnects s) \<le> of_bool (dead (a_l2 s))"
    using assms by (auto simp: linked_def)
  have t: "a_tasks s = []" using q(1) by (simp add: quiet_def)
  note b = batch_link [OF q(2) t]
  let ?us = "fst (trecv T (a_l2 s))"
  have e: "att_idle T s = deliver_all T ?us (s\<lparr>a_l2 := snd (trecv T (a_l2 s))\<rparr>)"
    by (simp add: att_idle_def split_beta)
  have p: "a_pending (att_idle T s) = None" "a_pending_opcode (att_idle T s) = None"
    using q(1) t deliver_all_idle [of "s\<lparr>a_l2 := snd (trecv T (a_l2 s))\<rparr>" T ?us]
      deliver_all_effects [of "s\<lparr>a_l2 := snd (trecv T (a_l2 s))\<rparr>" T ?us]
    by (simp_all add: e quiet_def)
  show "linked (att_idle T s)" using b q p e by (auto simp: linked_def quiet_def)
  show "dead (a_l2 s) \<Longrightarrow> dead (a_l2 (att_idle T s)) \<and> a_disconnects (att_idle T s) = a_disconnects s"
    using b e by auto
qed

lemma close_linked: "linked s \<Longrightarrow> linked (att_close T s) \<and> dead (a_l2 (att_close T s))
    \<and> a_disconnects (att_close T s) = a_disconnects s"
  using close_link [of "a_l2 s"] le_of_bool_1 [of "length (a_disconnects s)"]
  by (auto simp: linked_def att_close_def quiet_def)

end


lemma l2_pump_closes:
  assumes "l2_inv s"
  shows "n_closes (snd (l2_pump rs s)) + of_bool (l2_closed s) \<le> of_bool (l2_closed (fst (l2_pump rs s)))"
proof (cases "l2_closed s")
  case True
  with assms show ?thesis by (simp add: l2_inv_def l2_pump_stopped)
next
  case False
  have d: "n_closes us = 0" if "list_all (\<lambda>u. \<exists>d. u = OnData d \<and> d \<noteq> []) us" for us
    using that by (induction us) auto
  obtain s' us where p: "l2_pump rs s = (s', us)" by (cases "l2_pump rs s")
  from l2_pump_upcalls [OF assms p] d False show ?thesis by (auto simp: p)
qed

text \<open>The L2CAP socket is such a link, whatever the peer and the kernel do.\<close>

interpretation l2_link: link "l2_transport P" "\<lambda>t. l2_inv (fst t)" "\<lambda>t. l2_closed (fst t)" for P
proof
  fix t :: "l2 \<times> 'a" and p
  assume ok: "l2_inv (fst t)"
  show "l2_inv (fst (snd (tsend (l2_transport P) p t)))
    \<and> (l2_closed (fst t) \<longrightarrow> l2_closed (fst (snd (tsend (l2_transport P) p t))))"
    using ok by (simp add: l2_transport_def split_beta Let_def)
  show "l2_inv (fst (snd (trecv (l2_transport P) t)))"
    using l2_inv_pump [OF ok] by (simp add: l2_transport_def split_beta Let_def)
  show "n_closes (fst (trecv (l2_transport P) t)) + of_bool (l2_closed (fst t))
    \<le> of_bool (l2_closed (fst (snd (trecv (l2_transport P) t))))"
    using l2_pump_closes [OF ok] by (simp add: l2_transport_def split_beta Let_def)
  show "l2_inv (fst (tclose (l2_transport P) t)) \<and> l2_closed (fst (tclose (l2_transport P) t))"
    using l2_inv_ops(3) [OF ok] by (simp add: l2_transport_def split_beta)
qed


section \<open>Properties\<close>

text \<open>A client used by its owner: requests, pauses and an explicit close, in any order.\<close>

datatype att_use = UseRequest bytes int | UseIdle | UseClose

fun use_att :: "'t transport \<Rightarrow> att_use \<Rightarrow> ('t, 'h) att \<Rightarrow> ('t, 'h) att" where
  "use_att T (UseRequest p op) s = snd (request T p op s)"
| "use_att T UseIdle s = att_idle T s"
| "use_att T UseClose s = att_close T s"

definition use_all :: "'t transport \<Rightarrow> att_use list \<Rightarrow> ('t, 'h) att \<Rightarrow> ('t, 'h) att" where
  "use_all T us s = fold (use_att T) us s"

lemma use_att_linked:
  "l2_link.linked s \<Longrightarrow> l2_link.linked (use_att (l2_transport P) u s)"
  by (cases u) (auto intro: l2_link.request_linked l2_link.idle_linked
      simp: l2_link.close_linked [THEN conjunct1])

lemma use_all_linked:
  "l2_link.linked s \<Longrightarrow> l2_link.linked (use_all (l2_transport P) us s)"
  by (induction us arbitrary: s) (auto simp: use_all_def use_att_linked)

lemma use_att_dead:
  "l2_link.linked s \<Longrightarrow> l2_closed (fst (a_l2 s)) \<Longrightarrow>
   l2_closed (fst (a_l2 (use_att (l2_transport P) u s)))
   \<and> a_disconnects (use_att (l2_transport P) u s) = a_disconnects s"
  by (cases u) (simp_all add: l2_link.request_linked l2_link.idle_linked l2_link.close_linked)

lemma use_all_dead:
  "l2_link.linked s \<Longrightarrow> l2_closed (fst (a_l2 s)) \<Longrightarrow>
   a_disconnects (use_all (l2_transport P) us s) = a_disconnects s"
proof (induction us arbitrary: s)
  case (Cons u us)
  from Cons.IH [OF use_att_linked [OF Cons.prems(1)]] use_att_dead [OF Cons.prems]
  show ?case by (simp add: use_all_def)
qed (simp add: use_all_def)

lemma att_init_linked: "l2_inv (fst t) \<Longrightarrow> l2_link.linked (att_init t)"
  by (simp add: l2_link.linked_def att_init_def quiet_def)

text \<open>C10.  Over an L2CAP socket with a reader, whatever the peer sends and whatever requests,
  pauses and closes its owner performs, the client reports the end of the connection at most once,
  and it never reports it after the owner has closed it: the log after \<open>us\<close>, a close and any
  further use \<open>vs\<close> is the log after \<open>us\<close>.\<close>

theorem disconnect_reported_once:
  fixes p :: 'p and P :: "'p peer"
  shows "let s = (att_init (l2_start_reader True l2_init, p) :: (l2 \<times> 'p, 'h) att);
      s' = use_all (l2_transport P) us s
    in length (a_disconnects s') \<le> 1
       \<and> a_disconnects (use_all (l2_transport P) (us @ UseClose # vs) s) = a_disconnects s'"
proof -
  let ?s = "use_all (l2_transport P) us
    (att_init (l2_start_reader True l2_init, p) :: (l2 \<times> 'p, 'h) att)"
  have l: "l2_link.linked ?s"
    by (intro use_all_linked att_init_linked) (simp add: l2_inv_ops l2_init_def)
  note c = l2_link.close_linked [OF l, of P]
  have "a_disconnects (use_all (l2_transport P) vs (att_close (l2_transport P) ?s)) = a_disconnects ?s"
    using use_all_dead [OF c [THEN conjunct1] c [THEN conjunct2, THEN conjunct1], of P vs] c by simp
  moreover have "length (a_disconnects ?s) \<le> 1"
    using l le_of_bool_1 unfolding l2_link.linked_def by blast
  ultimately show ?thesis by (simp add: use_all_def Let_def)
qed

text \<open>A transaction in full.\<close>

lemma request_full:
  assumes "quiet s" and "tsend T payload (a_l2 s) = (Inr (), t)" and "trecv T t = (us, t')"
  shows "request T payload op s =
    (rbind (first_response op us) (decode_response op),
     s\<lparr>a_notified := a_notified s @ notify_entries (a_notify_handlers s) us,
       a_l2 := send_replies T (concat (map replies_of us)) t',
       a_mtu := last_mtu (a_mtu s) us,
       a_peer_initiated_mtu := a_peer_initiated_mtu s \<or> list_ex (\<lambda>u. mtu_of u \<noteq> None) us,
       a_disconnects := a_disconnects s @ concat (map closes_of us)\<rparr>)"
proof (rule prod_eqI)
  let ?s = "s\<lparr>a_pending := Some FutPending, a_pending_opcode := Some op, a_l2 := t'\<rparr>"
  have e: "snd (request T payload op s) = end_request (deliver_all T us ?s)"
    using assms(2,3) by (simp add: request_def begin_request_def Let_def)
  show "snd (request T payload op s) = snd (rbind (first_response op us) (decode_response op),
     s\<lparr>a_notified := a_notified s @ notify_entries (a_notify_handlers s) us,
       a_l2 := send_replies T (concat (map replies_of us)) t',
       a_mtu := last_mtu (a_mtu s) us,
       a_peer_initiated_mtu := a_peer_initiated_mtu s \<or> list_ex (\<lambda>u. mtu_of u \<noteq> None) us,
       a_disconnects := a_disconnects s @ concat (map closes_of us)\<rparr>)"
    unfolding e using deliver_all_effects [of ?s T us] assms(1)
    by (intro att.equality) (auto simp: end_request_def quiet_def)
  show "fst (request T payload op s) = fst (rbind (first_response op us) (decode_response op),
     s\<lparr>a_notified := a_notified s @ notify_entries (a_notify_handlers s) us,
       a_l2 := send_replies T (concat (map replies_of us)) t',
       a_mtu := last_mtu (a_mtu s) us,
       a_peer_initiated_mtu := a_peer_initiated_mtu s \<or> list_ex (\<lambda>u. mtu_of u \<noteq> None) us,
       a_disconnects := a_disconnects s @ concat (map closes_of us)\<rparr>)"
    using request_eq(1) [OF assms] by simp
qed

text \<open>C1.  A transaction, with every effect it has: it returns what the first answering upcall of
  the batch decides (the response opcode waited for, an Error Response, the close of the link, or
  the peer's own MTU request when the response waited for is an MTU response), \<open>TimeoutError\<close> when
  there is none, and it leaves nothing pending; each notification value goes to its handler in
  order, each indication is confirmed and each MTU request answered in order, the MTU is the one of
  the last MTU request, and each close is reported.\<close>

theorem request_effects:
  assumes "quiet s" and "tsend T payload (a_l2 s) = (Inr (), t)" and "trecv T t = (us, t')"
  shows "request T payload op s =
    (rbind (first_response op us) (decode_response op),
     s\<lparr>a_notified := a_notified s @ notify_entries (a_notify_handlers s) us,
       a_l2 := send_replies T (concat (map replies_of us)) t',
       a_mtu := last_mtu (a_mtu s) us,
       a_peer_initiated_mtu := a_peer_initiated_mtu s \<or> list_ex (\<lambda>u. mtu_of u \<noteq> None) us,
       a_disconnects := a_disconnects s @ concat (map closes_of us)\<rparr>)"
  by (rule request_full [OF assms])

text \<open>A transport whose batch is its state, for evaluations.\<close>

definition batch_transport :: "upcall list transport" where
  "batch_transport = \<lparr>tsend = (\<lambda>_ t. (Inr (), t)), trecv = (\<lambda>t. (t, [])), tclose = (\<lambda>t. [])\<rparr>"

theorem request_effects_witness:
  "request batch_transport [0x0A, 3, 0] 0x0B
     (att_init [OnData [0x1B, 7, 0, 1], OnData [0x02, 0x64, 0], OnData [0x0B, 42], OnClose None])
   = (Inr [0x0B, 42 :: byte],
      (att_init [])\<lparr>a_mtu := 100, a_peer_initiated_mtu := True, a_disconnects := [None]\<rparr>
        :: (upcall list, nat) att)"
proof -
  let ?us = "[OnData [0x1B, 7, 0, 1], OnData [0x02, 0x64, 0], OnData [0x0B, 42 :: byte], OnClose None]"
  have "tsend batch_transport [0x0A, 3, 0] (a_l2 (att_init ?us)) = (Inr (), ?us)"
    "trecv batch_transport ?us = (?us, [])"
    by (simp_all add: batch_transport_def att_init_def)
  from request_effects [OF quiet_init this, of "0x0B"] show ?thesis
    by (simp add: att_init_def first_response_def map_filter_simps decode_response_def att_opcodes
        opcode_of_def att_mtus notify_entries_def last_mtu_def slice_def send_replies_def
        batch_transport_def)
qed

definition stray :: "int \<Rightarrow> bytes \<Rightarrow> bool" where
  "stray op d \<longleftrightarrow> d = [] \<or> opcode_of d = HANDLE_VALUE_NTF \<or> opcode_of d = HANDLE_VALUE_IND
     \<or> (opcode_of d = EXCHANGE_MTU_REQ \<and> op \<noteq> EXCHANGE_MTU_RSP)
     \<or> opcode_of d \<notin> {op, ERROR_RSP, EXCHANGE_MTU_REQ}"

lemma stray_response: "stray op d \<Longrightarrow> response_of op (OnData d) = None"
  by (auto simp: stray_def)

lemma first_response_strays:
  "list_all (stray op) ds \<Longrightarrow> first_response op (map OnData ds @ us) = first_response op us"
  by (induction ds) (simp_all add: first_response_def map_filter_simps stray_response
      del: response_of.simps)

text \<open>Strays do not disturb a transaction: whatever the peer sends before the response (values,
  late or duplicate responses of other kinds, its own MTU request during a read), the request
  returns the first PDU with the opcode it waits for, and what comes later in the batch does not
  change that.\<close>

theorem request_ignores_strays:
  assumes "quiet s" and "tsend T payload (a_l2 s) = (Inr (), t)"
    and "trecv T t = (map OnData ds @ OnData rsp # rest, t')"
    and "list_all (stray op) ds"
    and "opcode_of rsp = op"
    and "op \<notin> {- 1, ERROR_RSP, HANDLE_VALUE_NTF, HANDLE_VALUE_IND, EXCHANGE_MTU_REQ}"
  shows "fst (request T payload op s) = Inr rsp"
proof -
  have "first_response op (map OnData ds @ OnData rsp # rest) = Inr rsp"
    unfolding first_response_strays [OF assms(4)] using assms(5,6)
    by (auto simp: first_response_def map_filter_simps)
  moreover have "decode_response op rsp = Inr rsp"
    using assms(5,6) by (cases rsp) (auto simp: decode_response_def)
  ultimately show ?thesis by (simp add: request_eq(1) [OF assms(1-3)])
qed

theorem request_ignores_strays_witness:
  "fst (request batch_transport [0x10, 1, 0, 0xFF, 0xFF, 0, 0x28] 0x11
     (att_init [OnData [0x03, 0xF7, 0], OnData [0x02, 0x64, 0], OnData [0x11, 6, 1, 0, 8, 0, 0xE0, 0xFB],
                OnData [0x11, 6]] :: (upcall list, nat) att))
   = Inr [0x11, 6, 1, 0, 8, 0, 0xE0, 0xFB :: byte]"
proof -
  let ?ds = "[[0x03, 0xF7, 0], [0x02, 0x64, 0 :: byte]]" and ?rsp = "[0x11, 6, 1, 0, 8, 0, 0xE0, 0xFB :: byte]"
  have "tsend batch_transport [0x10, 1, 0, 0xFF, 0xFF, 0, 0x28]
      (a_l2 (att_init (map OnData ?ds @ OnData ?rsp # [OnData [0x11, 6]])))
      = (Inr (), map OnData ?ds @ OnData ?rsp # [OnData [0x11, 6]])"
    "trecv batch_transport (map OnData ?ds @ OnData ?rsp # [OnData [0x11, 6]])
      = (map OnData ?ds @ OnData ?rsp # [OnData [0x11, 6]], [])"
    by (simp_all add: batch_transport_def att_init_def)
  from request_ignores_strays [OF quiet_init this, of "0x11"] show ?thesis
    by (simp add: stray_def att_opcodes opcode_of_def)
qed

end
