(* ===== verification/ATT_Ops.thy ===== *)
theory ATT_Ops
  imports ATT_Core
begin

text \<open>
  The operations of \<open>bluek/_att.py\<close> built on \<open>_request\<close>: the MTU exchange, reads with their Read
  Blob continuation, writes and the table of notification handlers, and what a read returns over
  a link whose peer holds a value.

  \<open>read\<close> is total: each round of its loop appends at least one byte, and the offset of the next
  Read Blob no longer fits two bytes once the value has 65536 of them.
\<close>

section \<open>Operations\<close>

definition exchange_mtu :: "'t transport \<Rightarrow> int \<Rightarrow> ('t, 'h) att \<Rightarrow> int result \<times> ('t, 'h) att" where
  "exchange_mtu T mtu s0 =
     (let s = s0\<lparr>a_peer_initiated_mtu := False\<rparr>
      in case to_le 2 mtu of
           Inl e \<Rightarrow> (Inl e, s)
         | Inr mtu_bytes \<Rightarrow>
             (case request T (op_byte EXCHANGE_MTU_REQ # mtu_bytes) EXCHANGE_MTU_RSP s of
                (Inl (ATTError _ _ _), s') \<Rightarrow> (Inr (a_mtu s'), s')
              | (Inl TimeoutError, s') \<Rightarrow>
                  (if a_peer_initiated_mtu s' then Inr (a_mtu s') else Inl TimeoutError, s')
              | (Inl e, s') \<Rightarrow> (Inl e, s')
              | (Inr data, s') \<Rightarrow>
                  (let server_mtu = from_le (slice 1 3 data);
                       m = max DEFAULT_MTU (min mtu server_mtu)
                   in (Inr m, s'\<lparr>a_mtu := m\<rparr>))))"

definition read_blob ::
  "'t transport \<Rightarrow> int \<Rightarrow> nat \<Rightarrow> ('t, 'h) att \<Rightarrow> bytes result \<times> ('t, 'h) att" where
  "read_blob T handle offset s =
     (case rbind (to_le 2 handle) (\<lambda>h. rbind (to_le 2 (int offset)) (\<lambda>off.
             Inr (op_byte READ_BLOB_REQ # h @ off))) of
        Inl e \<Rightarrow> (Inl e, s)
      | Inr payload \<Rightarrow>
          (case request T payload READ_BLOB_RSP s of
             (Inl (ATTError op h error_code), s') \<Rightarrow>
               (if error_code \<in> {ATT_ERR_INVALID_OFFSET, ATT_ERR_ATTRIBUTE_NOT_LONG}
                then (Inr [], s') else (Inl (ATTError op h error_code), s'))
           | (Inl e, s') \<Rightarrow> (Inl e, s')
           | (Inr data, s') \<Rightarrow> (Inr (drop 1 data), s')))"

lemma read_blob_Inr: "read_blob T h n s = (Inr blob, s') \<Longrightarrow> n < 65536"
  by (auto simp: read_blob_def to_le_def split: if_splits)

lemma read_blob_measure:
  "(Inr blob, s') = read_blob T handle (length v) s \<Longrightarrow> blob \<noteq> [] \<Longrightarrow>
   65536 - (length v + length blob) < 65536 - length v"
  using read_blob_Inr [of T handle "length v" s blob s'] by (cases blob) auto

function read_loop ::
  "'t transport \<Rightarrow> int \<Rightarrow> int \<Rightarrow> bytes \<Rightarrow> ('t, 'h) att \<Rightarrow> bytes result \<times> ('t, 'h) att" where
  "read_loop T handle mtu val s =
     (if mtu - 1 \<le> int (length val) then
        (case read_blob T handle (length val) s of
           (Inl e, s') \<Rightarrow> (Inl e, s')
         | (Inr blob, s') \<Rightarrow>
             if blob = [] then (Inr val, s') else read_loop T handle mtu (val @ blob) s')
      else (Inr val, s))"
  by pat_completeness auto
termination
  by (relation "measure (\<lambda>(T, h, m, v, s). 65536 - length v)") (auto dest: read_blob_measure)

declare read_loop.simps [simp del]

definition read_value :: "'t transport \<Rightarrow> int \<Rightarrow> ('t, 'h) att \<Rightarrow> bytes result \<times> ('t, 'h) att" where
  "read_value T handle s =
     (case to_le 2 handle of
        Inl e \<Rightarrow> (Inl e, s)
      | Inr h \<Rightarrow>
          (case request T (op_byte READ_REQ # h) READ_RSP s of
             (Inl e, s') \<Rightarrow> (Inl e, s')
           | (Inr data, s') \<Rightarrow> read_loop T handle (a_mtu s') (drop 1 data) s'))"

definition write_value ::
  "'t transport \<Rightarrow> int \<Rightarrow> bytes \<Rightarrow> ('t, 'h) att \<Rightarrow> unit result \<times> ('t, 'h) att" where
  "write_value T handle val s =
     (case to_le 2 handle of
        Inl e \<Rightarrow> (Inl e, s)
      | Inr h \<Rightarrow>
          (let (r, s') = request T (op_byte WRITE_REQ # h @ val) WRITE_RSP s
           in (rbind r (\<lambda>_. Inr ()), s')))"

definition write_command ::
  "'t transport \<Rightarrow> int \<Rightarrow> bytes \<Rightarrow> ('t, 'h) att \<Rightarrow> unit result \<times> ('t, 'h) att" where
  "write_command T handle val s =
     (case to_le 2 handle of
        Inl e \<Rightarrow> (Inl e, s)
      | Inr h \<Rightarrow>
          (let (r, t) = tsend T (op_byte WRITE_CMD # h @ val) (a_l2 s)
           in (r, s\<lparr>a_l2 := t\<rparr>)))"

definition set_notify_handler :: "int \<Rightarrow> 'h \<Rightarrow> ('t, 'h) att \<Rightarrow> ('t, 'h) att" where
  "set_notify_handler value_handle callback s =
     s\<lparr>a_notify_handlers := (a_notify_handlers s)(value_handle \<mapsto> callback)\<rparr>"

definition remove_notify_handler :: "int \<Rightarrow> ('t, 'h) att \<Rightarrow> ('t, 'h) att" where
  "remove_notify_handler value_handle s =
     s\<lparr>a_notify_handlers := (a_notify_handlers s)(value_handle := None)\<rparr>"


section \<open>Invariants\<close>

text \<open>Every operation leaves the client idle.\<close>

lemma request_quiet: "quiet s \<Longrightarrow> quiet (snd (request T p op s))"
  by (cases "tsend T p (a_l2 s)"; cases "trecv T (snd (tsend T p (a_l2 s)))")
    (simp add: request_eq(2))

lemma request_quiet': "quiet s \<Longrightarrow> request T p op s = (r, s') \<Longrightarrow> quiet s'"
  using request_quiet by (metis snd_conv)

lemma read_blob_quiet: "quiet s \<Longrightarrow> read_blob T h n s = (r, s') \<Longrightarrow> quiet s'"
  by (auto simp: read_blob_def dest: request_quiet' split: sum.splits prod.splits exn.splits if_splits)

lemma read_loop_quiet: "quiet s \<Longrightarrow> quiet (snd (read_loop T h m v s))"
proof (induction T h m v s rule: read_loop.induct)
  case (1 T h m v s)
  show ?case
    using 1 read_blob_quiet [OF 1(2)]
    by (subst read_loop.simps) (auto split: prod.split sum.split)
qed

lemma read_value_quiet: "quiet s \<Longrightarrow> quiet (snd (read_value T h s))"
  by (auto simp: read_value_def read_loop_quiet dest: request_quiet' split: sum.splits prod.splits)

lemma write_value_quiet: "quiet s \<Longrightarrow> quiet (snd (write_value T h v s))"
  by (auto simp: write_value_def dest: request_quiet' split: sum.splits prod.splits)

lemma write_command_quiet: "quiet s \<Longrightarrow> quiet (snd (write_command T h v s))"
  by (auto simp: write_command_def quiet_def split: sum.splits prod.splits)

lemma exchange_mtu_state:
  fixes T :: "'t transport"
  obtains "snd (exchange_mtu T m s) = s\<lparr>a_peer_initiated_mtu := False\<rparr>"
  | p where "snd (exchange_mtu T m s) =
      snd (request T p EXCHANGE_MTU_RSP (s\<lparr>a_peer_initiated_mtu := False\<rparr>))"
  | p k where "snd (exchange_mtu T m s) =
      (snd (request T p EXCHANGE_MTU_RSP (s\<lparr>a_peer_initiated_mtu := False\<rparr>)))
        \<lparr>a_mtu := max DEFAULT_MTU (min m k)\<rparr>"
proof (cases "to_le 2 m")
  case (Inl e)
  then show thesis by (intro that(1)) (simp add: exchange_mtu_def)
next
  case (Inr b)
  let ?r = "request T (op_byte EXCHANGE_MTU_REQ # b) EXCHANGE_MTU_RSP (s\<lparr>a_peer_initiated_mtu := False\<rparr>)"
  show thesis
  proof (cases "fst ?r")
    case (Inl e)
    with Inr show thesis
      by (intro that(2) [of "op_byte EXCHANGE_MTU_REQ # b"]) (auto simp: exchange_mtu_def Let_def split: prod.split exn.split)
  next
    case (Inr d)
    with \<open>to_le 2 m = Inr b\<close> show thesis
      by (intro that(3) [of "from_le (slice 1 3 d)" "op_byte EXCHANGE_MTU_REQ # b"])
        (auto simp: exchange_mtu_def Let_def split: prod.split)
  qed
qed

lemma exchange_mtu_quiet:
  assumes "quiet s" shows "quiet (snd (exchange_mtu T m s))"
proof -
  have "quiet (s\<lparr>a_peer_initiated_mtu := False\<rparr>)" using assms by (simp add: quiet_def)
  note q = this request_quiet [OF this]
  from exchange_mtu_state [of T m s] show ?thesis
    by cases (use q in \<open>simp_all add: quiet_def\<close>)
qed

lemma handlers_quiet:
  "quiet s \<Longrightarrow> quiet (set_notify_handler h cb s)" "quiet s \<Longrightarrow> quiet (remove_notify_handler h s)"
  "quiet s \<Longrightarrow> quiet (att_close T s)"
  by (simp_all add: quiet_def set_notify_handler_def remove_notify_handler_def att_close_def)

lemmas ops_quiet = request_quiet read_value_quiet write_value_quiet write_command_quiet
  exchange_mtu_quiet handlers_quiet

text \<open>The MTU stays within its bounds.\<close>

definition mtu_ok :: "int \<Rightarrow> bool" where
  "mtu_ok m \<longleftrightarrow> DEFAULT_MTU \<le> m \<and> m \<le> PREFERRED_MTU"

lemma last_mtu_ok: "mtu_ok m \<Longrightarrow> mtu_ok (last_mtu m us)"
proof (induction us arbitrary: m)
  case (Cons u us)
  have "mtu_ok (case mtu_of u of None \<Rightarrow> m | Some m' \<Rightarrow> m')"
    using Cons.prems by (cases u) (auto simp: mtu_ok_def att_mtus)
  from Cons.IH [OF this] show ?case by (simp add: last_mtu_def)
qed (simp add: last_mtu_def)

lemma request_mtu:
  assumes "quiet s" shows "mtu_ok (a_mtu s) \<Longrightarrow> mtu_ok (a_mtu (snd (request T p op s)))"
proof (cases "tsend T p (a_l2 s)")
  case (Pair r t)
  assume m: "mtu_ok (a_mtu s)"
  obtain us t' where t': "trecv T t = (us, t')" by (cases "trecv T t")
  show ?thesis
  proof (cases r)
    case (Inl e)
    with Pair m show ?thesis by (simp add: request_def begin_request_def end_request_def)
  next
    case (Inr u)
    with Pair have "tsend T p (a_l2 s) = (Inr (), t)" by simp
    from request_full [OF assms this t', of op] last_mtu_ok [OF m] show ?thesis by simp
  qed
qed

text \<open>Whatever the peer sends, including MTU requests of its own at any time, the negotiated MTU
  stays between 23 and the 247 the client advertises.\<close>

datatype 'h att_call =
    CallExchange | CallRead int | CallWrite int bytes | CallWriteCommand int bytes
  | CallHandler int 'h | CallRemove int | CallClose

fun call_att :: "'t transport \<Rightarrow> 'h att_call \<Rightarrow> ('t, 'h) att \<Rightarrow> ('t, 'h) att" where
  "call_att T CallExchange s = snd (exchange_mtu T PREFERRED_MTU s)"
| "call_att T (CallRead h) s = snd (read_value T h s)"
| "call_att T (CallWrite h v) s = snd (write_value T h v s)"
| "call_att T (CallWriteCommand h v) s = snd (write_command T h v s)"
| "call_att T (CallHandler h cb) s = set_notify_handler h cb s"
| "call_att T (CallRemove h) s = remove_notify_handler h s"
| "call_att T CallClose s = att_close T s"

definition call_all :: "'t transport \<Rightarrow> 'h att_call list \<Rightarrow> ('t, 'h) att \<Rightarrow> ('t, 'h) att" where
  "call_all T cs s = fold (call_att T) cs s"

lemma exchange_mtu_mtu_ok:
  assumes "quiet s" "mtu_ok (a_mtu s)" "mtu_ok m"
  shows "mtu_ok (a_mtu (snd (exchange_mtu T m s)))"
proof -
  have "quiet (s\<lparr>a_peer_initiated_mtu := False\<rparr>)" using assms(1) by (simp add: quiet_def)
  note r = request_mtu [OF this]
  from exchange_mtu_state [of T m s] show ?thesis
    by cases (use r assms(2,3) in \<open>auto simp: mtu_ok_def\<close>)
qed

lemma read_blob_mtu:
  "quiet s \<Longrightarrow> mtu_ok (a_mtu s) \<Longrightarrow> read_blob T h n s = (r, s') \<Longrightarrow> mtu_ok (a_mtu s')"
proof -
  assume q: "quiet s" "mtu_ok (a_mtu s)" and r: "read_blob T h n s = (r, s')"
  have "s' = s \<or> (\<exists>p x. request T p READ_BLOB_RSP s = (x, s'))"
    using r by (auto simp: read_blob_def split: sum.splits prod.splits exn.splits if_splits)
  then show ?thesis using q request_mtu [OF q, of T] by (metis snd_conv)
qed

lemma read_loop_mtu: "quiet s \<Longrightarrow> mtu_ok (a_mtu s) \<Longrightarrow> mtu_ok (a_mtu (snd (read_loop T h m v s)))"
proof (induction T h m v s rule: read_loop.induct)
  case (1 T h m v s)
  show ?case
    using 1 read_blob_quiet [OF 1(2)] read_blob_mtu [OF 1(2,3)]
    by (subst read_loop.simps) (auto split: prod.split sum.split)
qed

lemma read_value_mtu:
  assumes "quiet s" "mtu_ok (a_mtu s)" shows "mtu_ok (a_mtu (snd (read_value T h s)))"
  using assms request_quiet [OF assms(1), of T] request_mtu [OF assms, of T]
  by (auto simp: read_value_def split: sum.split prod.split) (metis read_loop_mtu snd_conv)+

lemma call_att_ok:
  assumes "quiet s" "mtu_ok (a_mtu s)"
  shows "quiet (call_att T c s)" "mtu_ok (a_mtu (call_att T c s))"
proof -
  show "quiet (call_att T c s)" using assms by (cases c) (simp_all add: ops_quiet)
  have p: "mtu_ok PREFERRED_MTU" by (simp add: mtu_ok_def att_mtus)
  have "mtu_ok (a_mtu (snd (write_value T h v s)))" for h v
    using assms request_mtu [OF assms, of T]
    by (auto simp: write_value_def split: sum.split prod.split) (metis snd_conv)+
  moreover have "a_mtu (snd (write_command T h v s)) = a_mtu s" for h v
    by (auto simp: write_command_def split: sum.split prod.split)
  ultimately show "mtu_ok (a_mtu (call_att T c s))"
    using assms by (cases c) (simp_all add: exchange_mtu_mtu_ok [OF _ _ p] read_value_mtu
        set_notify_handler_def remove_notify_handler_def att_close_def)
qed




section \<open>Peers that answer\<close>

text \<open>
  \<open>answers T op p t us rsp t'\<close>: in state \<open>t\<close> the peer takes the request \<open>p\<close>, and \<open>us\<close> is what arrives
  before the client resumes: strays, the response \<open>rsp\<close> (the opcode \<open>op\<close> or an Error Response), and
  whatever else; \<open>t'\<close> is the state once the client has sent its confirmations.
\<close>

definition answers ::
  "'t transport \<Rightarrow> int \<Rightarrow> bytes \<Rightarrow> 't \<Rightarrow> upcall list \<Rightarrow> bytes \<Rightarrow> 't \<Rightarrow> bool" where
  "answers T op p t us rsp t' \<longleftrightarrow>
     fst (tsend T p t) = Inr ()
     \<and> fst (trecv T (snd (tsend T p t))) = us
     \<and> send_replies T (concat (map replies_of us)) (snd (trecv T (snd (tsend T p t)))) = t'
     \<and> opcode_of rsp \<in> {op, ERROR_RSP}
     \<and> (\<exists>ds rest. us = map OnData ds @ OnData rsp # rest \<and> list_all (stray op) ds)"

definition response_opcode :: "int \<Rightarrow> bool" where
  "response_opcode op \<longleftrightarrow>
     op \<notin> {- 1, ERROR_RSP, HANDLE_VALUE_NTF, HANDLE_VALUE_IND, EXCHANGE_MTU_REQ} \<and> op < 256 \<and> 0 \<le> op"

lemma response_opcodes [simp]:
  "response_opcode READ_RSP" "response_opcode READ_BLOB_RSP" "response_opcode WRITE_RSP"
  "response_opcode READ_BY_TYPE_RSP" "response_opcode READ_BY_GROUP_TYPE_RSP"
  "response_opcode FIND_INFO_RSP" "response_opcode EXCHANGE_MTU_RSP"
  by (simp_all add: response_opcode_def att_opcodes)

definition absorb :: "upcall list \<Rightarrow> 't \<Rightarrow> ('t, 'h) att \<Rightarrow> ('t, 'h) att" where
  "absorb us t s =
     s\<lparr>a_notified := a_notified s @ notify_entries (a_notify_handlers s) us, a_l2 := t,
       a_mtu := last_mtu (a_mtu s) us,
       a_peer_initiated_mtu := a_peer_initiated_mtu s \<or> list_ex (\<lambda>u. mtu_of u \<noteq> None) us,
       a_disconnects := a_disconnects s @ concat (map closes_of us)\<rparr>"

lemma absorb_simps [simp]:
  "a_l2 (absorb us t s) = t" "a_mtu (absorb us t s) = last_mtu (a_mtu s) us"
  "quiet (absorb us t s) = quiet s" "a_notify_handlers (absorb us t s) = a_notify_handlers s"
  by (simp_all add: absorb_def quiet_def)

lemma request_answered:
  assumes "quiet s" "answers T op p (a_l2 s) us rsp t'" "response_opcode op"
  shows "request T p op s = (decode_response op rsp, absorb us t' s)"
proof -
  let ?t = "snd (tsend T p (a_l2 s))"
  have t: "tsend T p (a_l2 s) = (Inr (), ?t)" "trecv T ?t = (us, snd (trecv T ?t))"
    "t' = send_replies T (concat (map replies_of us)) (snd (trecv T ?t))"
    using assms(2) by (auto simp: answers_def intro: prod_eqI)
  obtain ds rest where u: "us = map OnData ds @ OnData rsp # rest" "list_all (stray op) ds"
    using assms(2) by (auto simp: answers_def)
  have "ERROR_RSP \<notin> {- 1, HANDLE_VALUE_NTF, HANDLE_VALUE_IND, EXCHANGE_MTU_REQ}"
    by (simp add: att_opcodes)
  then have "first_response op us = Inr rsp"
    unfolding u(1) first_response_strays [OF u(2)] using assms(2,3)
    by (auto simp: first_response_def map_filter_simps answers_def response_opcode_def)
  then show ?thesis
    using request_full [OF assms(1) t(1,2), of op] t(3) by (simp add: absorb_def)
qed

lemma uint_op_byte [simp]: "response_opcode op \<Longrightarrow> uint (op_byte op) = op"
  by (simp add: response_opcode_def uint_word_of_int)

lemma decode_ok: "opcode_of rsp = op \<Longrightarrow> response_opcode op \<Longrightarrow> decode_response op rsp = Inr rsp"
  by (cases rsp) (auto simp: decode_response_def response_opcode_def)

lemma decode_tagged [simp]:
  "response_opcode op \<Longrightarrow> decode_response op (op_byte op # d) = Inr (op_byte op # d)"
  by (rule decode_ok) simp_all

lemma last_mtu_none: "list_all (\<lambda>u. mtu_of u = None) us \<Longrightarrow> last_mtu m us = m"
  by (induction us) (auto simp: last_mtu_def)


section \<open>Reading a value\<close>

text \<open>
  The contract of a peer that holds the value \<open>v\<close> at handle \<open>h\<close> and sizes its PDUs by the MTU \<open>m\<close>:
  it answers a Read with the first \<open>m - 1\<close> bytes and a Read Blob with the bytes from the offset on,
  or, at the end of the value, with one of the two errors that say so.  It may send an MTU request
  of its own at any time but before the client has taken its copy of the MTU.
\<close>

locale value_server =
  fixes T :: "'t transport" and holds :: "'t \<Rightarrow> bool" and h :: int and v :: bytes and m :: int
  assumes handle_range: "0 \<le> h" "h < 65536"
    and mtu_range: "2 \<le> m"
    and value_range: "length v < 65536"
    and read_answer: "holds t \<Longrightarrow> \<exists>us t'.
      answers T READ_RSP (op_byte READ_REQ # le_bytes 2 h) t us
        (op_byte READ_RSP # take (nat (m - 1)) v) t'
      \<and> list_all (\<lambda>u. mtu_of u = None) us \<and> holds t'"
    and blob_answer: "holds t \<Longrightarrow> m - 1 \<le> int n \<Longrightarrow> n \<le> length v \<Longrightarrow> \<exists>us rsp t'.
      answers T READ_BLOB_RSP (op_byte READ_BLOB_REQ # le_bytes 2 h @ le_bytes 2 (int n)) t us rsp t'
      \<and> (rsp = op_byte READ_BLOB_RSP # take (nat (m - 1)) (drop n v)
         \<or> n = length v \<and> (\<exists>o' h' e. e \<in> {ATT_ERR_INVALID_OFFSET, ATT_ERR_ATTRIBUTE_NOT_LONG}
             \<and> decode_response READ_BLOB_RSP rsp = Inl (ATTError o' h' e)))
      \<and> holds t'"
begin

lemma blob_step:
  assumes "quiet s" "holds (a_l2 s)" "m - 1 \<le> int n" "n \<le> length v"
  shows "\<exists>s'. read_blob T h n s = (Inr (take (nat (m - 1)) (drop n v)), s') \<and> quiet s' \<and> holds (a_l2 s')"
proof -
  obtain us rsp t' where a: "answers T READ_BLOB_RSP
      (op_byte READ_BLOB_REQ # le_bytes 2 h @ le_bytes 2 (int n)) (a_l2 s) us rsp t'" "holds t'"
    and r: "rsp = op_byte READ_BLOB_RSP # take (nat (m - 1)) (drop n v)
         \<or> n = length v \<and> (\<exists>o' h' e. e \<in> {ATT_ERR_INVALID_OFFSET, ATT_ERR_ATTRIBUTE_NOT_LONG}
             \<and> decode_response READ_BLOB_RSP rsp = Inl (ATTError o' h' e))"
    using blob_answer [OF assms(2-4)] by blast
  have p: "to_le 2 h = Inr (le_bytes 2 h)" "to_le 2 (int n) = Inr (le_bytes 2 (int n))"
    using handle_range assms(4) value_range by (simp_all add: to_le_def)
  note q = request_answered [OF assms(1) a(1)]
  with r p q show ?thesis
    by (elim disjE) (auto simp: read_blob_def assms(1) a(2))
qed

lemma read_loop_whole:
  assumes "quiet s" "holds (a_l2 s)" "n \<le> length v" "n = length v \<or> m - 1 \<le> int n"
  shows "\<exists>s'. read_loop T h m (take n v) s = (Inr v, s') \<and> quiet s' \<and> holds (a_l2 s')"
  using assms
proof (induction "length v - n" arbitrary: n s rule: less_induct)
  case less
  show ?case
  proof (cases "m - 1 \<le> int n")
    case False
    then show ?thesis using less.prems by (subst read_loop.simps) simp
  next
    case True
    obtain s' where b: "read_blob T h n s = (Inr (take (nat (m - 1)) (drop n v)), s')"
      "quiet s'" "holds (a_l2 s')"
      using blob_step [OF less.prems(1,2) True less.prems(3)] by blast
    show ?thesis
    proof (cases "n = length v")
      case True
      then show ?thesis using b \<open>m - 1 \<le> int n\<close> by (subst read_loop.simps) simp
    next
      case False
      let ?n = "min (length v) (n + nat (m - 1))"
      have "take n v @ take (nat (m - 1)) (drop n v) = take ?n v"
        using less.prems(3) by (simp add: take_add min_def)
      moreover have "take (nat (m - 1)) (drop n v) \<noteq> []"
        using False less.prems(3) mtu_range by auto
      moreover have "length v - ?n < length v - n" "?n \<le> length v" "m - 1 \<le> int ?n"
        using False less.prems(3) mtu_range True by auto
      moreover note less.hyps [of ?n s'] b True
      ultimately show ?thesis using less.prems(3) by (subst read_loop.simps) (simp add: min_absorb2)
    qed
  qed
qed

lemma reads_value:
  assumes "quiet s" "holds (a_l2 s)" "a_mtu s = m"
  shows "\<exists>s'. read_value T h s = (Inr v, s') \<and> quiet s' \<and> holds (a_l2 s')"
proof -
  obtain us t' where a: "answers T READ_RSP (op_byte READ_REQ # le_bytes 2 h) (a_l2 s) us
        (op_byte READ_RSP # take (nat (m - 1)) v) t'"
    "list_all (\<lambda>u. mtu_of u = None) us" "holds t'"
    using read_answer [OF assms(2)] by blast
  have p: "to_le 2 h = Inr (le_bytes 2 h)" using handle_range by (simp add: to_le_def)
  have "take (nat (m - 1)) v = take (min (length v) (nat (m - 1))) v"
    by (simp add: min_def)
  moreover have "min (length v) (nat (m - 1)) = length v
      \<or> m - 1 \<le> int (min (length v) (nat (m - 1)))"
    by linarith
  ultimately show ?thesis
    using request_answered [OF assms(1) a(1)] p
      read_loop_whole [of "absorb us t' s" "min (length v) (nat (m - 1))"] assms a(2,3)
    by (simp add: read_value_def last_mtu_none)
qed

end


text \<open>C5.  A read returns the whole value, however long (below 65536 bytes) and in however many
  PDUs, from any peer that answers Read and Read Blob for it, with values, indications and other
  strays in between and MTU requests of the peer during the continuation.\<close>

theorem read_returns_value:
  assumes "value_server T holds h v m" "quiet s" "holds (a_l2 s)" "a_mtu s = m"
  shows "\<exists>s'. read_value T h s = (Inr v, s') \<and> quiet s' \<and> holds (a_l2 s')"
  by (rule value_server.reads_value [OF assms])

text \<open>A peer with one value, whose state is the last request; each answer comes after a value of a
  characteristic, and a Read Blob is answered after an MTU request of the peer.\<close>

definition memory_answer :: "bytes \<Rightarrow> nat \<Rightarrow> bytes \<Rightarrow> upcall list" where
  "memory_answer v n req =
     (if opcode_of req = READ_REQ then [OnData [0x1B, 9, 0, 7], OnData (0x0B # take n v)]
      else [OnData [0x02, 0xF7, 0], OnData (0x0D # take n (drop (nat (from_le (drop 3 req))) v))])"

definition memory_transport :: "bytes \<Rightarrow> nat \<Rightarrow> bytes transport" where
  "memory_transport v n =
     \<lparr>tsend = (\<lambda>p t. (Inr (), if opcode_of p \<in> {READ_REQ, READ_BLOB_REQ} then p else t)),
      trecv = (\<lambda>t. (memory_answer v n t, t)), tclose = (\<lambda>t. t)\<rparr>"

lemma memory_serves:
  assumes "0 \<le> h" "h < 65536" "0 < n" "length v < 65536"
  shows "value_server (memory_transport v n) (\<lambda>t. True) h v (int n + 1)"
proof
  fix t :: bytes
  let ?q = "op_byte READ_REQ # le_bytes 2 h"
  have "answers (memory_transport v n) READ_RSP ?q t (memory_answer v n ?q) (op_byte READ_RSP # take n v) ?q"
    by (auto simp: answers_def memory_transport_def memory_answer_def stray_def
        att_opcodes intro!: exI [of _ "[[0x1B, 9, 0, 7]]"])
  moreover have "list_all (\<lambda>u. mtu_of u = None) (memory_answer v n ?q)"
    by (simp add: memory_answer_def att_opcodes)
  ultimately show "\<exists>us t'. answers (memory_transport v n) READ_RSP (op_byte READ_REQ # le_bytes 2 h) t us
      (op_byte READ_RSP # take (nat (int n + 1 - 1)) v) t'
    \<and> list_all (\<lambda>u. mtu_of u = None) us \<and> True"
    by auto
  fix k
  assume k: "int n + 1 - 1 \<le> int k" "k \<le> length v"
  let ?p = "op_byte READ_BLOB_REQ # le_bytes 2 h @ le_bytes 2 (int k)"
  have "from_le (le_bytes 2 (int k)) = int k" using k assms(4) by (intro from_le_le_bytes) auto
  then have "from_le (drop 3 ?p) = int k" by simp
  then have "answers (memory_transport v n) READ_BLOB_RSP ?p t (memory_answer v n ?p)
      (op_byte READ_BLOB_RSP # take n (drop k v)) ?p"
    by (auto simp: answers_def memory_transport_def memory_answer_def stray_def
        send_replies_def att_opcodes intro!: exI [of _ "[[0x02, 0xF7, 0]]"])
  then show "\<exists>us rsp t'. answers (memory_transport v n) READ_BLOB_RSP
       (op_byte READ_BLOB_REQ # le_bytes 2 h @ le_bytes 2 (int k)) t us rsp t' \<and>
     (rsp = op_byte READ_BLOB_RSP # take (nat (int n + 1 - 1)) (drop k v) \<or>
      k = length v \<and> (\<exists>o' h' e. e \<in> {ATT_ERR_INVALID_OFFSET, ATT_ERR_ATTRIBUTE_NOT_LONG} \<and>
        decode_response READ_BLOB_RSP rsp = Inl (ATTError o' h' e))) \<and> True"
    by auto
qed (use assms in auto)

text \<open>An instance: a value of 50 bytes at the default MTU takes three PDUs.\<close>

theorem read_returns_value_witness:
  "\<exists>s'. read_value (memory_transport (replicate 50 5) 22) 3 (att_init [] :: (bytes, nat) att)
     = (Inr (replicate 50 5), s') \<and> quiet s' \<and> True"
proof -
  have "value_server (memory_transport (replicate 50 5) 22) (\<lambda>t. True) 3 (replicate 50 5) 23"
    using memory_serves [of 3 22 "replicate 50 5"] by simp
  from read_returns_value [OF this quiet_init, of "[]"] show ?thesis
    by (simp add: att_init_def att_mtus)
qed

definition early_mtu_transport :: "bytes \<Rightarrow> bytes transport" where
  "early_mtu_transport v =
     (memory_transport v 22)\<lparr>trecv := (\<lambda>t.
       (if opcode_of t = READ_REQ then [OnData [0x02, 0xF7, 0], OnData (0x0B # take 22 v)]
        else memory_answer v 22 t, t))\<rparr>"

text \<open>The copy of the MTU that \<open>read\<close> compares with is taken after the first response, not when
  the read starts: an MTU request of the peer that arrives just before that response (sized by the
  old MTU) makes a full PDU look short, and the read returns the first 22 of 50 bytes.\<close>

theorem read_truncated_by_early_mtu_request:
  "let v = replicate 50 5; s = (att_init [] :: (bytes, nat) att)
   in fst (read_value (memory_transport v 22) 3 s) = Inr v
    \<and> fst (read_value (early_mtu_transport v) 3 s) = Inr (take 22 v)"
proof -
  let ?v = "replicate 50 5 :: bytes" and ?s = "att_init [] :: (bytes, nat) att"
  have "value_server (memory_transport ?v 22) (\<lambda>t. True) 3 ?v 23"
    using memory_serves [of 3 22 ?v] by simp
  moreover have "quiet ?s" "a_mtu ?s = 23" by (simp_all add: att_init_def att_mtus quiet_def)
  ultimately have 1: "fst (read_value (memory_transport ?v 22) 3 ?s) = Inr ?v"
    using value_server.reads_value by (metis fst_conv)
  let ?q = "op_byte READ_REQ # le_bytes 2 3" and ?us = "[OnData [0x02, 0xF7, 0], OnData (0x0B # take 22 ?v)]"
  have "answers (early_mtu_transport ?v) READ_RSP ?q (a_l2 ?s) ?us (0x0B # take 22 ?v) ?q"
    by (auto simp: answers_def early_mtu_transport_def memory_transport_def stray_def
        send_replies_def att_opcodes intro!: exI [of _ "[[0x02, 0xF7, 0]]"])
  from request_answered [OF quiet_init this response_opcodes(1)]
  have "request (early_mtu_transport ?v) ?q READ_RSP ?s
    = (Inr (op_byte READ_RSP # take 22 ?v), absorb ?us ?q ?s)"
    using decode_tagged [OF response_opcodes(1), of "take 22 ?v"] by (simp add: READ_RSP_def)
  then have "fst (read_value (early_mtu_transport ?v) 3 ?s) = Inr (take 22 ?v)"
    by (simp add: read_value_def to_le_def read_loop.simps last_mtu_def att_mtus att_opcodes att_init_def
        slice_def)
  with 1 show ?thesis by (simp add: Let_def)
qed


text \<open>C14.  The MTU exchange agrees with the peer however the peer answers: by a response or by an MTU
  request of its own (its response may never come), the result and the MTU in force are the
  smaller of 247 and the peer's value, and never below 23.\<close>

theorem exchange_mtu_negotiates:
  assumes "quiet s" and "tsend T (op_byte EXCHANGE_MTU_REQ # le_bytes 2 PREFERRED_MTU) (a_l2 s) = (Inr (), t)"
    and "trecv T t = (map OnData ds @ OnData d # rest, t')"
    and "list_all (stray EXCHANGE_MTU_RSP) ds"
    and "opcode_of d \<in> {EXCHANGE_MTU_RSP, EXCHANGE_MTU_REQ}"
  defines "m \<equiv> max DEFAULT_MTU (min PREFERRED_MTU (from_le (slice 1 3 d)))"
  shows "fst (exchange_mtu T PREFERRED_MTU s) = Inr m \<and> a_mtu (snd (exchange_mtu T PREFERRED_MTU s)) = m"
proof -
  let ?s = "s\<lparr>a_peer_initiated_mtu := False\<rparr>" and ?op = EXCHANGE_MTU_RSP
  have q: "quiet ?s" using assms(1) by (simp add: quiet_def)
  have l: "to_le 2 PREFERRED_MTU = Inr (le_bytes 2 PREFERRED_MTU)" by (simp add: to_le_def att_mtus)
  have "\<exists>data. first_response ?op (map OnData ds @ OnData d # rest) = Inr data
      \<and> decode_response ?op data = Inr data \<and> from_le (slice 1 3 data) = from_le (slice 1 3 d)"
  proof (cases "opcode_of d = EXCHANGE_MTU_REQ")
    case True
    have "from_le (slice 1 3 d) < 256 ^ 2" using from_le_slice_u16 [of 1 d] by (simp add: numeral_3_eq_3)
    then have "from_le (le_bytes 2 (from_le (slice 1 3 d))) = from_le (slice 1 3 d)"
      by (intro from_le_le_bytes) auto
    with True show ?thesis
      unfolding first_response_strays [OF assms(4)]
      by (auto simp: first_response_def map_filter_simps slice_def [of _ _ "_ # _"])
  next
    case False
    then have "opcode_of d = ?op" using assms(5) by auto
    then show ?thesis
      unfolding first_response_strays [OF assms(4)] using decode_ok [OF _ response_opcodes(7), of d]
      by (auto simp: first_response_def map_filter_simps) (auto simp: att_opcodes)
  qed
  then obtain data where data: "first_response ?op (map OnData ds @ OnData d # rest) = Inr data"
      "decode_response ?op data = Inr data" "from_le (slice 1 3 data) = from_le (slice 1 3 d)"
    by blast
  let ?p = "op_byte EXCHANGE_MTU_REQ # le_bytes 2 PREFERRED_MTU"
  have "fst (request T ?p ?op ?s) = Inr data"
    using request_full [OF q _ assms(3), of ?p ?op] assms(2) data by simp
  then obtain s' where "request T ?p ?op ?s = (Inr data, s')" by (cases "request T ?p ?op ?s") auto
  with l data(3) show ?thesis by (simp add: exchange_mtu_def m_def Let_def)
qed

theorem exchange_mtu_negotiates_witness:
  "fst (exchange_mtu batch_transport PREFERRED_MTU
     (att_init [OnData [0x1B, 3, 0], OnData [0x02, 0x64, 0]] :: (upcall list, nat) att)) = Inr 100"
proof -
  let ?ds = "[[0x1B, 3, 0 :: byte]]" and ?d = "[0x02, 0x64, 0 :: byte]"
  have "tsend batch_transport (op_byte EXCHANGE_MTU_REQ # le_bytes 2 PREFERRED_MTU)
      (a_l2 (att_init (map OnData ?ds @ OnData ?d # []) :: (upcall list, nat) att))
      = (Inr (), map OnData ?ds @ OnData ?d # [])"
    "trecv batch_transport (map OnData ?ds @ OnData ?d # []) = (map OnData ?ds @ OnData ?d # [], [])"
    by (simp_all add: batch_transport_def att_init_def)
  from exchange_mtu_negotiates [OF quiet_init this] show ?thesis
    by (simp add: stray_def att_opcodes att_mtus slice_def)
qed

end
