(* ===== verification/Uuids.thy ===== *)
theory Uuids
  imports Prelude
begin

unbundle bit_operations_syntax

text \<open>
  \<open>bluek/uuids.py\<close>: the canonical 128-bit string of a 16-, 32- or 128-bit UUID and its
  little-endian wire form.  A \<open>uuid.UUID\<close> object of the standard library is its integer;
  \<open>uuid_parse\<close> and \<open>uuid_str\<close> are its constructor from a string and its \<open>str\<close>.
\<close>

section \<open>The UUID class of the standard library\<close>

definition uuid_parse :: "string \<Rightarrow> int result" where
  "uuid_parse s =
     (let h0 = py_replace ''uuid:'' '''' (py_replace ''urn:'' '''' s);
          h = py_replace ''-'' '''' (strip_by (\<lambda>c. c \<in> set ''{}'') h0)
      in if length h \<noteq> 32 then Inl ValueError
         else rbind (py_int16 h) (\<lambda>v. if 0 \<le> v \<and> v < 2 ^ 128 then Inr v else Inl ValueError))"

definition uuid_str :: "int \<Rightarrow> string" where
  "uuid_str v =
     (let h = hexw 32 v
      in slice 0 8 h @ ''-'' @ slice 8 12 h @ ''-'' @ slice 12 16 h @ ''-'' @ slice 16 20 h
         @ ''-'' @ drop 20 h)"

definition uuid_of_bytes :: "bytes \<Rightarrow> int result" where
  "uuid_of_bytes bs = (if length bs \<noteq> 16 then Inl ValueError else Inr (from_le (rev bs)))"

definition uuid_bytes :: "int \<Rightarrow> bytes" where
  "uuid_bytes v = rev (le_bytes 16 v)"


section \<open>The module's functions\<close>

definition BASE_SUFFIX :: string where
  "BASE_SUFFIX = ''-0000-1000-8000-00805f9b34fb''"

definition BASE_UUID :: int where
  "BASE_UUID = (case uuid_parse (''00000000'' @ BASE_SUFFIX) of Inr v \<Rightarrow> v | Inl _ \<Rightarrow> 0)"

definition normalize_uuid_str :: "string \<Rightarrow> string result" where
  "normalize_uuid_str uuid =
     (let s = py_replace ''0x'' '''' (py_lower (py_strip uuid));
          s' = (if length s = 4 then ''0000'' @ s @ BASE_SUFFIX
                else if length s = 8 then s @ BASE_SUFFIX
                else s)
      in rbind (uuid_parse s') (\<lambda>u. Inr (uuid_str u)))"

definition normalize_uuid_16 :: "int \<Rightarrow> string result" where
  "normalize_uuid_16 v = normalize_uuid_str (fmt_hex 4 v)"

definition uuid_from_bytes :: "bytes \<Rightarrow> string result" where
  "uuid_from_bytes d =
     (if length d = 2 then normalize_uuid_16 (from_le d)
      else if length d = 4 then normalize_uuid_str (fmt_hex 8 (from_le d))
      else if length d = 16 then rbind (uuid_of_bytes (rev d)) (\<lambda>u. Inr (uuid_str u))
      else Inl ValueError)"

definition uuid_to_bytes :: "string \<Rightarrow> bytes result" where
  "uuid_to_bytes uuid =
     rbind (normalize_uuid_str uuid) (\<lambda>n.
     rbind (uuid_parse n) (\<lambda>u.
       if u AND NOT (push_bit 96 0xFFFF) = BASE_UUID
       then to_le 2 (drop_bit 96 u AND 0xFFFF)
       else Inr (rev (uuid_bytes u))))"


section \<open>Canonical strings\<close>

text \<open>The integers a UUID can hold.\<close>

abbreviation uuid_ok :: "int \<Rightarrow> bool" where
  "uuid_ok v \<equiv> 0 \<le> v \<and> v < 2 ^ 128"

text \<open>A string of hexadecimal digits and dashes is what every string method here leaves alone.\<close>

definition dashed_hex :: "string \<Rightarrow> bool" where
  "dashed_hex s \<longleftrightarrow> (\<forall>c\<in>set s. is_lower_hex c \<or> c = CHR ''-'')"

lemma lower_hex_char:
  assumes "is_lower_hex c \<or> c = CHR ''-''"
  shows "to_lower c = c" "\<not> is_space c" "c \<noteq> CHR ''x''" "c \<noteq> CHR ''u''" "c \<noteq> CHR ''{''"
    "c \<noteq> CHR ''}''"
  using assms by (auto simp: is_lower_hex_def to_lower_def is_space_def)

lemma hexw_dashed [simp]: "dashed_hex (hexw k n)"
  by (auto simp: dashed_hex_def dest: hexw_lower)

lemma dashed_hex_append [simp]: "dashed_hex (s @ t) \<longleftrightarrow> dashed_hex s \<and> dashed_hex t"
  by (auto simp: dashed_hex_def)

lemma dashed_hex_Cons [simp]:
  "dashed_hex (c # s) \<longleftrightarrow> (is_lower_hex c \<or> c = CHR ''-'') \<and> dashed_hex s"
  by (auto simp: dashed_hex_def)

lemma dashed_hex_slice [simp]: "dashed_hex s \<Longrightarrow> dashed_hex (slice i j s)"
  "dashed_hex s \<Longrightarrow> dashed_hex (drop i s)"
  by (auto simp: dashed_hex_def slice_def dest!: in_set_takeD in_set_dropD)

lemma dashed_hex_dash [simp]: "dashed_hex ''-''" "dashed_hex BASE_SUFFIX" "dashed_hex ''0000''"
  "dashed_hex ''00000000''"
  by (simp_all add: dashed_hex_def is_lower_hex_def BASE_SUFFIX_def)

lemma py_lower_dashed: "dashed_hex s \<Longrightarrow> py_lower s = s"
  unfolding py_lower_def by (rule map_idI) (auto simp: dashed_hex_def lower_hex_char)

lemma py_strip_dashed: "dashed_hex s \<Longrightarrow> py_strip s = s"
  unfolding py_strip_def by (rule strip_by_id) (auto simp: dashed_hex_def lower_hex_char)

lemma replace_0x: "CHR ''x'' \<notin> set s \<Longrightarrow> py_replace ''0x'' r s = s"
proof (induction s)
  case (Cons c s)
  then have "\<not> prefix ''0x'' (c # s)" by (cases s) auto
  with Cons show ?case by (simp only: py_replace.simps [of "''0x''" r "c # s"]) simp
qed (simp add: py_replace.simps)

lemma replace_0x_dashed: "dashed_hex s \<Longrightarrow> py_replace ''0x'' r s = s"
  using lower_hex_char(3) by (intro replace_0x) (auto simp: dashed_hex_def)

lemma uuid_parse_dashed:
  assumes "dashed_hex s"
  shows "uuid_parse s =
    (let h = filter (\<lambda>c. c \<noteq> CHR ''-'') s
     in if length h \<noteq> 32 then Inl ValueError
        else rbind (py_int16 h) (\<lambda>v. if uuid_ok v then Inr v else Inl ValueError))"
proof -
  have u: "CHR ''u'' \<notin> set s" "\<forall>c\<in>set s. \<not> c \<in> set ''{}''"
    using assms lower_hex_char(4-6) by (auto simp: dashed_hex_def)
  then have "py_replace ''urn:'' '''' s = s" "py_replace ''uuid:'' '''' s = s"
    by (simp_all add: py_replace_absent)
  with u(2) show ?thesis
    by (simp add: uuid_parse_def strip_by_id py_replace_single Let_def)
qed

lemma filter_dash_hex [simp]:
  "filter (\<lambda>c. c \<noteq> CHR ''-'') (hexw k n) = hexw k n"
  by (rule filter_True) (auto dest!: hexw_lower simp: is_lower_hex_def)

lemma uuid_str_hexw: "filter (\<lambda>c. c \<noteq> CHR ''-'') (uuid_str v) = hexw 32 v"
proof -
  let ?h = "hexw 32 v"
  have f: "filter (\<lambda>c. c \<noteq> CHR ''-'') (slice i j ?h) = slice i j ?h"
    "filter (\<lambda>c. c \<noteq> CHR ''-'') (drop i ?h) = drop i ?h" for i j
    by (rule filter_True, auto simp: slice_def is_lower_hex_def
        dest!: in_set_takeD in_set_dropD hexw_lower)+
  have "slice 0 8 ?h @ slice 8 12 ?h @ slice 12 16 ?h @ slice 16 20 ?h @ drop 20 ?h = ?h"
    by simp
  then show ?thesis by (simp add: uuid_str_def Let_def f)
qed


lemma dashed_uuid_str [simp]: "dashed_hex (uuid_str v)"
  by (simp add: uuid_str_def Let_def)

lemma length_uuid_str [simp]: "length (uuid_str v) = 36"
  by (simp add: uuid_str_def slice_def Let_def)

lemma uuid_parse_str [simp, codec_simps]: "uuid_ok v \<Longrightarrow> uuid_parse (uuid_str v) = Inr v"
  by (simp add: uuid_parse_dashed uuid_str_hexw py_int16_hexw)

lemma uuid_parse_ok: "uuid_parse s = Inr v \<Longrightarrow> uuid_ok v"
  by (auto simp: uuid_parse_def Let_def rbind_eq_Inr split: if_splits)

lemma normalize_dashed:
  "dashed_hex s \<Longrightarrow> length s = 36 \<Longrightarrow>
   normalize_uuid_str s = rbind (uuid_parse s) (\<lambda>u. Inr (uuid_str u))"
  by (simp add: normalize_uuid_str_def py_strip_dashed py_lower_dashed replace_0x_dashed Let_def)

lemma normalize_uuid_strI: "uuid_ok v \<Longrightarrow> normalize_uuid_str (uuid_str v) = Inr (uuid_str v)"
  by (simp add: normalize_dashed)

lemma normalize_uuid_strE:
  assumes "normalize_uuid_str u = Inr s"
  obtains v where "uuid_ok v" "s = uuid_str v"
  using assms by (auto simp: normalize_uuid_str_def Let_def rbind_eq_Inr dest: uuid_parse_ok)

lemma BASE_UUID_eq: "BASE_UUID = 0x1000800000805f9b34fb"
  by code_simp

text \<open>A short UUID fills the top 32 bits of the base UUID.\<close>

lemma uuid_str_short:
  assumes "0 \<le> n" "n < 2 ^ 32"
  shows "uuid_str (n * 2 ^ 96 + BASE_UUID) = hexw 8 n @ BASE_SUFFIX"
proof -
  have "hexw 24 BASE_UUID = ''00001000800000805f9b34fb''"
    unfolding BASE_UUID_eq by code_simp
  moreover have "hexw (8 + 24) (n * 16 ^ 24 + BASE_UUID) = hexw 8 n @ hexw 24 BASE_UUID"
    by (rule hexw_append) (simp_all add: BASE_UUID_eq)
  ultimately have "hexw 32 (n * 2 ^ 96 + BASE_UUID) = hexw 8 n @ ''00001000800000805f9b34fb''"
    by simp
  then show ?thesis by (simp add: uuid_str_def slice_def BASE_SUFFIX_def Let_def)
qed

lemma short_uuid_ok: "0 \<le> n \<Longrightarrow> n < 2 ^ 32 \<Longrightarrow> uuid_ok (n * 2 ^ 96 + BASE_UUID)"
  by (simp add: BASE_UUID_eq)

lemma normalize_hexw:
  "k = 4 \<or> k = 8 \<Longrightarrow> normalize_uuid_str (hexw k n) =
     rbind (uuid_parse ((if k = 4 then ''0000'' else []) @ hexw k n @ BASE_SUFFIX))
       (\<lambda>u. Inr (uuid_str u))"
  by (auto simp: normalize_uuid_str_def py_strip_dashed py_lower_dashed replace_0x_dashed Let_def)

lemma normalize_short:
  assumes "0 \<le> n" "n < 2 ^ 32"
  shows "normalize_uuid_str (hexw 8 n) = Inr (uuid_str (n * 2 ^ 96 + BASE_UUID))"
  using uuid_parse_str [OF short_uuid_ok [OF assms]] uuid_str_short [OF assms]
  by (simp add: normalize_hexw)

lemma normalize_short16:
  assumes "0 \<le> n" "n < 2 ^ 16"
  shows "normalize_uuid_str (hexw 4 n) = Inr (uuid_str (n * 2 ^ 96 + BASE_UUID))"
proof -
  have n: "n < 2 ^ 32" using assms by simp
  have "hexw (4 + 4) (0 * 16 ^ 4 + n) = hexw 4 0 @ hexw 4 n"
    by (rule hexw_append) (use assms in simp_all)
  moreover have "hexw 4 0 = ''0000''" by code_simp
  ultimately have "hexw 8 n = ''0000'' @ hexw 4 n" by simp
  then show ?thesis
    using uuid_parse_str [OF short_uuid_ok [OF assms(1) n]] uuid_str_short [OF assms(1) n]
    by (simp add: normalize_hexw)
qed

lemma from_le_fixed: "length d = n \<Longrightarrow> from_le d < 256 ^ n"
  using from_le_less [of d] by simp

lemma uuid_from_bytes_2:
  "length d = 2 \<Longrightarrow> uuid_from_bytes d = Inr (uuid_str (from_le d * 2 ^ 96 + BASE_UUID))"
  using from_le_fixed [of d 2] normalize_short16 [of "from_le d"]
  by (simp add: uuid_from_bytes_def normalize_uuid_16_def fmt_hex_hexw)

lemma uuid_from_bytes_4:
  "length d = 4 \<Longrightarrow> uuid_from_bytes d = Inr (uuid_str (from_le d * 2 ^ 96 + BASE_UUID))"
  using from_le_fixed [of d 4] normalize_short [of "from_le d"]
  by (simp add: uuid_from_bytes_def fmt_hex_hexw)

lemma uuid_from_bytes_16:
  "length d = 16 \<Longrightarrow> uuid_from_bytes d = Inr (uuid_str (from_le d))"
  by (simp add: uuid_from_bytes_def uuid_of_bytes_def)

text \<open>The wire form depends only on the 128-bit value.\<close>

definition wire_of :: "int \<Rightarrow> bytes" where
  "wire_of u =
     (if u AND NOT (push_bit 96 0xFFFF) = BASE_UUID
      then le_bytes 2 (drop_bit 96 u AND 0xFFFF) else le_bytes 16 u)"

lemma and_0xFFFF: "(x :: int) AND 0xFFFF = x mod 2 ^ 16"
proof -
  have "(0xFFFF :: int) = mask 16" by (simp add: mask_eq_exp_minus_1)
  then show ?thesis by (metis take_bit_eq_mask take_bit_eq_mod)
qed

lemma uuid_to_bytes_str:
  assumes "uuid_ok v"
  shows "uuid_to_bytes (uuid_str v) = Inr (wire_of v)"
  using assms
  by (simp add: uuid_to_bytes_def normalize_uuid_strI uuid_bytes_def wire_of_def to_le_def and_0xFFFF)

lemma and_plus_and_not: "(u AND m) + (u AND NOT m) = (u :: int)"
proof -
  have "(u AND m) + (u AND NOT m) = (u AND m) OR (u AND NOT m)"
    by (rule disjunctive_add_eq_or) (rule bit_eqI, auto simp: bit_simps)
  also have "\<dots> = u" by (rule bit_eqI) (auto simp: bit_simps)
  finally show ?thesis .
qed

lemma push_bit_and: "push_bit k (drop_bit k u AND m) = u AND push_bit k (m :: int)"
  by (rule bit_eqI) (auto simp: bit_simps)

lemma base_split:
  fixes u :: int
  assumes "u AND NOT (push_bit 96 0xFFFF) = BASE_UUID"
  shows "u = (drop_bit 96 u AND 0xFFFF) * 2 ^ 96 + BASE_UUID"
proof -
  let ?m = "push_bit 96 (0xFFFF :: int)"
  have "push_bit 96 (drop_bit 96 u AND 0xFFFF) = u AND ?m"
    by (rule push_bit_and)
  moreover have "(u AND ?m) + (u AND NOT ?m) = u" by (rule and_plus_and_not)
  ultimately show ?thesis using assms by (simp add: push_bit_eq_mult)
qed

lemma base_mask:
  assumes "0 \<le> n" "n < 2 ^ 16"
  shows "(n * 2 ^ 96 + BASE_UUID) AND NOT (push_bit 96 0xFFFF) = BASE_UUID"
    and "drop_bit 96 (n * 2 ^ 96 + BASE_UUID) AND 0xFFFF = n"
proof -
  have d: "drop_bit 96 (n * 2 ^ 96 + BASE_UUID) = n"
    by (simp add: drop_bit_eq_div BASE_UUID_eq)
  then show m: "drop_bit 96 (n * 2 ^ 96 + BASE_UUID) AND 0xFFFF = n"
    using assms by (simp add: and_0xFFFF)
  let ?u = "n * 2 ^ 96 + BASE_UUID" and ?m = "push_bit 96 (0xFFFF :: int)"
  have "push_bit 96 (drop_bit 96 ?u AND 0xFFFF) = ?u AND ?m"
    by (rule push_bit_and)
  then have "?u AND ?m = n * 2 ^ 96" using m by (simp add: push_bit_eq_mult)
  moreover have "(?u AND ?m) + (?u AND NOT ?m) = ?u" by (rule and_plus_and_not)
  ultimately show "?u AND NOT ?m = BASE_UUID" by simp
qed

lemma uuid_from_wire: "uuid_ok v \<Longrightarrow> uuid_from_bytes (wire_of v) = Inr (uuid_str v)"
proof (cases "v AND NOT (push_bit 96 0xFFFF) = BASE_UUID")
  case True
  have "from_le (le_bytes 2 (drop_bit 96 v AND 0xFFFF)) = drop_bit 96 v AND 0xFFFF"
    by (rule from_le_le_bytes) (simp_all add: and_0xFFFF)
  with True base_split [OF True] show ?thesis
    by (simp add: wire_of_def uuid_from_bytes_2)
next
  case False
  assume "uuid_ok v"
  then have "from_le (le_bytes 16 v) = v" by (intro from_le_le_bytes) simp_all
  with False show ?thesis by (simp add: wire_of_def uuid_from_bytes_16)
qed

lemma length_wire_of: "length (wire_of v) = 2 \<or> length (wire_of v) = 16"
  by (simp add: wire_of_def)

lemma uuid_to_bytes_normalize:
  assumes "normalize_uuid_str u = Inr s"
  shows "uuid_to_bytes u = uuid_to_bytes s"
proof -
  from assms obtain v where "uuid_ok v" "s = uuid_str v" by (rule normalize_uuid_strE)
  with assms show ?thesis by (simp add: uuid_to_bytes_def normalize_uuid_strI)
qed

lemma normalize_uuid_str_ok: "normalize_uuid_str u = Inr s \<Longrightarrow> \<exists>v. uuid_ok v \<and> s = uuid_str v"
  by (blast elim: normalize_uuid_strE)

lemma uuid_from_bytes_ok:
  assumes "uuid_from_bytes d = Inr s"
  shows "\<exists>v. uuid_ok v \<and> s = uuid_str v"
proof (cases "length d = 16")
  case True
  have "uuid_ok (from_le d)" using from_le_fixed [OF True] by simp
  with True assms show ?thesis by (auto simp only: uuid_from_bytes_16 sum.inject)
next
  case False
  with assms show ?thesis
    by (auto simp only: uuid_from_bytes_def normalize_uuid_16_def split: if_splits
        dest!: normalize_uuid_str_ok)
qed


section \<open>Properties\<close>

text \<open>
  C23.  Encoding any UUID string the package accepts for the wire and decoding it again gives
  its canonical form, and the encoding has 2 or 16 bytes.
\<close>

theorem uuid_string_roundtrip:
  assumes "normalize_uuid_str u = Inr s"
  shows "\<exists>b. uuid_to_bytes u = Inr b \<and> (length b = 2 \<or> length b = 16) \<and> uuid_from_bytes b = Inr s"
proof -
  from assms obtain v where v: "uuid_ok v" "s = uuid_str v" by (rule normalize_uuid_strE)
  with uuid_to_bytes_normalize [OF assms] show ?thesis
    by (simp add: uuid_to_bytes_str uuid_from_wire length_wire_of)
qed

theorem uuid_string_roundtrip_witness:
  "normalize_uuid_str '' 0xFFE1'' = Inr ''0000ffe1-0000-1000-8000-00805f9b34fb'' \<and>
   (\<exists>b. uuid_to_bytes '' 0xFFE1'' = Inr b \<and> (length b = 2 \<or> length b = 16) \<and>
        uuid_from_bytes b = Inr ''0000ffe1-0000-1000-8000-00805f9b34fb'')"
proof -
  have "normalize_uuid_str '' 0xFFE1'' = Inr ''0000ffe1-0000-1000-8000-00805f9b34fb''"
    by code_simp
  from this uuid_string_roundtrip [OF this] show ?thesis by blast
qed

text \<open>
  Decoding a wire UUID and encoding the string again gives the same bytes, for a 16-bit
  UUID and for a 128-bit one that has no 16-bit form.
\<close>

theorem uuid_wire_roundtrip:
  assumes "length d = 2 \<or> length d = 16 \<and> from_le d AND NOT (push_bit 96 0xFFFF) \<noteq> BASE_UUID"
  shows "rbind (uuid_from_bytes d) uuid_to_bytes = Inr d"
proof (cases "length d = 2")
  case True
  have n: "0 \<le> from_le d" "from_le d < 2 ^ 16" using from_le_fixed [OF True] by simp_all
  have "wire_of (from_le d * 2 ^ 96 + BASE_UUID) = le_bytes (length d) (from_le d)"
    using base_mask [OF n] True by (simp add: wire_of_def)
  moreover have "uuid_ok (from_le d * 2 ^ 96 + BASE_UUID)" using n by (simp add: BASE_UUID_eq)
  ultimately show ?thesis
    using True le_bytes_from_le [of d] by (simp add: uuid_from_bytes_2 uuid_to_bytes_str)
next
  case False
  with assms have d: "length d = 16" "from_le d AND NOT (push_bit 96 0xFFFF) \<noteq> BASE_UUID" by auto
  then have "wire_of (from_le d) = le_bytes (length d) (from_le d)" by (simp add: wire_of_def)
  moreover have "uuid_ok (from_le d)" using from_le_fixed [OF d(1)] by simp
  ultimately show ?thesis
    using d le_bytes_from_le [of d] by (simp add: uuid_from_bytes_16 uuid_to_bytes_str)
qed

theorem uuid_wire_roundtrip_witness:
  "rbind (uuid_from_bytes [0xe1, 0xff]) uuid_to_bytes = Inr [0xe1, 0xff]"
  by (rule uuid_wire_roundtrip) simp

text \<open>
  C24.  A normalised UUID is 36 lower-case hexadecimal digits and dashes, and normalising it
  again changes nothing.
\<close>

theorem normalize_uuid_canonical:
  assumes "normalize_uuid_str u = Inr s"
  shows "length s = 36 \<and> dashed_hex s \<and> normalize_uuid_str s = Inr s"
  using assms by (rule normalize_uuid_strE) (simp add: normalize_uuid_strI)

theorem normalize_uuid_canonical_witness:
  "length ''0000180a-0000-1000-8000-00805f9b34fb'' = 36 \<and>
   dashed_hex ''0000180a-0000-1000-8000-00805f9b34fb'' \<and>
   normalize_uuid_str ''0000180a-0000-1000-8000-00805f9b34fb''
     = Inr ''0000180a-0000-1000-8000-00805f9b34fb''"
proof -
  have "normalize_uuid_str ''180A'' = Inr ''0000180a-0000-1000-8000-00805f9b34fb''" by code_simp
  then show ?thesis by (rule normalize_uuid_canonical)
qed

end
