(* ===== verification/ATT_Discovery.thy ===== *)
theory ATT_Discovery
  imports ATT_Ops Uuids
begin

text \<open>
  GATT discovery of \<open>bluek/_att.py\<close>: the three paged procedures, the tree built from them, and the
  contract of a GATT server from which the tree is shown to be its database.

  The three procedures share their loop, which is \<open>att_scan\<close>; they differ in the request, the
  response opcode and the parser of a page (\<open>parse_groups\<close>, \<open>parse_types\<close>, \<open>parse_info\<close>).  A page
  is a list of results, each with the handle the loop continues after.  The loop ends because the
  start handle grows.
\<close>

section \<open>The data\<close>

record gatt_descriptor =
  d_handle :: int
  d_uuid :: string

record gatt_characteristic =
  c_handle :: int
  c_value_handle :: int
  c_uuid :: string
  c_properties :: int
  c_end_handle :: int
  c_descriptors :: "gatt_descriptor list"

record gatt_service =
  s_handle :: int
  s_end_handle :: int
  s_uuid :: string
  s_characteristics :: "gatt_characteristic list"

definition PRIMARY_SERVICE :: bytes where "PRIMARY_SERVICE = [0x00, 0x28]"
definition CHARACTERISTIC :: bytes where "CHARACTERISTIC = [0x03, 0x28]"


section \<open>The paged procedures\<close>

fun not_found :: "exn \<Rightarrow> bool" where
  "not_found (ATTError _ _ error_code) = (error_code = ATT_ERR_ATTRIBUTE_NOT_FOUND)"
| "not_found _ = False"

definition range_req :: "int \<Rightarrow> bytes \<Rightarrow> int \<Rightarrow> int \<Rightarrow> bytes result" where
  "range_req op uuid start end_h =
     rbind (to_le 2 start) (\<lambda>a. rbind (to_le 2 end_h) (\<lambda>b. Inr (op_byte op # a @ b @ uuid)))"

function att_scan ::
  "'t transport \<Rightarrow> int \<Rightarrow> (int \<Rightarrow> int \<Rightarrow> bytes result) \<Rightarrow> (bytes \<Rightarrow> (int \<times> 'r) list result)
   \<Rightarrow> int \<Rightarrow> int \<Rightarrow> 'r list \<Rightarrow> ('t, 'h) att \<Rightarrow> 'r list result \<times> ('t, 'h) att" where
  "att_scan T op pdu parse end_h start results s =
     (if start \<le> end_h then
        (case pdu start end_h of
           Inl e \<Rightarrow> (Inl e, s)
         | Inr payload \<Rightarrow>
             (case request T payload op s of
                (Inl e, s') \<Rightarrow> if not_found e then (Inr results, s') else (Inl e, s')
              | (Inr data, s') \<Rightarrow>
                  (case parse data of
                     Inl e \<Rightarrow> (Inl e, s')
                   | Inr es \<Rightarrow>
                       (let last = (if es = [] then start else fst (List.last es));
                            results' = results @ map snd es
                        in if last \<ge> 0xFFFF \<or> last < start then (Inr results', s')
                           else att_scan T op pdu parse end_h (last + 1) results' s'))))
      else (Inr results, s))"
  by pat_completeness auto
termination
  by (relation "measure (\<lambda>(T, op, pdu, parse, e, start, r, s). nat (e + 1 - start))") auto

declare att_scan.simps [simp del]

definition parse_groups :: "bytes \<Rightarrow> (int \<times> (int \<times> int \<times> bytes)) list result" where
  "parse_groups data =
     rbind (py_get data 1) (\<lambda>b. let len = unat b in
       if len = 0 then Inl ValueError
       else Inr (map (\<lambda>entry. let h = from_le (slice 0 2 entry); end_h = from_le (slice 2 4 entry)
                              in (end_h, (h, end_h, slice 4 len entry)))
                   (chunks len (drop 2 data))))"

definition parse_types :: "bytes \<Rightarrow> (int \<times> (int \<times> bytes)) list result" where
  "parse_types data =
     rbind (py_get data 1) (\<lambda>b. let len = unat b in
       if len = 0 then Inl ValueError
       else Inr (map (\<lambda>entry. let h = from_le (slice 0 2 entry) in (h, (h, slice 2 len entry)))
                   (chunks len (drop 2 data))))"

definition parse_info :: "bytes \<Rightarrow> (int \<times> (int \<times> string)) list result" where
  "parse_info data =
     rbind (py_get data 1) (\<lambda>fmt.
       let uuid_len = (if uint fmt = 0x01 then 2 else 16); entry_len = 2 + uuid_len
       in rmap (\<lambda>entry. let h = from_le (slice 0 2 entry)
                        in rbind (uuid_from_bytes (slice 2 entry_len entry)) (\<lambda>u. Inr (h, (h, u))))
            (chunks entry_len (drop 2 data)))"

definition read_by_group_type ::
  "'t transport \<Rightarrow> int \<Rightarrow> int \<Rightarrow> bytes \<Rightarrow> ('t, 'h) att \<Rightarrow> (int \<times> int \<times> bytes) list result \<times> ('t, 'h) att"
where
  "read_by_group_type T start end_h group_uuid s =
     att_scan T READ_BY_GROUP_TYPE_RSP (range_req READ_BY_GROUP_TYPE_REQ group_uuid) parse_groups
       end_h start [] s"

definition read_by_type ::
  "'t transport \<Rightarrow> int \<Rightarrow> int \<Rightarrow> bytes \<Rightarrow> ('t, 'h) att \<Rightarrow> (int \<times> bytes) list result \<times> ('t, 'h) att"
where
  "read_by_type T start end_h type_uuid s =
     att_scan T READ_BY_TYPE_RSP (range_req READ_BY_TYPE_REQ type_uuid) parse_types
       end_h start [] s"

definition find_information ::
  "'t transport \<Rightarrow> int \<Rightarrow> int \<Rightarrow> ('t, 'h) att \<Rightarrow> (int \<times> string) list result \<times> ('t, 'h) att" where
  "find_information T start end_h s =
     att_scan T FIND_INFO_RSP (range_req FIND_INFO_REQ []) parse_info end_h start [] s"


section \<open>The discovery of the tree\<close>

definition service_of :: "int \<times> int \<times> bytes \<Rightarrow> gatt_service result" where
  "service_of x =
     (case x of (h, end_h, val) \<Rightarrow>
        rbind (uuid_from_bytes val) (\<lambda>u.
          Inr \<lparr>s_handle = h, s_end_handle = end_h, s_uuid = u, s_characteristics = []\<rparr>))"

definition characteristic_of :: "int \<times> bytes \<Rightarrow> gatt_characteristic result" where
  "characteristic_of x =
     (case x of (decl_handle, val) \<Rightarrow>
        rbind (py_get val 0) (\<lambda>properties.
        let value_handle = from_le (slice 1 3 val)
        in rbind (uuid_from_bytes (drop 3 val)) (\<lambda>u.
             Inr \<lparr>c_handle = decl_handle, c_value_handle = value_handle, c_uuid = u,
                  c_properties = uint properties, c_end_handle = 0, c_descriptors = []\<rparr>)))"

text \<open>\<open>chars[i + 1].handle - 1 if i + 1 < len(chars) else svc.end_handle\<close>, for every \<open>i\<close>.\<close>

fun set_ends :: "int \<Rightarrow> gatt_characteristic list \<Rightarrow> gatt_characteristic list" where
  "set_ends svc_end [] = []"
| "set_ends svc_end [c] = [c\<lparr>c_end_handle := svc_end\<rparr>]"
| "set_ends svc_end (c # d # cs) =
     c\<lparr>c_end_handle := c_handle d - 1\<rparr> # set_ends svc_end (d # cs)"

definition discover_descriptors ::
  "'t transport \<Rightarrow> gatt_characteristic \<Rightarrow> (('t, 'h) att, gatt_characteristic) sx" where
  "discover_descriptors T char =
     (if c_end_handle char > c_value_handle char then
        sx_bind (find_information T (c_value_handle char + 1) (c_end_handle char)) (\<lambda>ds.
        sx_lift (Inr (char\<lparr>c_descriptors :=
          map (\<lambda>(dh, duuid). \<lparr>d_handle = dh, d_uuid = duuid\<rparr>) ds\<rparr>)))
      else sx_lift (Inr char))"

definition discover_service ::
  "'t transport \<Rightarrow> gatt_service \<Rightarrow> (('t, 'h) att, gatt_service) sx" where
  "discover_service T svc =
     sx_bind (read_by_type T (s_handle svc) (s_end_handle svc) CHARACTERISTIC) (\<lambda>entries.
     sx_bind (sx_lift (rmap characteristic_of entries)) (\<lambda>chars.
     sx_bind (sx_map (discover_descriptors T) (set_ends (s_end_handle svc) chars)) (\<lambda>chars'.
     sx_lift (Inr (svc\<lparr>s_characteristics := chars'\<rparr>)))))"

definition discover :: "'t transport \<Rightarrow> (('t, 'h) att, gatt_service list) sx" where
  "discover T =
     sx_bind (read_by_group_type T 0x0001 0xFFFF PRIMARY_SERVICE) (\<lambda>groups.
     sx_bind (sx_lift (rmap service_of groups)) (\<lambda>services.
     sx_map (discover_service T) services))"

text \<open>A property of the client that the requests of discovery keep is kept by discovery.\<close>

definition range_ops :: "(int \<times> int) set" where
  "range_ops = {(READ_BY_GROUP_TYPE_REQ, READ_BY_GROUP_TYPE_RSP),
     (READ_BY_TYPE_REQ, READ_BY_TYPE_RSP), (FIND_INFO_REQ, FIND_INFO_RSP)}"

definition kept_by_ranges :: "'t transport \<Rightarrow> (('t, 'h) att \<Rightarrow> bool) \<Rightarrow> bool" where
  "kept_by_ranges T Q \<longleftrightarrow> (\<forall>q op u x y p s. (q, op) \<in> range_ops \<longrightarrow> range_req q u x y = Inr p \<longrightarrow>
     Q s \<longrightarrow> Q (snd (request T p op s)))"

lemma att_scan_keeps:
  assumes "kept_by_ranges T Q" "(q, op) \<in> range_ops" "Q s"
  shows "Q (snd (att_scan T op (range_req q u) parse e start r s))"
  using assms
proof (induction T op "range_req q u" parse e start r s rule: att_scan.induct)
  case (1 T op parse e start r s)
  have Q: "Q s'" if "range_req q u start e = Inr p" "request T p op s = (x, s')" for p x s'
    using 1(2-4) that unfolding kept_by_ranges_def by (metis snd_conv)
  note IH = 1(1) [OF _ _ _ _ _ _ _ _ 1(2,3)]
  show ?case
    using IH 1(4) Q by (subst att_scan.simps) (auto simp: Let_def split: prod.split sum.split)
qed

lemma sx_bind_keeps:
  assumes "Q (snd (m s))" "\<And>x s'. m s = (Inr x, s') \<Longrightarrow> Q s' \<Longrightarrow> Q (snd (f x s'))"
  shows "Q (snd (sx_bind m f s))"
  using assms by (auto simp: sx_bind_def split: prod.split sum.split)

lemma sx_lift_keeps: "Q s \<Longrightarrow> Q (snd (sx_lift r s))"
  by simp

lemma procedures_keep:
  assumes "kept_by_ranges T Q" "Q s"
  shows "Q (snd (read_by_group_type T a b u s))" "Q (snd (read_by_type T a b u s))"
    "Q (snd (find_information T a b s))"
  unfolding read_by_group_type_def read_by_type_def find_information_def
  by (rule att_scan_keeps [OF assms(1) _ assms(2)], simp add: range_ops_def)+

lemma discover_descriptors_keeps:
  assumes "kept_by_ranges T Q" "Q s" shows "Q (snd (discover_descriptors T c s))"
proof (cases "c_end_handle c > c_value_handle c")
  case True
  then show ?thesis
    unfolding discover_descriptors_def using procedures_keep(3) [OF assms]
    by (simp only: if_True) (rule sx_bind_keeps, assumption, rule sx_lift_keeps)
qed (simp add: discover_descriptors_def assms(2))

lemma discover_service_keeps:
  assumes "kept_by_ranges T Q" "Q s" shows "Q (snd (discover_service T c s))"
  unfolding discover_service_def
proof (intro sx_bind_keeps [where Q = Q])
  show "Q (snd (read_by_type T (s_handle c) (s_end_handle c) CHARACTERISTIC s))"
    by (rule procedures_keep(2) [OF assms])
  show "Q (snd (sx_lift (rmap characteristic_of es) s1))" if "Q s1" for es s1
    using that by simp
  show "Q (snd (sx_map (discover_descriptors T) cs s2))" if "Q s2" for cs s2
    by (rule sx_map_keeps [where P = Q, OF discover_descriptors_keeps [OF assms(1)] that])
  show "Q (snd (sx_lift (Inr (c\<lparr>s_characteristics := cs\<rparr>)) s3))" if "Q s3" for cs s3
    using that by simp
qed

lemma discover_keeps:
  assumes "kept_by_ranges T Q" "Q s" shows "Q (snd (discover T s))"
  unfolding discover_def
proof (intro sx_bind_keeps [where Q = Q])
  show "Q (snd (read_by_group_type T 1 0xFFFF PRIMARY_SERVICE s))"
    by (rule procedures_keep(1) [OF assms])
  show "Q (snd (sx_lift (rmap service_of gs) s1))" if "Q s1" for gs s1
    using that by simp
  show "Q (snd (sx_map (discover_service T) ss s2))" if "Q s2" for ss s2
    by (rule sx_map_keeps [where P = Q, OF discover_service_keeps [OF assms(1)] that])
qed


section \<open>A peer that serves a table\<close>

text \<open>
  Entries of a table: the first and the last handle and what the client makes of the entry; they
  are disjoint and ascending.  The peer answers a request for the handles from \<open>start\<close> to \<open>hi\<close> with a
  non-empty page of the entries that begin there, in order, or that there is none.
\<close>

locale att_table =
  fixes T :: "'t transport" and inv :: "'t \<Rightarrow> bool" and op :: int
    and pdu :: "int \<Rightarrow> int \<Rightarrow> bytes result" and parse :: "bytes \<Rightarrow> (int \<times> 'r) list result"
    and lo :: int and hi :: int and entries :: "(int \<times> int \<times> 'r) list"
  assumes op_response: "response_opcode op"
    and ascending: "sorted_wrt (\<lambda>a b. fst (snd a) < fst b) entries"
    and in_range: "list_all (\<lambda>a. lo \<le> fst a \<and> fst a \<le> fst (snd a) \<and> fst a \<le> hi \<and> fst a \<le> 0xFFFF) entries"
    and serve: "inv t \<Longrightarrow> lo \<le> start \<Longrightarrow> start \<le> hi \<Longrightarrow> \<exists>p us rsp t'.
      pdu start hi = Inr p \<and> answers T op p t us rsp t' \<and> inv t'
      \<and> (let es = filter (\<lambda>a. start \<le> fst a) entries
         in if es = [] then (\<exists>e. not_found e \<and> decode_response op rsp = Inl e)
            else opcode_of rsp = op
              \<and> (\<exists>n>0. parse rsp = Inr (map snd (take n es))))"
begin

text \<open>What is left after a page begins after its last entry.\<close>

lemma rest_of_page:
  assumes "es = filter (\<lambda>a. start \<le> fst a) entries" "es = xs @ e # ys"
  shows "filter (\<lambda>a. fst (snd e) + 1 \<le> fst a) entries = ys"
proof -
  have "e \<in> set (filter (\<lambda>a. start \<le> fst a) entries)" unfolding assms(1) [symmetric] assms(2) by simp
  then have e: "start \<le> fst e" "fst e \<le> fst (snd e)"
    using in_range by (auto simp: list_all_iff)
  have s: "sorted_wrt (\<lambda>a b. fst (snd a) < fst b) (xs @ e # ys)"
    using ascending assms by (metis sorted_wrt_filter)
  have r: "\<And>a. a \<in> set (xs @ e # ys) \<Longrightarrow> fst a \<le> fst (snd a)"
    unfolding assms(2) [symmetric] assms(1) using in_range by (auto simp: list_all_iff)
  have "filter (\<lambda>a. fst (snd e) + 1 \<le> fst a) entries
      = filter (\<lambda>a. fst (snd e) + 1 \<le> fst a) (filter (\<lambda>a. start \<le> fst a) entries)"
    using e by (auto simp: intro!: filter_cong)
  also have "\<dots> = filter (\<lambda>a. fst (snd e) + 1 \<le> fst a) (xs @ e # ys)"
    using assms by simp
  also have "\<dots> = ys"
  proof -
    have "\<not> fst (snd e) + 1 \<le> fst a" if "a \<in> set xs" for a
      using that s r [of a] e(2) by (auto simp: sorted_wrt_append)
    moreover have "fst (snd e) + 1 \<le> fst a" if "a \<in> set ys" for a
      using that s by (auto simp: sorted_wrt_append)
    ultimately show ?thesis using e(2) by (simp add: filter_empty_conv filter_id_conv)
  qed
  finally show ?thesis .
qed

lemma scan_complete:
  assumes "quiet s" "inv (a_l2 s)" "lo \<le> start"
  shows "\<exists>s'. att_scan T op pdu parse hi start acc s
      = (Inr (acc @ map (snd \<circ> snd) (filter (\<lambda>a. start \<le> fst a) entries)), s') \<and> quiet s' \<and> inv (a_l2 s')"
  using assms
proof (induction "nat (hi + 1 - start)" arbitrary: start acc s rule: less_induct)
  case less
  let ?es = "filter (\<lambda>a. start \<le> fst a) entries"
  show ?case
  proof (cases "start \<le> hi")
    case False
    then have "?es = []" using in_range by (fastforce simp: filter_empty_conv list_all_iff)
    with False less.prems show ?thesis by (subst att_scan.simps) simp
  next
    case True
    obtain p us rsp t' where a: "pdu start hi = Inr p" "answers T op p (a_l2 s) us rsp t'" "inv t'"
      and r: "if ?es = [] then (\<exists>e. not_found e \<and> decode_response op rsp = Inl e)
        else opcode_of rsp = op \<and> (\<exists>n>0. parse rsp = Inr (map snd (take n ?es)))"
      using serve [OF less.prems(2,3) True] unfolding Let_def by blast
    note q = request_answered [OF less.prems(1) a(2) op_response]
    let ?s = "absorb us t' s"
    have i: "quiet ?s" "inv (a_l2 ?s)" using less.prems(1) a(3) by simp_all
    show ?thesis
    proof (cases "?es = []")
      case True
      with r q a(1) i \<open>start \<le> hi\<close> show ?thesis by (subst att_scan.simps) auto
    next
      case False
      with r obtain n where n: "n > 0" "parse rsp = Inr (map snd (take n ?es))"
        and d: "decode_response op rsp = Inr rsp"
        using decode_ok [OF _ op_response] by auto
      from n(1) False have ne: "take n ?es \<noteq> []" by simp
      define e where "e = last (take n ?es)"
      have page: "?es = butlast (take n ?es) @ e # drop n ?es"
        using ne append_butlast_last_id [OF ne] unfolding e_def
        by (metis append_Cons append_Nil append_assoc append_take_drop_id)
      have "e \<in> set ?es" by (subst page) simp
      then have e: "start \<le> fst e" "fst e \<le> fst (snd e)" "lo \<le> fst e"
        using in_range by (auto simp: list_all_iff)
      have l: "fst (last (map snd (take n ?es))) = fst (snd e)"
        using ne by (simp add: e_def last_map)
      let ?acc = "acc @ map (snd \<circ> snd) (take n ?es)"
      have m: "acc @ map snd (map snd (take n ?es)) = ?acc"
        by (simp add: comp_def)
      note rest = rest_of_page [OF refl page]
      have whole: "map (snd \<circ> snd) (take n ?es) @ map (snd \<circ> snd) (drop n ?es) = map (snd \<circ> snd) ?es"
        by (metis append_take_drop_id map_append)
      have scan: "att_scan T op pdu parse hi start acc s =
        (if fst (snd e) \<ge> 0xFFFF then (Inr ?acc, ?s)
         else att_scan T op pdu parse hi (fst (snd e) + 1) ?acc ?s)"
        using \<open>start \<le> hi\<close> a(1) q d n(2) ne l m e by (subst att_scan.simps) (auto simp: Let_def)
      show ?thesis
      proof (cases "fst (snd e) \<ge> 0xFFFF")
        case True
        then have "filter (\<lambda>a. fst (snd e) + 1 \<le> fst a) entries = []"
          using in_range by (fastforce simp: filter_empty_conv list_all_iff)
        with rest have "drop n ?es = []" by simp
        with whole True scan i show ?thesis by simp
      next
        case False
        have "nat (hi + 1 - (fst (snd e) + 1)) < nat (hi + 1 - start)" "lo \<le> fst (snd e) + 1"
          using e \<open>start \<le> hi\<close> by auto
        from less.hyps [OF this(1) i this(2), of ?acc] whole rest scan False
        show ?thesis by auto
      qed
    qed
  qed
qed

lemma scan_all:
  assumes "quiet s" "inv (a_l2 s)"
  shows "\<exists>s'. att_scan T op pdu parse hi lo [] s = (Inr (map (snd \<circ> snd) entries), s') \<and> quiet s' \<and> inv (a_l2 s')"
proof -
  have "filter (\<lambda>a. lo \<le> fst a) entries = entries"
    using in_range by (auto simp: filter_id_conv list_all_iff)
  with scan_complete [OF assms order.refl, of "[]"] show ?thesis by simp
qed

end

section \<open>A GATT database and its server\<close>

record wire_characteristic =
  wc_decl :: int
  wc_props :: byte
  wc_value_handle :: int
  wc_uuid :: bytes
  wc_descriptors :: "(int \<times> bytes) list"

record wire_service =
  ws_handle :: int
  ws_end :: int
  ws_uuid :: bytes
  ws_characteristics :: "wire_characteristic list"

text \<open>The tree that stands for a database: UUIDs as strings, and the handle each characteristic
  ends with.\<close>

definition uuid_text :: "bytes \<Rightarrow> string" where
  "uuid_text b = (case uuid_from_bytes b of Inr u \<Rightarrow> u | Inl _ \<Rightarrow> [])"

fun char_ends :: "int \<Rightarrow> wire_characteristic list \<Rightarrow> (wire_characteristic \<times> int) list" where
  "char_ends e [] = []"
| "char_ends e [c] = [(c, e)]"
| "char_ends e (c # d # cs) = (c, wc_decl d - 1) # char_ends e (d # cs)"

definition char_tree :: "wire_characteristic \<times> int \<Rightarrow> gatt_characteristic" where
  "char_tree x = (case x of (c, e) \<Rightarrow>
     \<lparr>c_handle = wc_decl c, c_value_handle = wc_value_handle c, c_uuid = uuid_text (wc_uuid c),
      c_properties = uint (wc_props c), c_end_handle = e,
      c_descriptors = map (\<lambda>(h, u). \<lparr>d_handle = h, d_uuid = uuid_text u\<rparr>) (wc_descriptors c)\<rparr>)"

definition service_tree :: "wire_service \<Rightarrow> gatt_service" where
  "service_tree w =
     \<lparr>s_handle = ws_handle w, s_end_handle = ws_end w, s_uuid = uuid_text (ws_uuid w),
      s_characteristics = map char_tree (char_ends (ws_end w) (ws_characteristics w))\<rparr>"

text \<open>Well-formed databases: handles ascend, everything lies in its parent, and UUIDs are of a
  length the wire has.\<close>

definition descriptors_ok :: "wire_characteristic \<times> int \<Rightarrow> bool" where
  "descriptors_ok x = (case x of (c, e) \<Rightarrow>
     sorted_wrt (\<lambda>a b. fst a < fst b) (wc_descriptors c)
     \<and> list_all (\<lambda>(h, u). wc_value_handle c < h \<and> h \<le> e \<and> length u \<in> {2, 16}) (wc_descriptors c))"

definition service_ok :: "wire_service \<Rightarrow> bool" where
  "service_ok w \<longleftrightarrow>
     1 \<le> ws_handle w \<and> ws_handle w \<le> ws_end w \<and> ws_end w \<le> 0xFFFF \<and> length (ws_uuid w) \<in> {2, 16}
     \<and> sorted_wrt (\<lambda>a b. wc_decl a < wc_decl b) (ws_characteristics w)
     \<and> list_all (\<lambda>c. ws_handle w \<le> wc_decl c \<and> wc_decl c \<le> ws_end w
          \<and> 0 \<le> wc_value_handle c \<and> wc_value_handle c \<le> 0xFFFF \<and> length (wc_uuid c) \<in> {2, 16})
          (ws_characteristics w)
     \<and> list_all descriptors_ok (char_ends (ws_end w) (ws_characteristics w))"

definition db_ok :: "wire_service list \<Rightarrow> bool" where
  "db_ok db \<longleftrightarrow> sorted_wrt (\<lambda>a b. ws_end a < ws_handle b) db \<and> list_all service_ok db"

text \<open>Attributes as they appear in a page.\<close>

definition group_bytes :: "wire_service \<Rightarrow> bytes" where
  "group_bytes w = le_bytes 2 (ws_handle w) @ le_bytes 2 (ws_end w) @ ws_uuid w"

definition type_bytes :: "wire_characteristic \<Rightarrow> bytes" where
  "type_bytes c = le_bytes 2 (wc_decl c) @ wc_props c # le_bytes 2 (wc_value_handle c) @ wc_uuid c"

definition info_bytes :: "int \<times> bytes \<Rightarrow> bytes" where
  "info_bytes x = le_bytes 2 (fst x) @ snd x"

text \<open>A response that pages through \<open>es\<close>: entries of one length from the front, or the error that
  there are none.\<close>

definition page_of :: "int \<Rightarrow> (nat \<Rightarrow> byte) \<Rightarrow> bytes list \<Rightarrow> bytes \<Rightarrow> bool" where
  "page_of op tag es rsp \<longleftrightarrow>
     (if es = [] then (\<exists>e. not_found e \<and> decode_response op rsp = Inl e)
      else (\<exists>n len. 0 < n \<and> len < 256 \<and> list_all (\<lambda>e. length e = len) (take n es)
              \<and> rsp = op_byte op # tag len # concat (take n es)))"

locale gatt_server =
  fixes T :: "'t transport" and inv :: "'t \<Rightarrow> bool" and db :: "wire_service list"
  assumes db: "db_ok db"
    and groups: "inv t \<Longrightarrow> 1 \<le> start \<Longrightarrow> start \<le> 0xFFFF \<Longrightarrow> \<exists>us rsp t'.
      answers T READ_BY_GROUP_TYPE_RSP
        (op_byte READ_BY_GROUP_TYPE_REQ # le_bytes 2 start @ le_bytes 2 0xFFFF @ PRIMARY_SERVICE) t us rsp t'
      \<and> inv t' \<and> page_of READ_BY_GROUP_TYPE_RSP of_nat
          (map group_bytes (filter (\<lambda>w. start \<le> ws_handle w) db)) rsp"
    and types: "w \<in> set db \<Longrightarrow> inv t \<Longrightarrow> ws_handle w \<le> start \<Longrightarrow> start \<le> ws_end w \<Longrightarrow> \<exists>us rsp t'.
      answers T READ_BY_TYPE_RSP
        (op_byte READ_BY_TYPE_REQ # le_bytes 2 start @ le_bytes 2 (ws_end w) @ CHARACTERISTIC) t us rsp t'
      \<and> inv t' \<and> page_of READ_BY_TYPE_RSP of_nat
          (map type_bytes (filter (\<lambda>c. start \<le> wc_decl c) (ws_characteristics w))) rsp"
    and infos: "w \<in> set db \<Longrightarrow> (c, e) \<in> set (char_ends (ws_end w) (ws_characteristics w)) \<Longrightarrow>
      inv t \<Longrightarrow> wc_value_handle c < start \<Longrightarrow> start \<le> e \<Longrightarrow> \<exists>us rsp t'.
      answers T FIND_INFO_RSP (op_byte FIND_INFO_REQ # le_bytes 2 start @ le_bytes 2 e) t us rsp t'
      \<and> inv t' \<and> page_of FIND_INFO_RSP (\<lambda>len. if len = 4 then 1 else 2)
          (map info_bytes (filter (\<lambda>d. start \<le> fst d) (wc_descriptors c))) rsp"

text \<open>Parsing a page gives its entries back.\<close>

lemma take_slice_le [simp]:
  "slice 0 2 (le_bytes 2 a @ r) = le_bytes 2 a"
  "slice 2 4 (le_bytes 2 a @ le_bytes 2 b @ r) = le_bytes 2 b"
  by (simp_all add: slice_def)

lemma le16 [simp]: "0 \<le> a \<Longrightarrow> a \<le> 0xFFFF \<Longrightarrow> from_le (le_bytes 2 a) = a"
  by (rule from_le_le_bytes) auto

lemma unat_len [simp]: "len < 256 \<Longrightarrow> unat (of_nat len :: byte) = len"
  by (simp add: unat_of_nat)

lemma page_chunks:
  "0 < len \<Longrightarrow> list_all (\<lambda>e. length e = len) es \<Longrightarrow> chunks len (concat es) = es"
  by (rule chunks_concat) (auto simp: list_all_iff)

lemma parse_groups_page:
  assumes "len < 256" "ws \<noteq> []" "list_all (\<lambda>e. length e = len) (map group_bytes ws)"
    and "list_all (\<lambda>w. 0 \<le> ws_handle w \<and> ws_handle w \<le> 0xFFFF \<and> 0 \<le> ws_end w \<and> ws_end w \<le> 0xFFFF) ws"
  shows "parse_groups (b # of_nat len # concat (map group_bytes ws))
    = Inr (map (\<lambda>w. (ws_end w, (ws_handle w, ws_end w, ws_uuid w))) ws)"
proof -
  have "0 < len" using assms(2,3) by (cases ws) (auto simp: group_bytes_def)
  moreover have "map (\<lambda>e. (from_le (slice 2 4 e), (from_le (slice 0 2 e), from_le (slice 2 4 e), slice 4 len e)))
      (map group_bytes ws) = map (\<lambda>w. (ws_end w, (ws_handle w, ws_end w, ws_uuid w))) ws"
    using assms(3,4) by (induction ws) (auto simp: group_bytes_def slice_def)
  ultimately show ?thesis
    using assms(1) page_chunks [OF _ assms(3)] by (simp add: parse_groups_def Let_def)
qed

lemma parse_types_page:
  assumes "len < 256" "cs \<noteq> []" "list_all (\<lambda>e. length e = len) (map type_bytes cs)"
    and "list_all (\<lambda>c. 0 \<le> wc_decl c \<and> wc_decl c \<le> 0xFFFF) cs"
  shows "parse_types (b # of_nat len # concat (map type_bytes cs))
    = Inr (map (\<lambda>c. (wc_decl c, (wc_decl c, wc_props c # le_bytes 2 (wc_value_handle c) @ wc_uuid c))) cs)"
proof -
  have "0 < len" using assms(2,3) by (cases cs) (auto simp: type_bytes_def)
  moreover have "map (\<lambda>e. (from_le (slice 0 2 e), (from_le (slice 0 2 e), slice 2 len e))) (map type_bytes cs)
      = map (\<lambda>c. (wc_decl c, (wc_decl c, wc_props c # le_bytes 2 (wc_value_handle c) @ wc_uuid c))) cs"
    using assms(3,4) by (induction cs) (auto simp: type_bytes_def slice_def)
  ultimately show ?thesis
    using assms(1) page_chunks [OF _ assms(3)] by (simp add: parse_types_def Let_def)
qed

lemma uuid_text_eq: "length u \<in> {2, 16} \<Longrightarrow> uuid_from_bytes u = Inr (uuid_text u)"
  by (auto simp: uuid_text_def uuid_from_bytes_2 uuid_from_bytes_16)

lemma parse_info_page:
  assumes "ds \<noteq> []" "list_all (\<lambda>e. length e = len) (map info_bytes ds)"
    and "list_all (\<lambda>(h, u). 0 \<le> h \<and> h \<le> 0xFFFF \<and> length u \<in> {2, 16}) ds"
  shows "parse_info (b # (if len = 4 then 1 else 2) # concat (map info_bytes ds))
    = Inr (map (\<lambda>(h, u). (h, (h, uuid_text u))) ds)"
proof -
  have len: "len = 4 \<or> len = 18" using assms by (cases ds) (auto simp: info_bytes_def)
  have "rmap (\<lambda>e. rbind (uuid_from_bytes (slice 2 len e)) (\<lambda>u. Inr (from_le (slice 0 2 e), (from_le (slice 0 2 e), u))))
      (map info_bytes ds) = Inr (map (\<lambda>(h, u). (h, (h, uuid_text u))) ds)"
    using assms(2,3)
  proof (induction ds)
    case (Cons d ds)
    then have "uuid_from_bytes (slice 2 len (info_bytes d)) = Inr (uuid_text (snd d))"
      by (auto simp: info_bytes_def slice_def intro!: uuid_text_eq)
    with Cons show ?case by (auto simp: info_bytes_def)
  qed simp
  then show ?thesis
    using len page_chunks [OF _ assms(2)] by (auto simp: parse_info_def Let_def)
qed


lemma range_req_eq:
  "0 \<le> a \<Longrightarrow> a \<le> 0xFFFF \<Longrightarrow> 0 \<le> b \<Longrightarrow> b \<le> 0xFFFF \<Longrightarrow>
   range_req op u a b = Inr (op_byte op # le_bytes 2 a @ le_bytes 2 b @ u)"
  by (simp add: range_req_def to_le_def)

lemma filter_map_item: "filter (\<lambda>a. x \<le> fst a) (map item ws) = map item (filter (\<lambda>w. x \<le> fst (item w)) ws)"
  by (simp add: filter_map comp_def)

text \<open>A page of an encoded table is a page of the table.\<close>

lemma page_of_table:
  assumes "page_of op tag (map enc ws) rsp" "response_opcode op"
    and "\<And>n len. 0 < n \<Longrightarrow> ws \<noteq> [] \<Longrightarrow> len < 256 \<Longrightarrow>
      list_all (\<lambda>e. length e = len) (map enc (take n ws)) \<Longrightarrow>
      parse (op_byte op # tag len # concat (map enc (take n ws))) = Inr (map (\<lambda>w. snd (item w)) (take n ws))"
    and "ws = filter (\<lambda>w. x \<le> fst (item w)) db"
  shows "let es = filter (\<lambda>a. x \<le> fst a) (map item db) in
    if es = [] then (\<exists>e. not_found e \<and> decode_response op rsp = Inl e)
    else opcode_of rsp = op \<and> (\<exists>n>0. parse rsp = Inr (map snd (take n es)))"
proof (cases "ws = []")
  case True
  with assms(1) show ?thesis by (simp add: page_of_def filter_map_item assms(4) [symmetric])
next
  case False
  have e: "filter (\<lambda>a. x \<le> fst a) (map item db) = map item ws"
    by (simp only: filter_map_item assms(4))
  from False assms(1) obtain n len where "0 < n" "len < 256" "list_all (\<lambda>e. length e = len) (map enc (take n ws))"
    "rsp = op_byte op # tag len # concat (map enc (take n ws))"
    by (auto simp: page_of_def take_map)
  with False assms(2,3) show ?thesis
    unfolding e Let_def by (auto simp: take_map comp_def intro!: exI [of _ n])
qed

lemma list_all_take_filter: "list_all P xs \<Longrightarrow> list_all P (take n (filter Q xs))"
  by (auto simp: list_all_iff dest: in_set_takeD)

context gatt_server
begin

lemma service_facts:
  assumes "w \<in> set db" shows "service_ok w"
  using assms db by (auto simp: db_ok_def list_all_iff)

lemma group_table:
  "att_table T inv READ_BY_GROUP_TYPE_RSP (range_req READ_BY_GROUP_TYPE_REQ PRIMARY_SERVICE)
     parse_groups 1 0xFFFF (map (\<lambda>w. (ws_handle w, ws_end w, (ws_handle w, ws_end w, ws_uuid w))) db)"
  (is "att_table _ _ _ _ _ _ _ (map ?item db)")
proof
  show "sorted_wrt (\<lambda>a b. fst (snd a) < fst b) (map ?item db)"
    using db by (simp add: db_ok_def sorted_wrt_map)
  have ok: "list_all (\<lambda>w. 1 \<le> ws_handle w \<and> ws_handle w \<le> ws_end w \<and> ws_end w \<le> 0xFFFF) db"
    using service_facts by (auto simp: list_all_iff service_ok_def)
  then show "list_all (\<lambda>a. 1 \<le> fst a \<and> fst a \<le> fst (snd a) \<and> fst a \<le> 0xFFFF \<and> fst a \<le> 0xFFFF) (map ?item db)"
    by (auto simp: list_all_iff)
  fix t and start :: int
  assume t: "inv t" "1 \<le> start" "start \<le> 0xFFFF"
  let ?ws = "filter (\<lambda>w. start \<le> ws_handle w) db"
  obtain us rsp t' where a: "answers T READ_BY_GROUP_TYPE_RSP
        (op_byte READ_BY_GROUP_TYPE_REQ # le_bytes 2 start @ le_bytes 2 0xFFFF @ PRIMARY_SERVICE) t us rsp t'"
    "inv t'" "page_of READ_BY_GROUP_TYPE_RSP of_nat (map group_bytes ?ws) rsp"
    using groups [OF t] by blast
  have r: "range_req READ_BY_GROUP_TYPE_REQ PRIMARY_SERVICE start 0xFFFF =
      Inr (op_byte READ_BY_GROUP_TYPE_REQ # le_bytes 2 start @ le_bytes 2 0xFFFF @ PRIMARY_SERVICE)"
    using t by (simp add: range_req_eq)
  have "list_all (\<lambda>w. 0 \<le> ws_handle w \<and> ws_handle w \<le> 0xFFFF \<and> 0 \<le> ws_end w \<and> ws_end w \<le> 0xFFFF) db"
    using ok by (auto simp: list_all_iff)
  then have p: "parse_groups (op_byte READ_BY_GROUP_TYPE_RSP # of_nat len # concat (map group_bytes (take n ?ws)))
      = Inr (map (\<lambda>w. snd (?item w)) (take n ?ws))"
    if "0 < n" "?ws \<noteq> []" "len < 256" "list_all (\<lambda>e. length e = len) (map group_bytes (take n ?ws))" for n len
    using that by (subst parse_groups_page) (auto simp: list_all_take_filter)
  have "let es = filter (\<lambda>a. start \<le> fst a) (map ?item db)
        in if es = [] then \<exists>e. not_found e \<and> decode_response READ_BY_GROUP_TYPE_RSP rsp = Inl e
           else opcode_of rsp = READ_BY_GROUP_TYPE_RSP \<and> (\<exists>n>0. parse_groups rsp = Inr (map snd (take n es)))"
    by (rule page_of_table [OF a(3) response_opcodes(5) p]) simp_all
  with r a(1,2) show "\<exists>p us rsp t'. range_req READ_BY_GROUP_TYPE_REQ PRIMARY_SERVICE start 65535 = Inr p \<and>
       answers T READ_BY_GROUP_TYPE_RSP p t us rsp t' \<and> inv t' \<and>
       (let es = filter (\<lambda>a. start \<le> fst a) (map ?item db)
        in if es = [] then \<exists>e. not_found e \<and> decode_response READ_BY_GROUP_TYPE_RSP rsp = Inl e
           else opcode_of rsp = READ_BY_GROUP_TYPE_RSP \<and> (\<exists>n>0. parse_groups rsp = Inr (map snd (take n es))))"
    by blast
qed simp_all

lemma type_table:
  assumes "w \<in> set db"
  shows "att_table T inv READ_BY_TYPE_RSP (range_req READ_BY_TYPE_REQ CHARACTERISTIC) parse_types
     (ws_handle w) (ws_end w)
     (map (\<lambda>c. (wc_decl c, wc_decl c, (wc_decl c, wc_props c # le_bytes 2 (wc_value_handle c) @ wc_uuid c)))
        (ws_characteristics w))"
  (is "att_table _ _ _ _ _ _ _ (map ?item ?cs)")
proof
  note w = service_facts [OF assms]
  show "sorted_wrt (\<lambda>a b. fst (snd a) < fst b) (map ?item ?cs)"
    using w by (simp add: service_ok_def sorted_wrt_map)
  show "list_all (\<lambda>a. ws_handle w \<le> fst a \<and> fst a \<le> fst (snd a) \<and> fst a \<le> ws_end w \<and> fst a \<le> 0xFFFF) (map ?item ?cs)"
    using w by (auto simp: list_all_iff service_ok_def)
  fix t and start :: int
  assume t: "inv t" "ws_handle w \<le> start" "start \<le> ws_end w"
  let ?ws = "filter (\<lambda>c. start \<le> wc_decl c) ?cs"
  obtain us rsp t' where a: "answers T READ_BY_TYPE_RSP
        (op_byte READ_BY_TYPE_REQ # le_bytes 2 start @ le_bytes 2 (ws_end w) @ CHARACTERISTIC) t us rsp t'"
    "inv t'" "page_of READ_BY_TYPE_RSP of_nat (map type_bytes ?ws) rsp"
    using types [OF assms t] by blast
  have r: "range_req READ_BY_TYPE_REQ CHARACTERISTIC start (ws_end w) =
      Inr (op_byte READ_BY_TYPE_REQ # le_bytes 2 start @ le_bytes 2 (ws_end w) @ CHARACTERISTIC)"
    using t w by (simp add: range_req_eq service_ok_def)
  have "list_all (\<lambda>c. 0 \<le> wc_decl c \<and> wc_decl c \<le> 0xFFFF) ?cs"
    using w by (auto simp: list_all_iff service_ok_def)
  then have p: "parse_types (op_byte READ_BY_TYPE_RSP # of_nat len # concat (map type_bytes (take n ?ws)))
      = Inr (map (\<lambda>c. snd (?item c)) (take n ?ws))"
    if "0 < n" "?ws \<noteq> []" "len < 256" "list_all (\<lambda>e. length e = len) (map type_bytes (take n ?ws))" for n len
    using that by (subst parse_types_page) (auto simp: list_all_take_filter)
  have "let es = filter (\<lambda>a. start \<le> fst a) (map ?item ?cs)
        in if es = [] then \<exists>e. not_found e \<and> decode_response READ_BY_TYPE_RSP rsp = Inl e
           else opcode_of rsp = READ_BY_TYPE_RSP \<and> (\<exists>n>0. parse_types rsp = Inr (map snd (take n es)))"
    by (rule page_of_table [OF a(3) response_opcodes(4) p]) simp_all
  with r a(1,2) show "\<exists>p us rsp t'. range_req READ_BY_TYPE_REQ CHARACTERISTIC start (ws_end w) = Inr p \<and>
       answers T READ_BY_TYPE_RSP p t us rsp t' \<and> inv t' \<and>
       (let es = filter (\<lambda>a. start \<le> fst a) (map ?item ?cs)
        in if es = [] then \<exists>e. not_found e \<and> decode_response READ_BY_TYPE_RSP rsp = Inl e
           else opcode_of rsp = READ_BY_TYPE_RSP \<and> (\<exists>n>0. parse_types rsp = Inr (map snd (take n es))))"
    by blast
qed simp_all

lemma info_table:
  assumes "w \<in> set db" "(c, e) \<in> set (char_ends (ws_end w) (ws_characteristics w))" "e \<le> 0xFFFF"
    "0 \<le> wc_value_handle c"
  shows "att_table T inv FIND_INFO_RSP (range_req FIND_INFO_REQ []) parse_info
     (wc_value_handle c + 1) e (map (\<lambda>d. (fst d, fst d, (fst d, uuid_text (snd d)))) (wc_descriptors c))"
  (is "att_table _ _ _ _ _ _ _ (map ?item ?ds)")
proof
  have d: "descriptors_ok (c, e)"
    using service_facts [OF assms(1)] assms(2) by (auto simp: service_ok_def list_all_iff)
  show "sorted_wrt (\<lambda>a b. fst (snd a) < fst b) (map ?item ?ds)"
    using d by (simp add: descriptors_ok_def sorted_wrt_map)
  show "list_all (\<lambda>a. wc_value_handle c + 1 \<le> fst a \<and> fst a \<le> fst (snd a) \<and> fst a \<le> e \<and> fst a \<le> 0xFFFF) (map ?item ?ds)"
    using d assms(3) by (auto simp: list_all_iff descriptors_ok_def split_beta)
  fix t and start :: int
  assume t: "inv t" "wc_value_handle c + 1 \<le> start" "start \<le> e"
  let ?ws = "filter (\<lambda>d. start \<le> fst d) ?ds"
  obtain us rsp t' where a: "answers T FIND_INFO_RSP
        (op_byte FIND_INFO_REQ # le_bytes 2 start @ le_bytes 2 e) t us rsp t'"
    "inv t'" "page_of FIND_INFO_RSP (\<lambda>len. if len = 4 then 1 else 2) (map info_bytes ?ws) rsp"
    using infos [OF assms(1,2) t(1) _ t(3)] t(2) by auto
  have r: "range_req FIND_INFO_REQ [] start e =
      Inr (op_byte FIND_INFO_REQ # le_bytes 2 start @ le_bytes 2 e)"
    using t assms(3,4) by (simp add: range_req_eq)
  have l: "list_all (\<lambda>(h, u). 0 \<le> h \<and> h \<le> 0xFFFF \<and> length u \<in> {2, 16}) ?ds"
    using d assms(3,4) by (auto simp: list_all_iff descriptors_ok_def)
  have p: "parse_info (op_byte FIND_INFO_RSP # (if len = 4 then 1 else 2) # concat (map info_bytes (take n ?ws)))
      = Inr (map (\<lambda>d. snd (?item d)) (take n ?ws))"
    if "0 < n" "?ws \<noteq> []" "len < 256" "list_all (\<lambda>e. length e = len) (map info_bytes (take n ?ws))" for n len
    using that parse_info_page [OF _ that(4) list_all_take_filter [OF l]] by (simp add: split_beta)
  have "let es = filter (\<lambda>a. start \<le> fst a) (map ?item ?ds)
        in if es = [] then \<exists>e. not_found e \<and> decode_response FIND_INFO_RSP rsp = Inl e
           else opcode_of rsp = FIND_INFO_RSP \<and> (\<exists>n>0. parse_info rsp = Inr (map snd (take n es)))"
    by (rule page_of_table [OF a(3) response_opcodes(6) p]) simp_all
  with r a(1,2) show "\<exists>p us rsp t'. range_req FIND_INFO_REQ [] start e = Inr p \<and>
       answers T FIND_INFO_RSP p t us rsp t' \<and> inv t' \<and>
       (let es = filter (\<lambda>a. start \<le> fst a) (map ?item ?ds)
        in if es = [] then \<exists>e. not_found e \<and> decode_response FIND_INFO_RSP rsp = Inl e
           else opcode_of rsp = FIND_INFO_RSP \<and> (\<exists>n>0. parse_info rsp = Inr (map snd (take n es))))"
    by blast
qed simp_all

end

sublocale gatt_server \<subseteq> group_scan: att_table T inv READ_BY_GROUP_TYPE_RSP
    "range_req READ_BY_GROUP_TYPE_REQ PRIMARY_SERVICE" parse_groups 1 "0xFFFF"
    "map (\<lambda>w. (ws_handle w, ws_end w, (ws_handle w, ws_end w, ws_uuid w))) db"
  by (rule group_table)


section \<open>Discovery finds the database\<close>

lemma sx_map_map: "sx_map f (map g xs) = sx_map (\<lambda>x. f (g x)) xs"
  by (induction xs) auto

lemma set_ends_chars:
  "set_ends e (map (\<lambda>c. (char_tree (c, 0))\<lparr>c_end_handle := 0, c_descriptors := []\<rparr>) cs)
   = map (\<lambda>x. (char_tree x)\<lparr>c_descriptors := []\<rparr>) (char_ends e cs)"
  by (induction e cs rule: char_ends.induct) (auto simp: char_tree_def)

lemma char_ends_fst: "map fst (char_ends e cs) = cs"
  by (induction e cs rule: char_ends.induct) auto

lemma char_ends_le:
  "(c, x) \<in> set (char_ends e cs) \<Longrightarrow> list_all (\<lambda>c. wc_decl c \<le> e) cs \<Longrightarrow> x \<le> e"
  by (induction e cs rule: char_ends.induct) auto

lemma rmap_characteristics:
  assumes "list_all (\<lambda>c. 0 \<le> wc_value_handle c \<and> wc_value_handle c \<le> 0xFFFF \<and> length (wc_uuid c) \<in> {2, 16}) cs"
  shows "rmap characteristic_of
      (map (\<lambda>c. (wc_decl c, wc_props c # le_bytes 2 (wc_value_handle c) @ wc_uuid c)) cs)
    = Inr (map (\<lambda>c. (char_tree (c, 0))\<lparr>c_end_handle := 0, c_descriptors := []\<rparr>) cs)"
  using assms
  by (induction cs)
    (auto simp: characteristic_of_def char_tree_def slice_def uuid_text_eq Let_def)

lemma rmap_services:
  assumes "list_all (\<lambda>w. length (ws_uuid w) \<in> {2, 16}) ws"
  shows "rmap service_of (map (\<lambda>w. (ws_handle w, ws_end w, ws_uuid w)) ws)
    = Inr (map (\<lambda>w. (service_tree w)\<lparr>s_characteristics := []\<rparr>) ws)"
  using assms by (induction ws) (auto simp: service_of_def service_tree_def uuid_text_eq)

context gatt_server
begin

definition served :: "('t, 'h) att \<Rightarrow> bool" where
  "served s \<longleftrightarrow> quiet s \<and> inv (a_l2 s)"

lemma descriptors_found:
  assumes "w \<in> set db" "x \<in> set (char_ends (ws_end w) (ws_characteristics w))" "served s"
  shows "\<exists>s'. discover_descriptors T ((char_tree x)\<lparr>c_descriptors := []\<rparr>) s = (Inr (char_tree x), s') \<and> served s'"
proof -
  obtain c e where x: "x = (c, e)" by (cases x)
  note w = service_facts [OF assms(1)]
  have d: "descriptors_ok (c, e)" using w assms(2) x by (auto simp: service_ok_def list_all_iff)
  have "c \<in> set (ws_characteristics w)"
    using assms(2) char_ends_fst [of "ws_end w" "ws_characteristics w"] x by (metis fst_conv image_eqI list.set_map)
  then have v: "0 \<le> wc_value_handle c" using w by (auto simp: service_ok_def list_all_iff)
  have e: "e \<le> 0xFFFF"
    using char_ends_le [of c e "ws_end w" "ws_characteristics w"] assms(2) w x
    by (force simp: service_ok_def list_all_iff)
  show ?thesis
  proof (cases "wc_value_handle c < e")
    case False
    with d have "wc_descriptors c = []" by (cases "wc_descriptors c") (auto simp: descriptors_ok_def)
    with False assms(3) x show ?thesis by (simp add: discover_descriptors_def char_tree_def)
  next
    case True
    from assms(3) have s: "quiet s" "inv (a_l2 s)" by (simp_all add: served_def)
    have "(c, e) \<in> set (char_ends (ws_end w) (ws_characteristics w))" using assms(2) x by simp
    from att_table.scan_all [OF info_table [OF assms(1) this e v] s]
    obtain s' where "find_information T (wc_value_handle c + 1) e s
        = (Inr (map (\<lambda>d. (fst d, uuid_text (snd d))) (wc_descriptors c)), s')" "served s'"
      by (auto simp: find_information_def served_def comp_def)
    with True x show ?thesis
      by (simp add: discover_descriptors_def char_tree_def split_beta comp_def)
  qed
qed

lemma service_found:
  assumes "w \<in> set db" "served s"
  shows "\<exists>s'. discover_service T ((service_tree w)\<lparr>s_characteristics := []\<rparr>) s = (Inr (service_tree w), s') \<and> served s'"
proof -
  let ?cs = "ws_characteristics w"
  from assms(2) have s: "quiet s" "inv (a_l2 s)" by (simp_all add: served_def)
  from att_table.scan_all [OF type_table [OF assms(1)] s]
  obtain s1 where 1: "read_by_type T (ws_handle w) (ws_end w) CHARACTERISTIC s
      = (Inr (map (\<lambda>c. (wc_decl c, wc_props c # le_bytes 2 (wc_value_handle c) @ wc_uuid c)) ?cs), s1)"
    "served s1"
    by (auto simp: read_by_type_def served_def comp_def)
  have 2: "rmap characteristic_of
      (map (\<lambda>c. (wc_decl c, wc_props c # le_bytes 2 (wc_value_handle c) @ wc_uuid c)) ?cs)
    = Inr (map (\<lambda>c. (char_tree (c, 0))\<lparr>c_end_handle := 0, c_descriptors := []\<rparr>) ?cs)"
    by (rule rmap_characteristics)
      (use service_facts [OF assms(1)] in \<open>auto simp: service_ok_def list_all_iff\<close>)
  have "\<exists>s'. sx_map (\<lambda>x. discover_descriptors T ((char_tree x)\<lparr>c_descriptors := []\<rparr>))
      (char_ends (ws_end w) ?cs) s1 = (Inr (map char_tree (char_ends (ws_end w) ?cs)), s') \<and> served s'"
    by (rule sx_map_returns) (use descriptors_found [OF assms(1)] 1(2) in auto)
  then obtain s2 where 3: "sx_map (discover_descriptors T)
      (set_ends (ws_end w) (map (\<lambda>c. (char_tree (c, 0))\<lparr>c_end_handle := 0, c_descriptors := []\<rparr>) ?cs)) s1
      = (Inr (map char_tree (char_ends (ws_end w) ?cs)), s2)" "served s2"
    by (auto simp: set_ends_chars sx_map_map)
  from 1 2 3 show ?thesis
    by (simp add: discover_service_def service_tree_def)
qed

lemma discover_finds:
  assumes "served s"
  shows "\<exists>s'. discover T s = (Inr (map service_tree db), s') \<and> served s'"
proof -
  from assms have s: "quiet s" "inv (a_l2 s)" by (simp_all add: served_def)
  from group_scan.scan_all [OF s]
  obtain s1 where 1: "read_by_group_type T 1 0xFFFF PRIMARY_SERVICE s
      = (Inr (map (\<lambda>w. (ws_handle w, ws_end w, ws_uuid w)) db), s1)" "served s1"
    by (auto simp: read_by_group_type_def served_def comp_def)
  have 2: "rmap service_of (map (\<lambda>w. (ws_handle w, ws_end w, ws_uuid w)) db)
      = Inr (map (\<lambda>w. (service_tree w)\<lparr>s_characteristics := []\<rparr>) db)"
    by (rule rmap_services) (use service_facts in \<open>auto simp: service_ok_def list_all_iff\<close>)
  have "\<exists>s'. sx_map (\<lambda>w. discover_service T ((service_tree w)\<lparr>s_characteristics := []\<rparr>)) db s1
      = (Inr (map service_tree db), s') \<and> served s'"
    by (rule sx_map_returns) (use service_found 1(2) in auto)
  with 1 2 show ?thesis by (simp add: discover_def sx_map_map)
qed

lemma discover_database:
  "quiet s \<Longrightarrow> inv (a_l2 s) \<Longrightarrow>
   \<exists>s'. discover T s = (Inr (map service_tree db), s') \<and> quiet s' \<and> inv (a_l2 s')"
  using discover_finds [of s] by (simp add: served_def)

end

text \<open>C4.  Discovery over any peer that serves a well-formed database, paging its answers as it likes
  and with any strays around them, returns that database as a tree: every service with its
  characteristics and their descriptors, in order, nothing missed and nothing twice, each
  characteristic ending where the next one is declared.\<close>

theorem discover_finds_database:
  assumes "gatt_server T ok db" "quiet s" "ok (a_l2 s)"
  shows "\<exists>s'. discover T s = (Inr (map service_tree db), s') \<and> quiet s' \<and> ok (a_l2 s')"
  by (rule gatt_server.discover_database [OF assms])

end
