(* ===== verification/GATT_Objects.thy ===== *)
theory GATT_Objects
  imports ATT_Discovery
begin

text \<open>
  \<open>bluek/characteristic.py\<close> and the property flags of \<open>_att.py\<close>: the wrappers around the discovered
  tree and the service collection with its three indexes.  A wrapper's \<open>obj\<close> is the tree node it was
  built from and is not repeated.  The indexes are maps; where the code's dictionaries overwrite (by
  handle) or keep (by UUID), so do they.
\<close>

section \<open>Property flags\<close>

datatype char_prop = Broadcast | Read | WriteNoResponse | Write | Notify | Indicate | AuthSignedWrites | Extended

fun prop_flag :: "char_prop \<Rightarrow> int" where
  "prop_flag Broadcast = 0x01"
| "prop_flag Read = 0x02"
| "prop_flag WriteNoResponse = 0x04"
| "prop_flag Write = 0x08"
| "prop_flag Notify = 0x10"
| "prop_flag Indicate = 0x20"
| "prop_flag AuthSignedWrites = 0x40"
| "prop_flag Extended = 0x80"

fun prop_name :: "char_prop \<Rightarrow> string" where
  "prop_name Broadcast = ''broadcast''"
| "prop_name Read = ''read''"
| "prop_name WriteNoResponse = ''write-without-response''"
| "prop_name Write = ''write''"
| "prop_name Notify = ''notify''"
| "prop_name Indicate = ''indicate''"
| "prop_name AuthSignedWrites = ''authenticated-signed-writes''"
| "prop_name Extended = ''extended-properties''"

text \<open>Properties are ordered by their flags, the order in which the code lists them.\<close>

lemma prop_flag_inj: "prop_flag p = prop_flag q \<longleftrightarrow> p = q"
  by (cases p; cases q) simp_all

instantiation char_prop :: linorder
begin

definition less_eq_char_prop :: "char_prop \<Rightarrow> char_prop \<Rightarrow> bool" where
  "less_eq_char_prop p q \<longleftrightarrow> prop_flag p \<le> prop_flag q"

definition less_char_prop :: "char_prop \<Rightarrow> char_prop \<Rightarrow> bool" where
  "less_char_prop p q \<longleftrightarrow> prop_flag p < prop_flag q"

instance
  by standard (auto simp: less_eq_char_prop_def less_char_prop_def prop_flag_inj)

end

definition property_map :: "char_prop list" where
  "property_map = [Broadcast, Read, WriteNoResponse, Write, Notify, Indicate, AuthSignedWrites, Extended]"

definition properties_to_strings :: "int \<Rightarrow> string list" where
  "properties_to_strings properties =
     map prop_name (filter (\<lambda>p. properties AND prop_flag p \<noteq> 0) property_map)"

lemma property_map_sorted: "sorted_wrt (<) property_map" "set property_map = UNIV"
proof -
  show "sorted_wrt (<) property_map" by (simp add: property_map_def less_char_prop_def)
  show "set property_map = UNIV" using char_prop.exhaust by (auto simp: property_map_def) 
qed

lemma prop_name_inj: "prop_name p = prop_name q \<longleftrightarrow> p = q"
  by (cases p; cases q) simp_all

lemma prop_listed: "prop_name p \<in> set (properties_to_strings v) \<longleftrightarrow> v AND prop_flag p \<noteq> 0"
  using property_map_sorted(2) by (auto simp: properties_to_strings_def prop_name_inj)


section \<open>Wrappers\<close>

record bleak_descriptor =
  bd_handle :: int
  bd_uuid :: string
  bd_characteristic_uuid :: string

record bleak_characteristic =
  bc_handle :: int
  bc_value_handle :: int
  bc_uuid :: string
  bc_properties :: "string list"
  bc_service_uuid :: string
  bc_descriptors :: "bleak_descriptor list"

record bleak_service =
  bs_handle :: int
  bs_uuid :: string
  bs_characteristics :: "bleak_characteristic list"

definition bleak_gatt_descriptor :: "string \<Rightarrow> gatt_descriptor \<Rightarrow> bleak_descriptor" where
  "bleak_gatt_descriptor characteristic_uuid desc =
     \<lparr>bd_handle = d_handle desc, bd_uuid = d_uuid desc,
      bd_characteristic_uuid = characteristic_uuid\<rparr>"

definition bleak_gatt_characteristic :: "string \<Rightarrow> gatt_characteristic \<Rightarrow> bleak_characteristic" where
  "bleak_gatt_characteristic service_uuid char =
     \<lparr>bc_handle = c_handle char, bc_value_handle = c_value_handle char, bc_uuid = c_uuid char,
      bc_properties = properties_to_strings (c_properties char), bc_service_uuid = service_uuid,
      bc_descriptors = map (bleak_gatt_descriptor (c_uuid char)) (c_descriptors char)\<rparr>"

definition bleak_gatt_service :: "gatt_service \<Rightarrow> bleak_service" where
  "bleak_gatt_service svc =
     \<lparr>bs_handle = s_handle svc, bs_uuid = s_uuid svc,
      bs_characteristics = map (bleak_gatt_characteristic (s_uuid svc)) (s_characteristics svc)\<rparr>"

definition char_get_descriptor :: "py_spec \<Rightarrow> bleak_characteristic \<Rightarrow> bleak_descriptor option" where
  "char_get_descriptor specifier c =
     find (\<lambda>d. case specifier of SpecInt h \<Rightarrow> bd_handle d = h | SpecStr u \<Rightarrow> bd_uuid d = u)
       (bc_descriptors c)"

definition descriptor_str :: "bleak_descriptor \<Rightarrow> string" where
  "descriptor_str d = str_int (bd_handle d) @ '': '' @ bd_uuid d"

definition characteristic_str :: "bleak_characteristic \<Rightarrow> string" where
  "characteristic_str c =
     str_int (bc_handle c) @ '': '' @ bc_uuid c @ '' ('' @ py_join '','' (bc_properties c) @ '')''"

definition characteristic_eq :: "bleak_characteristic \<Rightarrow> bleak_characteristic \<Rightarrow> bool" where
  "characteristic_eq c d \<longleftrightarrow> bc_handle d = bc_handle c"

definition service_str :: "bleak_service \<Rightarrow> string" where
  "service_str s = str_int (bs_handle s) @ '': '' @ bs_uuid s"


section \<open>The service collection\<close>

record service_index =
  sc_services :: "bleak_service list"
  sc_by_char_handle :: "int \<rightharpoonup> bleak_characteristic"
  sc_by_char_uuid :: "string \<rightharpoonup> bleak_characteristic"
  sc_by_desc_handle :: "int \<rightharpoonup> bleak_descriptor"

definition index_char :: "bleak_characteristic \<Rightarrow> service_index \<Rightarrow> service_index" where
  "index_char char c =
     c\<lparr>sc_by_char_handle := (sc_by_char_handle c)(bc_handle char \<mapsto> char),
       sc_by_char_uuid := (case sc_by_char_uuid c (bc_uuid char) of
          None \<Rightarrow> (sc_by_char_uuid c)(bc_uuid char \<mapsto> char) | Some _ \<Rightarrow> sc_by_char_uuid c),
       sc_by_desc_handle := fold (\<lambda>d m. m(bd_handle d \<mapsto> d)) (bc_descriptors char) (sc_by_desc_handle c)\<rparr>"

definition service_collection :: "bleak_service list \<Rightarrow> service_index" where
  "service_collection services =
     fold (\<lambda>s c. fold index_char (bs_characteristics s) c) services
       \<lparr>sc_services = services, sc_by_char_handle = Map.empty, sc_by_char_uuid = Map.empty,
        sc_by_desc_handle = Map.empty\<rparr>"

definition collection_len :: "service_index \<Rightarrow> nat" where
  "collection_len c = length (sc_services c)"

definition collection_characteristics :: "service_index \<Rightarrow> int \<rightharpoonup> bleak_characteristic" where
  "collection_characteristics c = sc_by_char_handle c"

definition get_service :: "py_spec \<Rightarrow> service_index \<Rightarrow> bleak_service option result" where
  "get_service specifier c =
     (case specifier of
        SpecInt h \<Rightarrow> Inr (find (\<lambda>s. bs_handle s = h) (sc_services c))
      | SpecStr u \<Rightarrow> rbind (normalize_uuid_str u) (\<lambda>uuid.
          Inr (find (\<lambda>s. bs_uuid s = uuid) (sc_services c))))"

definition get_characteristic :: "py_spec \<Rightarrow> service_index \<Rightarrow> bleak_characteristic option result" where
  "get_characteristic specifier c =
     (case specifier of
        SpecInt h \<Rightarrow> Inr (sc_by_char_handle c h)
      | SpecStr u \<Rightarrow> rbind (normalize_uuid_str u) (\<lambda>uuid. Inr (sc_by_char_uuid c uuid)))"

definition get_descriptor :: "int \<Rightarrow> service_index \<Rightarrow> bleak_descriptor option" where
  "get_descriptor handle c = sc_by_desc_handle c handle"


section \<open>Lookups\<close>

definition all_chars :: "bleak_service list \<Rightarrow> bleak_characteristic list" where
  "all_chars services = concat (map bs_characteristics services)"

definition all_descs :: "bleak_service list \<Rightarrow> bleak_descriptor list" where
  "all_descs services = concat (map bc_descriptors (all_chars services))"

lemma collection_fold:
  "service_collection services = fold index_char (all_chars services)
     \<lparr>sc_services = services, sc_by_char_handle = Map.empty, sc_by_char_uuid = Map.empty,
      sc_by_desc_handle = Map.empty\<rparr>"
proof -
  have "fold (\<lambda>s c. fold index_char (bs_characteristics s) c) ss c = fold index_char (all_chars ss) c" for ss c
    by (induction ss arbitrary: c) (simp_all add: all_chars_def)
  then show ?thesis by (simp add: service_collection_def)
qed

text \<open>Writing keeps the last, \<open>setdefault\<close> the first.\<close>

lemma fold_index_char:
  "sc_services (fold index_char cs c) = sc_services c"
  "sc_by_char_handle (fold index_char cs c) h =
     (case find (\<lambda>x. bc_handle x = h) (rev cs) of None \<Rightarrow> sc_by_char_handle c h | Some x \<Rightarrow> Some x)"
  "sc_by_char_uuid (fold index_char cs c) u =
     (case sc_by_char_uuid c u of None \<Rightarrow> find (\<lambda>x. bc_uuid x = u) cs | Some x \<Rightarrow> Some x)"
  "sc_by_desc_handle (fold index_char cs c) h =
     (case find (\<lambda>x. bd_handle x = h) (rev (concat (map bc_descriptors cs))) of
        None \<Rightarrow> sc_by_desc_handle c h | Some x \<Rightarrow> Some x)"
proof -
  have find_append: "find P (xs @ ys) = (case find P xs of None \<Rightarrow> find P ys | Some x \<Rightarrow> Some x)"
    for P :: "'a \<Rightarrow> bool" and xs ys
    by (induction xs) auto
  have find_append': "find P (xs @ ys) = (case find P xs of None \<Rightarrow> find P ys | Some x \<Rightarrow> Some x)"
    for P :: "'b \<Rightarrow> bool" and xs ys
    by (induction xs) auto
  show "sc_services (fold index_char cs c) = sc_services c"
    by (induction cs arbitrary: c) (simp_all add: index_char_def)
  show "sc_by_char_handle (fold index_char cs c) h =
     (case find (\<lambda>x. bc_handle x = h) (rev cs) of None \<Rightarrow> sc_by_char_handle c h | Some x \<Rightarrow> Some x)"
    by (induction cs arbitrary: c) (auto simp: index_char_def find_append split: option.split)
  show "sc_by_char_uuid (fold index_char cs c) u =
     (case sc_by_char_uuid c u of None \<Rightarrow> find (\<lambda>x. bc_uuid x = u) cs | Some x \<Rightarrow> Some x)"
    by (induction cs arbitrary: c) (auto simp: index_char_def split: option.split)
  have d: "fold (\<lambda>d m. m(bd_handle d \<mapsto> d)) ds m h =
      (case find (\<lambda>x. bd_handle x = h) (rev ds) of None \<Rightarrow> m h | Some x \<Rightarrow> Some x)" for ds m
    by (induction ds arbitrary: m) (auto simp: find_append split: option.split)
  show "sc_by_desc_handle (fold index_char cs c) h =
     (case find (\<lambda>x. bd_handle x = h) (rev (concat (map bc_descriptors cs))) of
        None \<Rightarrow> sc_by_desc_handle c h | Some x \<Rightarrow> Some x)"
    by (induction cs arbitrary: c) (auto simp: index_char_def d find_append split: option.split)
qed


section \<open>Properties\<close>

text \<open>C22.  The service collection: by handle the last characteristic (descriptor) declared with it, by
  UUID, in any spelling the normalisation accepts, the first one in discovery order, and the error
  of the normalisation otherwise.\<close>

theorem collection_lookup:
  "get_characteristic (SpecInt h) (service_collection ss) =
     Inr (find (\<lambda>c. bc_handle c = h) (rev (all_chars ss)))
   \<and> get_characteristic (SpecStr u) (service_collection ss) =
     rbind (normalize_uuid_str u) (\<lambda>v. Inr (find (\<lambda>c. bc_uuid c = v) (all_chars ss)))
   \<and> get_descriptor h (service_collection ss) = find (\<lambda>d. bd_handle d = h) (rev (all_descs ss))
   \<and> collection_len (service_collection ss) = length ss"
  by (simp add: get_characteristic_def get_descriptor_def collection_len_def collection_fold
      fold_index_char all_descs_def option.case_eq_if)

lemma find_distinct:
  "distinct (map f xs) \<Longrightarrow> x \<in> set xs \<Longrightarrow> find (\<lambda>y. f y = f x) (rev xs) = Some x"
proof -
  assume a: "distinct (map f xs)" "x \<in> set xs"
  then have i: "inj_on f (set (rev xs))" by (simp add: distinct_map)
  have "find (\<lambda>y. f y = f x) ys = Some x" if "inj_on f (set ys)" "x \<in> set ys" for ys
    using that by (induction ys) (auto simp: inj_on_def)
  with a i show ?thesis by simp
qed

text \<open>Declaration handles of a well-formed database are pairwise distinct.\<close>

lemma map_decl_chars:
  "map bc_handle (bs_characteristics (bleak_gatt_service (service_tree w))) = map wc_decl (ws_characteristics w)"
proof -
  have "map (wc_decl \<circ> fst) (char_ends e cs) = map wc_decl cs" for e cs
    by (metis char_ends_fst list.map_comp)
  then show ?thesis
    by (simp add: bleak_gatt_service_def service_tree_def comp_def bleak_gatt_characteristic_def
        char_tree_def split_beta)
qed

lemma map_decls:
  "map bc_handle (all_chars (map (bleak_gatt_service \<circ> service_tree) db))
    = concat (map (\<lambda>w. map wc_decl (ws_characteristics w)) db)"
  by (induction db) (simp_all add: all_chars_def map_decl_chars)

lemma decls_sorted:
  "db_ok db \<Longrightarrow> sorted_wrt (<) (concat (map (\<lambda>w. map wc_decl (ws_characteristics w)) db))"
proof (induction db)
  case (Cons w db)
  have "a < b" if "a \<in> set (map wc_decl (ws_characteristics w))"
      "b \<in> set (concat (map (\<lambda>w. map wc_decl (ws_characteristics w)) db))" for a b
  proof -
    from that obtain w' where w': "w' \<in> set db" "b \<in> set (map wc_decl (ws_characteristics w'))" by auto
    then have "ws_end w < ws_handle w'" "service_ok w'" "service_ok w"
      using Cons.prems by (auto simp: db_ok_def list_all_iff)
    then show ?thesis using that(1) w'(2) by (fastforce simp: service_ok_def list_all_iff)
  qed
  moreover have "sorted_wrt (<) (map wc_decl (ws_characteristics w))"
    using Cons.prems by (simp add: db_ok_def service_ok_def sorted_wrt_map)
  moreover have "sorted_wrt (<) (concat (map (\<lambda>w. map wc_decl (ws_characteristics w)) db))"
    by (rule Cons.IH) (use Cons.prems in \<open>simp add: db_ok_def\<close>)
  ultimately show ?case unfolding list.map concat.simps sorted_wrt_append by blast
qed simp

lemma characteristic_by_handle:
  assumes "db_ok db" "w \<in> set db" "(c, e) \<in> set (char_ends (ws_end w) (ws_characteristics w))"
  shows "get_characteristic (SpecInt (wc_decl c))
      (service_collection (map (bleak_gatt_service \<circ> service_tree) db))
    = Inr (Some (bleak_gatt_characteristic (uuid_text (ws_uuid w)) (char_tree (c, e))))"
proof -
  let ?ss = "map (bleak_gatt_service \<circ> service_tree) db"
  let ?x = "bleak_gatt_characteristic (uuid_text (ws_uuid w)) (char_tree (c, e))"
  have "?x \<in> set (bs_characteristics (bleak_gatt_service (service_tree w)))"
    using assms(3) by (auto simp: bleak_gatt_service_def service_tree_def)
  with assms(2) have x: "?x \<in> set (all_chars ?ss)" by (auto simp: all_chars_def)
  have h: "bc_handle ?x = wc_decl c" by (simp add: bleak_gatt_characteristic_def char_tree_def)
  have "distinct (map bc_handle (all_chars ?ss))"
    using decls_sorted [OF assms(1)] strict_sorted_iff unfolding map_decls by blast
  from find_distinct [OF this x] h show ?thesis
    by (simp add: get_characteristic_def collection_fold fold_index_char)
qed

text \<open>Every characteristic of the peer's database can be named by its handle after discovery: the
  collection built from the discovered tree returns it, with its own value handle, properties and
  descriptors, and with the UUID of its service.\<close>

theorem discovered_characteristic_found:
  assumes "db_ok db" "w \<in> set db" "(c, e) \<in> set (char_ends (ws_end w) (ws_characteristics w))"
  shows "get_characteristic (SpecInt (wc_decl c))
      (service_collection (map (bleak_gatt_service \<circ> service_tree) db))
    = Inr (Some (bleak_gatt_characteristic (uuid_text (ws_uuid w)) (char_tree (c, e))))"
  by (rule characteristic_by_handle [OF assms])

theorem discovered_characteristic_found_witness:
  "get_characteristic (SpecInt 2) (service_collection (map (bleak_gatt_service \<circ> service_tree)
     [\<lparr>ws_handle = 1, ws_end = 4, ws_uuid = [0xE0, 0xFF],
       ws_characteristics = [\<lparr>wc_decl = 2, wc_props = 0x10, wc_value_handle = 3, wc_uuid = [0xE1, 0xFF],
         wc_descriptors = [(4, [0x02, 0x29])]\<rparr>]\<rparr>])) \<noteq> Inr None"
proof -
  let ?c = "\<lparr>wc_decl = 2, wc_props = 0x10, wc_value_handle = 3, wc_uuid = [0xE1, 0xFF],
         wc_descriptors = [(4, [0x02, 0x29])]\<rparr>"
  let ?w = "\<lparr>ws_handle = 1, ws_end = 4, ws_uuid = [0xE0, 0xFF], ws_characteristics = [?c]\<rparr>"
  have "db_ok [?w]" by (simp add: db_ok_def service_ok_def descriptors_ok_def)
  from discovered_characteristic_found [OF this, of ?w ?c 4] show ?thesis by simp
qed

text \<open>The list of property names says exactly which of the eight bits are set, in the order of the
  bits, so it determines the property byte.\<close>

theorem properties_exact:
  "(prop_name p \<in> set (properties_to_strings v) \<longleftrightarrow> v AND prop_flag p \<noteq> 0)
   \<and> (\<exists>ps. properties_to_strings v = map prop_name ps \<and> sorted_wrt (<) ps)"
proof -
  have "sorted_wrt (<) (filter (\<lambda>p. v AND prop_flag p \<noteq> 0) property_map)"
    by (rule sorted_wrt_filter [OF property_map_sorted(1)])
  then show ?thesis unfolding prop_listed by (auto simp: properties_to_strings_def)
qed

end
