(* ===== verification/Client.thy ===== *)
theory Client
  imports GATT_Objects
begin

text \<open>
  \<open>BleakClient\<close> of \<open>bluek/client.py\<close> once it has a link: characteristic access, notifications, and
  the end of a connection.  (Theory \<open>Connect\<close> has the way to a link.)  The object is the record
  \<open>client\<close> over a transport state \<open>'t\<close>; the two attributes \<open>_l2\<close> and \<open>_att\<close> are set and cleared
  together, so \<open>cl_att\<close> stands for both.  A notification handler is the pair of the characteristic
  and the user's callback, a value of \<open>'cb\<close>; the call of a handler that theory \<open>ATT_Core\<close> logs is
  the call of that callback with that characteristic.

  The client learns of the end of the link by its method \<open>_on_disconnect\<close>, which the ATT client
  calls (\<open>a_disconnects\<close>); it touches only fields that no operation reads before it is suspended
  again, so the calls made during an operation are performed at its end (\<open>on_att\<close>).
  \<open>cl_disconnected\<close> counts the calls of the user's \<open>disconnected_callback\<close>.
\<close>

section \<open>The client object\<close>

record ('t, 'cb) client =
  cl_address :: string
  cl_peer_type :: "int option"
  cl_adapter :: "string option"
  cl_index :: int
  cl_callback :: bool
  cl_att :: "('t, bleak_characteristic \<times> 'cb) att option"
  cl_services :: service_index
  cl_connected :: bool
  cl_cccd_handles :: "int \<rightharpoonup> int"
  cl_disconnected :: nat

datatype char_spec = SpecChar bleak_characteristic | SpecOther py_spec

definition no_services :: service_index where
  "no_services = service_collection []"

definition client_on_disconnect :: "exn option \<Rightarrow> ('t, 'cb) client \<Rightarrow> ('t, 'cb) client" where
  "client_on_disconnect exc c =
     c\<lparr>cl_connected := False,
       cl_disconnected := (if cl_connected c \<and> cl_callback c then cl_disconnected c + 1
                           else cl_disconnected c)\<rparr>"

text \<open>An operation on the ATT client \<open>a\<close>, and the calls of \<open>_on_disconnect\<close> made during it.\<close>

definition on_att ::
  "(('t, bleak_characteristic \<times> 'cb) att, 'a) sx \<Rightarrow> ('t, bleak_characteristic \<times> 'cb) att
   \<Rightarrow> (('t, 'cb) client, 'a) sx" where
  "on_att f a c =
     (let (r, a') = f a;
          news = drop (length (a_disconnects a)) (a_disconnects a')
      in (r, fold client_on_disconnect news (c\<lparr>cl_att := Some a'\<rparr>)))"

definition client_teardown :: "('t, 'cb) client \<Rightarrow> ('t, 'cb) client" where
  "client_teardown c =
     c\<lparr>cl_connected := False, cl_att := None, cl_cccd_handles := Map.empty,
       cl_services := no_services\<rparr>"

text \<open>\<open>disconnect\<close>, and the link it closes.\<close>

definition client_disconnect :: "'t transport \<Rightarrow> ('t, 'cb) client \<Rightarrow> 't option \<times> ('t, 'cb) client" where
  "client_disconnect T c =
     (map_option (\<lambda>a. a_l2 (att_close T a)) (cl_att c), client_teardown c)"


section \<open>Services and characteristics\<close>

definition discover_services :: "'t transport \<Rightarrow> (('t, 'cb) client, unit) sx" where
  "discover_services T c =
     (case cl_att c of
        None \<Rightarrow> (Inl AttributeError, c)
      | Some a \<Rightarrow>
          sx_bind (on_att (discover T) a) (\<lambda>gatt_services c'.
            (Inr (), c'\<lparr>cl_services := service_collection (map bleak_gatt_service gatt_services)\<rparr>)) c)"

definition get_services :: "'t transport \<Rightarrow> (('t, 'cb) client, service_index) sx" where
  "get_services T c =
     (if collection_len (cl_services c) = 0 \<and> cl_att c \<noteq> None
      then sx_bind (discover_services T) (\<lambda>_ c'. (Inr (cl_services c'), c')) c
      else (Inr (cl_services c), c))"

definition resolve_char :: "char_spec \<Rightarrow> ('t, 'cb) client \<Rightarrow> bleak_characteristic result" where
  "resolve_char spec c =
     (case spec of
        SpecChar ch \<Rightarrow> Inr ch
      | SpecOther s \<Rightarrow>
          rbind (case s of
                   SpecInt h \<Rightarrow> get_characteristic (SpecInt h) (cl_services c)
                 | SpecStr u \<Rightarrow> rbind (normalize_uuid_str u) (\<lambda>v.
                     get_characteristic (SpecStr v) (cl_services c))) (\<lambda>found.
            case found of
              None \<Rightarrow> Inl (BleakCharacteristicNotFoundError s)
            | Some ch \<Rightarrow> Inr ch))"

definition require_att :: "('t, 'cb) client \<Rightarrow> ('t, bleak_characteristic \<times> 'cb) att result" where
  "require_att c =
     (case cl_att c of
        None \<Rightarrow> Inl (BleakError ''not connected'')
      | Some a \<Rightarrow> if cl_connected c then Inr a else Inl (BleakError ''not connected''))"

text \<open>\<open>att = self._require_att(); char = self._resolve_char(spec)\<close>.\<close>

definition with_char ::
  "char_spec \<Rightarrow> (('t, bleak_characteristic \<times> 'cb) att \<Rightarrow> bleak_characteristic \<Rightarrow> (('t, 'cb) client, 'a) sx)
   \<Rightarrow> (('t, 'cb) client, 'a) sx" where
  "with_char spec f c =
     (case require_att c of
        Inl e \<Rightarrow> (Inl e, c)
      | Inr a \<Rightarrow> (case resolve_char spec c of Inl e \<Rightarrow> (Inl e, c) | Inr ch \<Rightarrow> f a ch c))"

definition read_gatt_char :: "'t transport \<Rightarrow> char_spec \<Rightarrow> (('t, 'cb) client, bytes) sx" where
  "read_gatt_char T spec =
     with_char spec (\<lambda>a ch. on_att (read_value T (bc_value_handle ch)) a)"

definition write_gatt_char :: "'t transport \<Rightarrow> char_spec \<Rightarrow> bytes \<Rightarrow> bool \<Rightarrow> (('t, 'cb) client, unit) sx"
where
  "write_gatt_char T spec data response =
     with_char spec (\<lambda>a ch.
       if response then on_att (write_value T (bc_value_handle ch) data) a
       else on_att (write_command T (bc_value_handle ch) data) a)"

definition read_gatt_descriptor :: "'t transport \<Rightarrow> int \<Rightarrow> (('t, 'cb) client, bytes) sx" where
  "read_gatt_descriptor T handle c =
     (case require_att c of Inl e \<Rightarrow> (Inl e, c) | Inr a \<Rightarrow> on_att (read_value T handle) a c)"

definition write_gatt_descriptor :: "'t transport \<Rightarrow> int \<Rightarrow> bytes \<Rightarrow> (('t, 'cb) client, unit) sx" where
  "write_gatt_descriptor T handle data c =
     (case require_att c of Inl e \<Rightarrow> (Inl e, c) | Inr a \<Rightarrow> on_att (write_value T handle data) a c)"


section \<open>Notifications\<close>

definition CCCD_UUID :: string where
  "CCCD_UUID = ''00002902-0000-1000-8000-00805f9b34fb''"

definition cccd_value :: "bleak_characteristic \<Rightarrow> bytes" where
  "cccd_value ch =
     (if ''indicate'' \<in> set (bc_properties ch) \<and> ''notify'' \<notin> set (bc_properties ch)
      then [0x02, 0x00] else [0x01, 0x00])"

definition start_notify :: "'t transport \<Rightarrow> char_spec \<Rightarrow> 'cb \<Rightarrow> (('t, 'cb) client, unit) sx" where
  "start_notify T spec callback =
     with_char spec (\<lambda>a ch c.
       let a1 = set_notify_handler (bc_value_handle ch) (ch, callback) a
       in case char_get_descriptor (SpecStr CCCD_UUID) ch of
            None \<Rightarrow> (Inl (BleakError (''characteristic '' @ bc_uuid ch @ '' has no CCCD; cannot subscribe'')),
                     c\<lparr>cl_att := Some a1\<rparr>)
          | Some cccd \<Rightarrow>
              sx_bind (on_att (write_value T (bd_handle cccd) (cccd_value ch)) a1) (\<lambda>_ c'.
                (Inr (), c'\<lparr>cl_cccd_handles :=
                   (cl_cccd_handles c')(bc_value_handle ch \<mapsto> bd_handle cccd)\<rparr>)) c)"

definition remove_handler :: "int \<Rightarrow> ('t, 'cb) client \<Rightarrow> ('t, 'cb) client" where
  "remove_handler value_handle c =
     c\<lparr>cl_att := map_option (remove_notify_handler value_handle) (cl_att c)\<rparr>"

definition stop_notify :: "'t transport \<Rightarrow> char_spec \<Rightarrow> (('t, 'cb) client, unit) sx" where
  "stop_notify T spec =
     with_char spec (\<lambda>a ch c.
       let c1 = c\<lparr>cl_cccd_handles := (cl_cccd_handles c)(bc_value_handle ch := None)\<rparr>
       in case cl_cccd_handles c (bc_value_handle ch) of
            None \<Rightarrow> (Inr (), remove_handler (bc_value_handle ch) c1)
          | Some cccd_handle \<Rightarrow>
              (case on_att (write_value T cccd_handle [0x00, 0x00]) a c1 of
                 (Inl e, c2) \<Rightarrow>
                   (if is_bleak_error e then (Inr (), remove_handler (bc_value_handle ch) c2)
                    else (Inl e, c2))
               | (Inr _, c2) \<Rightarrow> (Inr (), remove_handler (bc_value_handle ch) c2)))"


section \<open>Lemmas\<close>

lemma fold_on_disconnect [simp]:
  "cl_att (fold client_on_disconnect xs c) = cl_att c"
  "cl_services (fold client_on_disconnect xs c) = cl_services c"
  "cl_cccd_handles (fold client_on_disconnect xs c) = cl_cccd_handles c"
  "cl_callback (fold client_on_disconnect xs c) = cl_callback c"
  "cl_connected (fold client_on_disconnect xs c) = (cl_connected c \<and> xs = [])"
  "cl_disconnected (fold client_on_disconnect xs c) =
     (if cl_connected c \<and> cl_callback c \<and> xs \<noteq> [] then cl_disconnected c + 1 else cl_disconnected c)"
proof -
  show "cl_att (fold client_on_disconnect xs c) = cl_att c"
    "cl_services (fold client_on_disconnect xs c) = cl_services c"
    "cl_cccd_handles (fold client_on_disconnect xs c) = cl_cccd_handles c"
    "cl_callback (fold client_on_disconnect xs c) = cl_callback c"
    by (induction xs arbitrary: c) (simp_all add: client_on_disconnect_def)
  show "cl_connected (fold client_on_disconnect xs c) = (cl_connected c \<and> xs = [])"
    by (induction xs arbitrary: c) (auto simp: client_on_disconnect_def)
  have n: "cl_disconnected (fold client_on_disconnect xs c) = cl_disconnected c" if "\<not> cl_connected c" for xs c
    using that by (induction xs arbitrary: c) (auto simp: client_on_disconnect_def)
  show "cl_disconnected (fold client_on_disconnect xs c) =
     (if cl_connected c \<and> cl_callback c \<and> xs \<noteq> [] then cl_disconnected c + 1 else cl_disconnected c)"
  proof (cases xs)
    case (Cons x ys)
    then show ?thesis
      using n [of "client_on_disconnect x c" ys] by (simp add: client_on_disconnect_def)
  qed simp
qed

text \<open>What one operation does to the client beyond its ATT client.\<close>

lemma on_att_effects:
  assumes "f a = (r, a')" "a_disconnects a' = a_disconnects a @ xs"
  shows "on_att f a c = (r, fold client_on_disconnect xs (c\<lparr>cl_att := Some a'\<rparr>))"
  using assms by (simp add: on_att_def)

lemma with_char_ok:
  "cl_att c = Some a \<Longrightarrow> cl_connected c \<Longrightarrow> resolve_char spec c = Inr ch \<Longrightarrow> with_char spec f c = f a ch c"
  by (simp add: with_char_def require_att_def)

lemma resolve_char_lookup:
  "resolve_char (SpecOther (SpecInt h)) (c\<lparr>cl_services := service_collection ss\<rparr>) =
     (case find (\<lambda>ch. bc_handle ch = h) (rev (all_chars ss)) of
        None \<Rightarrow> Inl (BleakCharacteristicNotFoundError (SpecInt h)) | Some ch \<Rightarrow> Inr ch)"
  by (simp add: resolve_char_def get_characteristic_def collection_fold fold_index_char
      split: option.split)



section \<open>The end of a connection\<close>

text \<open>Uses of a client by its owner, and pauses in which the loop delivers what arrives.\<close>

definition client_idle :: "'t transport \<Rightarrow> ('t, 'cb) client \<Rightarrow> ('t, 'cb) client" where
  "client_idle T c =
     (case cl_att c of None \<Rightarrow> c | Some a \<Rightarrow> snd (on_att (\<lambda>a. (Inr (), att_idle T a)) a c))"

datatype 'cb client_use =
    UGet | URead char_spec | UWrite char_spec bytes bool | UReadDesc int | UWriteDesc int bytes
  | UStart char_spec 'cb | UStop char_spec | UPause | UDisconnect

fun use_client :: "'t transport \<Rightarrow> 'cb client_use \<Rightarrow> ('t, 'cb) client \<Rightarrow> ('t, 'cb) client" where
  "use_client T UGet c = snd (get_services T c)"
| "use_client T (URead spec) c = snd (read_gatt_char T spec c)"
| "use_client T (UWrite spec d r) c = snd (write_gatt_char T spec d r c)"
| "use_client T (UReadDesc h) c = snd (read_gatt_descriptor T h c)"
| "use_client T (UWriteDesc h d) c = snd (write_gatt_descriptor T h d c)"
| "use_client T (UStart spec cb) c = snd (start_notify T spec cb c)"
| "use_client T (UStop spec) c = snd (stop_notify T spec c)"
| "use_client T UPause c = client_idle T c"
| "use_client T UDisconnect c = snd (client_disconnect T c)"

definition use_clients :: "'t transport \<Rightarrow> 'cb client_use list \<Rightarrow> ('t, 'cb) client \<Rightarrow> ('t, 'cb) client" where
  "use_clients T us c = fold (use_client T) us c"

text \<open>\<open>once n\<close>: the callback has been called \<open>n\<close> times, or once more if the connection that was up
  has ended.\<close>

definition once :: "nat \<Rightarrow> ('t, 'cb) client \<Rightarrow> bool" where
  "once n c \<longleftrightarrow> cl_disconnected c + of_bool (cl_connected c) \<le> n + 1 \<and> n \<le> cl_disconnected c"

lemma once_updates [simp]:
  "once n (c\<lparr>cl_services := x\<rparr>) = once n c" "once n (c\<lparr>cl_att := y\<rparr>) = once n c"
  "once n (c\<lparr>cl_cccd_handles := z\<rparr>) = once n c"
  by (simp_all add: once_def)

lemma on_att_once: "once n c \<Longrightarrow> once n (snd (on_att f a c))"
  by (auto simp: on_att_def once_def split_beta Let_def)

lemma on_att_once': "on_att f a c = (r, c') \<Longrightarrow> once n c \<Longrightarrow> once n c'"
  using on_att_once by (metis snd_conv)

lemma with_char_once: "once n c \<Longrightarrow> (\<And>a ch. once n (snd (f a ch c))) \<Longrightarrow> once n (snd (with_char spec f c))"
  by (simp add: with_char_def split: sum.split)

lemma use_client_once: "once n c \<Longrightarrow> once n (use_client T u c)"
proof (cases u)
  case UGet
  assume c: "once n c"
  have "once n (snd (discover_services T c))"
    using c by (auto simp: discover_services_def sx_bind_def dest!: on_att_once'
        split: option.split prod.split sum.split)
  then show ?thesis
    using UGet c by (auto simp: get_services_def sx_bind_def split: prod.split sum.split)
next
  case (UStart spec cb)
  assume c: "once n c"
  have "once n (snd (start_notify T spec cb c))"
    unfolding start_notify_def
    by (rule with_char_once [OF c])
      (use c in \<open>auto simp: Let_def sx_bind_def dest!: on_att_once' split: option.split prod.split sum.split\<close>)
  with UStart show ?thesis by simp
next
  case (UStop spec)
  assume c: "once n c"
  have r: "once n (remove_handler h c') = once n c'" for h and c' :: "('a, 'b) client"
    by (simp add: remove_handler_def once_def)
  have c1: "once n (c\<lparr>cl_cccd_handles := x\<rparr>)" for x using c by (simp add: once_def)
  have "once n (snd (stop_notify T spec c))"
    unfolding stop_notify_def
    by (rule with_char_once [OF c])
      (use c1 in \<open>auto simp: Let_def r dest!: on_att_once' split: option.split prod.split sum.split\<close>)
  with UStop show ?thesis by simp
next
  case UDisconnect
  assume "once n c"
  then show ?thesis using UDisconnect by (auto simp: client_disconnect_def client_teardown_def once_def)
qed (auto simp: read_gatt_char_def write_gatt_char_def read_gatt_descriptor_def write_gatt_descriptor_def
    client_idle_def on_att_once intro!: with_char_once split: sum.split option.split)

lemma use_clients_once: "once n c \<Longrightarrow> once n (use_clients T us c)"
  by (induction us arbitrary: c) (auto simp: use_clients_def use_client_once)

text \<open>A client without a link is inert.\<close>

lemma use_client_inert:
  assumes "cl_att c = None" "\<not> cl_connected c"
  shows "cl_disconnected (use_client T u c) = cl_disconnected c"
    "cl_att (use_client T u c) = None" "\<not> cl_connected (use_client T u c)"
  using assms
  by (cases u; simp add: get_services_def read_gatt_char_def write_gatt_char_def read_gatt_descriptor_def
      write_gatt_descriptor_def start_notify_def stop_notify_def with_char_def require_att_def
      client_idle_def client_disconnect_def client_teardown_def)+

lemma use_clients_inert:
  "cl_att c = None \<Longrightarrow> \<not> cl_connected c \<Longrightarrow> cl_disconnected (use_clients T us c) = cl_disconnected c"
  by (induction us arbitrary: c) (simp_all add: use_clients_def use_client_inert)


section \<open>Properties\<close>

text \<open>C15.  The user's \<open>disconnected_callback\<close> is called at most once in the life of a connection,
  whatever the owner does with the client, the peer sends and the transport reports, and not for
  or after an explicit \<open>disconnect\<close>.\<close>

theorem disconnected_callback_once:
  "cl_disconnected (use_clients T us c) \<le> cl_disconnected c + 1
   \<and> cl_disconnected (use_clients T (us @ UDisconnect # vs) c) = cl_disconnected (use_clients T us c)"
proof -
  have "once (cl_disconnected c) c" by (simp add: once_def)
  then have "once (cl_disconnected c) (use_clients T us c)" by (rule use_clients_once)
  moreover have "cl_disconnected (use_clients T vs (snd (client_disconnect T c'))) = cl_disconnected c'" for c'
    by (subst use_clients_inert) (simp_all add: client_disconnect_def client_teardown_def)
  ultimately show ?thesis by (simp add: once_def use_clients_def)
qed


text \<open>Without a connection every access fails with \<open>BleakError\<close>, sends nothing and changes
  nothing, also after the peer has ended the connection and before the owner disconnects.\<close>

theorem access_needs_connection:
  assumes "\<not> cl_connected c"
  shows "read_gatt_char T spec c = (Inl (BleakError ''not connected''), c)
    \<and> write_gatt_char T spec d r c = (Inl (BleakError ''not connected''), c)
    \<and> start_notify T spec cb c = (Inl (BleakError ''not connected''), c)
    \<and> stop_notify T spec c = (Inl (BleakError ''not connected''), c)
    \<and> read_gatt_descriptor T h c = (Inl (BleakError ''not connected''), c)
    \<and> write_gatt_descriptor T h d c = (Inl (BleakError ''not connected''), c)"
proof -
  have "require_att c = Inl (BleakError ''not connected'')"
    using assms by (simp add: require_att_def split: option.split)
  then show ?thesis
    by (simp add: read_gatt_char_def write_gatt_char_def start_notify_def stop_notify_def
        read_gatt_descriptor_def write_gatt_descriptor_def with_char_def)
qed

text \<open>A client for evaluations: connected, with one subscribed characteristic.\<close>

definition demo_char :: bleak_characteristic where
  "demo_char = \<lparr>bc_handle = 2, bc_value_handle = 3, bc_uuid = ''0000ffe1-0000-1000-8000-00805f9b34fb'',
     bc_properties = [''notify''], bc_service_uuid = ''0000ffe0-0000-1000-8000-00805f9b34fb'',
     bc_descriptors = [\<lparr>bd_handle = 4, bd_uuid = CCCD_UUID, bd_characteristic_uuid = []\<rparr>]\<rparr>"

definition demo_client :: "'t \<Rightarrow> bool \<Rightarrow> ('t, nat) client" where
  "demo_client t up =
     \<lparr>cl_address = ''C8:47:8C:E1:E2:E3'', cl_peer_type = None, cl_adapter = None, cl_index = 0,
      cl_callback = True, cl_att = Some (att_init t), cl_services = no_services,
      cl_connected = up, cl_cccd_handles = Map.empty, cl_disconnected = 0\<rparr>"

theorem access_needs_connection_witness:
  "fst (read_gatt_char batch_transport (SpecChar demo_char) (demo_client [] False)) =
     Inl (BleakError ''not connected'')"
  using access_needs_connection [of "demo_client [] False" batch_transport "SpecChar demo_char"]
  by (simp add: demo_client_def)

lemma request_handlers: "quiet a \<Longrightarrow> a_notify_handlers (snd (request T p op a)) = a_notify_handlers a"
proof -
  assume q: "quiet a"
  obtain r t where s: "tsend T p (a_l2 a) = (r, t)" by (cases "tsend T p (a_l2 a)")
  obtain us t' where v: "trecv T t = (us, t')" by (cases "trecv T t")
  show ?thesis
  proof (cases r)
    case (Inl e)
    with s show ?thesis by (simp add: request_def begin_request_def end_request_def)
  next
    case (Inr u)
    with s have "tsend T p (a_l2 a) = (Inr (), t)" by simp
    from request_full [OF q this v] show ?thesis by simp
  qed
qed

lemma write_value_handlers:
  "quiet a \<Longrightarrow> write_value T h v a = (r, a') \<Longrightarrow> a_notify_handlers a' = a_notify_handlers a \<and> quiet a'"
  using request_handlers [of a T] request_quiet [of a T]
  by (auto simp: write_value_def split: sum.splits prod.splits) (metis snd_conv)+

lemma start_notify_Inr:
  assumes "start_notify T spec cb c = (Inr (), c')" "cl_att c = Some a" "quiet a"
    and "resolve_char spec c = Inr ch"
  shows "\<exists>a'. cl_att c' = Some a' \<and> quiet a' \<and> a_notify_handlers a' (bc_value_handle ch) = Some (ch, cb)"
proof -
  have "cl_connected c"
    using assms(1,2) by (cases "cl_connected c") (simp_all add: start_notify_def with_char_def require_att_def)
  then have w: "start_notify T spec cb c = (let a1 = set_notify_handler (bc_value_handle ch) (ch, cb) a
       in case char_get_descriptor (SpecStr CCCD_UUID) ch of
            None \<Rightarrow> (Inl (BleakError (''characteristic '' @ bc_uuid ch @ '' has no CCCD; cannot subscribe'')),
                     c\<lparr>cl_att := Some a1\<rparr>)
          | Some cccd \<Rightarrow>
              sx_bind (on_att (write_value T (bd_handle cccd) (cccd_value ch)) a1) (\<lambda>_ c'.
                (Inr (), c'\<lparr>cl_cccd_handles :=
                   (cl_cccd_handles c')(bc_value_handle ch \<mapsto> bd_handle cccd)\<rparr>)) c)"
    using assms by (simp add: start_notify_def with_char_ok)
  let ?a1 = "set_notify_handler (bc_value_handle ch) (ch, cb) a"
  have q: "quiet ?a1" by (rule handlers_quiet(1) [OF assms(3)])
  from w assms(1) obtain d where d: "char_get_descriptor (SpecStr CCCD_UUID) ch = Some d"
    by (auto simp: Let_def split: option.splits)
  obtain r a2 where a2: "write_value T (bd_handle d) (cccd_value ch) ?a1 = (r, a2)"
    by (cases "write_value T (bd_handle d) (cccd_value ch) ?a1")
  from write_value_handlers [OF q a2] w d a2 assms(1) show ?thesis
    by (auto simp: Let_def on_att_def sx_bind_def set_notify_handler_def split: sum.splits)
qed

lemma notify_entries_values:
  assumes "hs vh = Some h" "0 \<le> vh" "vh < 65536"
  shows "notify_entries hs (map (\<lambda>v. OnData (op_byte HANDLE_VALUE_NTF # le_bytes 2 vh @ v)) vs) = map (\<lambda>v. (h, v)) vs"
proof -
  have "from_le (le_bytes 2 vh) = vh" using assms(2,3) by (intro from_le_le_bytes) auto
  then have "value_of (OnData (op_byte HANDLE_VALUE_NTF # le_bytes 2 vh @ v)) = Some (vh, v)" for v
    by (simp add: HANDLE_VALUE_NTF_def slice_def numeral_3_eq_3)
  then show ?thesis
    using assms(1) by (induction vs) (simp_all add: notify_entries_def map_filter_simps del: value_of.simps)
qed


text \<open>A subscription whose end times out is half removed: \<open>stop_notify\<close> raises, the callback stays
  registered, and the CCCD handle is forgotten, so a second \<open>stop_notify\<close> removes the callback but
  leaves the peer sending.\<close>

theorem stop_notify_timeout_keeps_handler:
  "let c = (demo_client [] True)\<lparr>cl_att := Some (set_notify_handler 3 (demo_char, 7) (att_init [])),
                                 cl_cccd_handles := [3 \<mapsto> 4]\<rparr>;
       (r, c') = stop_notify batch_transport (SpecChar demo_char) c
   in r = Inl TimeoutError
    \<and> a_notify_handlers (the (cl_att c')) 3 = Some (demo_char, 7)
    \<and> cl_cccd_handles c' 3 = None"
proof -
  let ?a = "set_notify_handler 3 (demo_char, 7) (att_init []) :: (upcall list, bleak_characteristic \<times> nat) att"
  have q: "quiet ?a" by (rule handlers_quiet(1) [OF quiet_init])
  have p: "to_le 2 4 = Inr (le_bytes 2 4)" by (simp add: to_le_def)
  have "tsend batch_transport (op_byte WRITE_REQ # le_bytes 2 4 @ [0, 0]) (a_l2 ?a) = (Inr (), [])"
    "trecv batch_transport [] = ([], [])"
    by (simp_all add: batch_transport_def set_notify_handler_def att_init_def)
  from request_full [OF q this, of WRITE_RSP]
  have "request batch_transport (op_byte WRITE_REQ # le_bytes 2 4 @ [0, 0]) WRITE_RSP ?a = (Inl TimeoutError, ?a)"
    by (simp add: first_response_def map_filter_simps last_mtu_def set_notify_handler_def att_init_def)
  then have "write_value batch_transport 4 [0, 0] ?a = (Inl TimeoutError, ?a)"
    by (simp add: write_value_def p)
  then show ?thesis
    by (simp add: stop_notify_def with_char_def require_att_def resolve_char_def demo_client_def
        demo_char_def on_att_def Let_def set_notify_handler_def)
qed

text \<open>C11.  From discovery to data: on a peer that serves a well-formed database and holds \<open>v\<close> at one of
  its characteristics, a client that has discovered the services reads \<open>v\<close> by the handle of that
  characteristic, as long as the link is up and the MTU is the one the peer sizes its PDUs by.\<close>

theorem discovered_characteristic_read:
  assumes "gatt_server T ok db" "w \<in> set db" "(ch, e) \<in> set (char_ends (ws_end w) (ws_characteristics w))"
    and "value_server T ok (wc_value_handle ch) v m"
    and "cl_att c = Some a" "quiet a" "ok (a_l2 a)"
  shows "\<exists>c' a'. discover_services T c = (Inr (), c') \<and> cl_att c' = Some a' \<and> quiet a'
    \<and> (cl_connected c' \<and> a_mtu a' = m \<longrightarrow>
       fst (read_gatt_char T (SpecOther (SpecInt (wc_decl ch))) c') = Inr v)"
proof -
  obtain a' where d: "discover T a = (Inr (map service_tree db), a')" "quiet a'" "ok (a_l2 a')"
    using gatt_server.discover_database [OF assms(1,6,7)] by blast
  let ?ss = "map bleak_gatt_service (map service_tree db)"
  let ?x = "bleak_gatt_characteristic (uuid_text (ws_uuid w)) (char_tree (ch, e))"
  obtain c1 where c1: "on_att (discover T) a c = (Inr (map service_tree db), c1)" "cl_att c1 = Some a'"
    using d(1) by (simp add: on_att_def Let_def)
  let ?c = "c1\<lparr>cl_services := service_collection ?ss\<rparr>"
  have s: "discover_services T c = (Inr (), ?c)"
    using assms(5) c1(1) by (simp add: discover_services_def)
  have "get_characteristic (SpecInt (wc_decl ch)) (service_collection ?ss) = Inr (Some ?x)"
    using characteristic_by_handle [OF gatt_server.db [OF assms(1)] assms(2,3)] by (simp add: comp_def)
  then have r: "resolve_char (SpecOther (SpecInt (wc_decl ch))) ?c = Inr ?x"
    by (simp add: resolve_char_def)
  have h: "bc_value_handle ?x = wc_value_handle ch"
    by (simp add: bleak_gatt_characteristic_def char_tree_def)
  have "fst (read_gatt_char T (SpecOther (SpecInt (wc_decl ch))) ?c) = Inr v"
    if up: "cl_connected ?c" and mtu: "a_mtu a' = m"
  proof -
    obtain a'' where "read_value T (wc_value_handle ch) a' = (Inr v, a'')"
      using value_server.reads_value [OF assms(4) d(2,3) mtu] by blast
    moreover have "cl_att ?c = Some a'" using c1(2) by simp
    ultimately show ?thesis
      unfolding read_gatt_char_def with_char_ok [OF \<open>cl_att ?c = Some a'\<close> up r] h
      by (simp add: on_att_def Let_def)
  qed
  with s c1(2) d(2) show ?thesis by (intro exI [of _ ?c] exI [of _ a']) simp
qed

end
