(* ===== verification/Mgmt_Codec.thy ===== *)
theory Mgmt_Codec
  imports Bdaddr
begin

text \<open>
  The pure codecs of \<open>bluek/_mgmt.py\<close>: management packets, EIR/AD data and the \<open>DEVICE_FOUND\<close>
  event.  A parsed EIR dictionary is a map from AD type to value; an advertised name is a list of
  Unicode code points.
\<close>

definition MGMT_OP_READ_CONTROLLER_INFO :: int where "MGMT_OP_READ_CONTROLLER_INFO = 0x0004"
definition MGMT_OP_START_DISCOVERY :: int where "MGMT_OP_START_DISCOVERY = 0x0023"
definition MGMT_OP_STOP_DISCOVERY :: int where "MGMT_OP_STOP_DISCOVERY = 0x0024"
definition MGMT_EV_CMD_COMPLETE :: int where "MGMT_EV_CMD_COMPLETE = 0x0001"
definition MGMT_EV_CMD_STATUS :: int where "MGMT_EV_CMD_STATUS = 0x0002"
definition MGMT_EV_DEVICE_FOUND :: int where "MGMT_EV_DEVICE_FOUND = 0x0012"
definition SCAN_TYPE_LE :: byte where "SCAN_TYPE_LE = 0x06"
definition MGMT_STATUS_SUCCESS :: int where "MGMT_STATUS_SUCCESS = 0x00"
definition MGMT_STATUS_BUSY :: int where "MGMT_STATUS_BUSY = 0x0A"

lemmas mgmt_consts =
  MGMT_OP_READ_CONTROLLER_INFO_def MGMT_OP_START_DISCOVERY_def MGMT_OP_STOP_DISCOVERY_def
  MGMT_EV_CMD_COMPLETE_def MGMT_EV_CMD_STATUS_def MGMT_EV_DEVICE_FOUND_def SCAN_TYPE_LE_def
  MGMT_STATUS_SUCCESS_def MGMT_STATUS_BUSY_def


section \<open>Packets\<close>

text \<open>The address the socket is bound to, as the kernel gets it: a \<open>struct sockaddr_hci\<close> of three
  two-byte fields.\<close>

definition HCI_AF_BLUETOOTH :: int where "HCI_AF_BLUETOOTH = 31"
definition HCI_CHANNEL_CONTROL :: int where "HCI_CHANNEL_CONTROL = 3"
definition HCI_DEV_NONE :: int where "HCI_DEV_NONE = 0xFFFF"

definition sockaddr_hci :: "int \<Rightarrow> int \<Rightarrow> int \<Rightarrow> bytes" where
  "sockaddr_hci family dev channel = le_bytes 2 family @ le_bytes 2 dev @ le_bytes 2 channel"

definition mgmt_bind_address :: bytes where
  "mgmt_bind_address = sockaddr_hci HCI_AF_BLUETOOTH HCI_DEV_NONE HCI_CHANNEL_CONTROL"

definition encode_command :: "int \<Rightarrow> int \<Rightarrow> bytes \<Rightarrow> bytes result" where
  "encode_command opcode index params =
     rbind (pack_le 2 opcode) (\<lambda>o'.
     rbind (pack_le 2 index) (\<lambda>i'.
     rbind (pack_le 2 (int (length params))) (\<lambda>l'.
       Inr (o' @ i' @ l' @ params))))"

definition parse_packet :: "bytes \<Rightarrow> (int \<times> int \<times> bytes) result" where
  "parse_packet data =
     rbind (unpack_le 2 0 (take 6 data)) (\<lambda>event.
     rbind (unpack_le 2 2 (take 6 data)) (\<lambda>index.
     rbind (unpack_le 2 4 (take 6 data)) (\<lambda>plen.
       Inr (event, index, slice 6 (6 + nat plen) data))))"


section \<open>EIR data\<close>

type_synonym eir = "int \<rightharpoonup> bytes"

function parse_eir_loop :: "bytes \<Rightarrow> nat \<Rightarrow> eir \<Rightarrow> eir" where
  "parse_eir_loop e i out =
     (if i < length e then
        let len = unat (e ! i)
        in if len = 0 \<or> i + 1 + len > length e then out
           else parse_eir_loop e (i + 1 + len)
                  (out(uint (e ! (i + 1)) \<mapsto> slice (i + 2) (i + 1 + len) e))
      else out)"
  by pat_completeness auto
termination by (relation "measure (\<lambda>(e, i, out). length e - i)") auto

declare parse_eir_loop.simps [simp del]

definition parse_eir :: "bytes \<Rightarrow> eir" where
  "parse_eir e = parse_eir_loop e 0 Map.empty"

text \<open>\<open>bytes.decode("utf-8", "replace")\<close>: each maximal ill-formed subsequence becomes U+FFFD.\<close>

type_synonym ustr = "int list"

definition in_range :: "int \<Rightarrow> int \<Rightarrow> byte \<Rightarrow> bool" where
  "in_range lo hi b \<longleftrightarrow> lo \<le> uint b \<and> uint b \<le> hi"

abbreviation cont :: "byte \<Rightarrow> bool" where "cont \<equiv> in_range 0x80 0xBF"

definition second_ok :: "byte \<Rightarrow> byte \<Rightarrow> bool" where
  "second_ok b c =
     (if uint b = 0xE0 then in_range 0xA0 0xBF c
      else if uint b = 0xED then in_range 0x80 0x9F c
      else if uint b = 0xF0 then in_range 0x90 0xBF c
      else if uint b = 0xF4 then in_range 0x80 0x8F c
      else cont c)"

function utf8_decode :: "bytes \<Rightarrow> ustr" where
  "utf8_decode s =
     (case s of
        [] \<Rightarrow> []
      | b # r \<Rightarrow>
          if in_range 0 0x7F b then uint b # utf8_decode r
          else if in_range 0xC2 0xDF b \<and> r \<noteq> [] \<and> cont (hd r) then
            ((uint b - 0xC0) * 64 + (uint (hd r) - 0x80)) # utf8_decode (tl r)
          else if in_range 0xE0 0xEF b \<and> r \<noteq> [] \<and> second_ok b (hd r) then
            (if tl r \<noteq> [] \<and> cont (hd (tl r)) then
               ((uint b - 0xE0) * 4096 + (uint (hd r) - 0x80) * 64 + (uint (hd (tl r)) - 0x80))
                 # utf8_decode (tl (tl r))
             else 0xFFFD # utf8_decode (tl r))
          else if in_range 0xF0 0xF4 b \<and> r \<noteq> [] \<and> second_ok b (hd r) then
            (if tl r \<noteq> [] \<and> cont (hd (tl r)) then
               (if tl (tl r) \<noteq> [] \<and> cont (hd (tl (tl r))) then
                  ((uint b - 0xF0) * 262144 + (uint (hd r) - 0x80) * 4096
                    + (uint (hd (tl r)) - 0x80) * 64 + (uint (hd (tl (tl r))) - 0x80))
                    # utf8_decode (tl (tl (tl r)))
                else 0xFFFD # utf8_decode (tl (tl r)))
             else 0xFFFD # utf8_decode (tl r))
          else 0xFFFD # utf8_decode r)"
  by pat_completeness auto
termination by (relation "measure length") auto

declare utf8_decode.simps [simp del]

definition AD_SHORT_NAME :: int where "AD_SHORT_NAME = 0x08"
definition AD_COMPLETE_NAME :: int where "AD_COMPLETE_NAME = 0x09"

definition eir_name :: "eir \<Rightarrow> ustr option" where
  "eir_name eir =
     (let raw = (case eir AD_COMPLETE_NAME of
                   Some (b # bs) \<Rightarrow> Some (b # bs)
                 | _ \<Rightarrow> eir AD_SHORT_NAME)
      in map_option utf8_decode raw)"


section \<open>The DEVICE_FOUND event\<close>

record device_found =
  df_address :: string
  df_address_type :: int
  df_rssi :: int
  df_flags :: int
  df_eir :: eir

definition parse_device_found :: "bytes \<Rightarrow> device_found result" where
  "parse_device_found params =
     rbind (bdaddr_to_str (slice 0 6 params)) (\<lambda>addr.
     rbind (py_get params 6) (\<lambda>t.
     rbind (if 8 \<le> length params then Inr (from_le_signed (slice 7 8 params)) else Inl StructError) (\<lambda>r.
     rbind (unpack_le 4 8 params) (\<lambda>fl.
     rbind (unpack_le 2 12 params) (\<lambda>eir_len.
       Inr \<lparr>df_address = addr, df_address_type = uint t, df_rssi = r, df_flags = fl,
            df_eir = parse_eir (slice 14 (14 + nat eir_len) params)\<rparr>)))))"


section \<open>Lemmas\<close>

lemma unpack_le_append:
  "i = length xs \<Longrightarrow> 0 \<le> v \<Longrightarrow> v < 256 ^ n \<Longrightarrow> unpack_le n i (xs @ le_bytes n v @ ys) = Inr v"
  by (simp add: unpack_le_def slice_def from_le_le_bytes)

lemma pack_le_Inr: "pack_le n v = Inr bs \<Longrightarrow> bs = le_bytes n v \<and> 0 \<le> v \<and> v < 256 ^ n"
  by (auto simp: pack_le_def split: if_splits)

text \<open>The encoder of AD structures that the parser inverts: a length byte, the type, the value.\<close>

definition ad_field :: "byte \<times> bytes \<Rightarrow> bytes" where
  "ad_field a = word_of_nat (length (snd a) + 1) # fst a # snd a"

definition ad_fits :: "byte \<times> bytes \<Rightarrow> bool" where
  "ad_fits a \<longleftrightarrow> length (snd a) < 255"

text \<open>Where the parser stops: the end, a zero length, or a length that runs past the end.\<close>

definition eir_stop :: "bytes \<Rightarrow> bool" where
  "eir_stop t \<longleftrightarrow> t = [] \<or> unat (hd t) = 0 \<or> length (tl t) < unat (hd t)"

definition eir_map :: "(byte \<times> bytes) list \<Rightarrow> eir" where
  "eir_map ads = map_of (rev (map (\<lambda>(t, v). (uint t, v)) ads))"

lemma unat_ad_len: "ad_fits a \<Longrightarrow> unat (word_of_nat (length (snd a) + 1) :: byte) = length (snd a) + 1"
  by (simp only: unat_of_nat) (simp add: ad_fits_def)

lemma parse_eir_loop_stop: "eir_stop t \<Longrightarrow> parse_eir_loop (p @ t) (length p) out = out"
  by (subst parse_eir_loop.simps, cases t) (auto simp: eir_stop_def nth_append Let_def)

lemma parse_eir_loop_field:
  assumes "ad_fits a"
  shows "parse_eir_loop (p @ ad_field a @ r) (length p) out =
    parse_eir_loop ((p @ ad_field a) @ r) (length (p @ ad_field a)) (out(uint (fst a) \<mapsto> snd a))"
  using unat_ad_len [OF assms]
  by (subst parse_eir_loop.simps) (simp add: ad_field_def nth_append Let_def slice_def)

lemma parse_eir_loop_fields:
  "list_all ad_fits ads \<Longrightarrow> eir_stop t \<Longrightarrow>
   parse_eir_loop (p @ concat (map ad_field ads) @ t) (length p) out =
     out ++ map_of (rev (map (\<lambda>(t, v). (uint t, v)) ads))"
proof (induction ads arbitrary: p out)
  case Nil
  then show ?case by (simp add: parse_eir_loop_stop)
next
  case (Cons a ads)
  then have "parse_eir_loop (p @ concat (map ad_field (a # ads)) @ t) (length p) out =
      parse_eir_loop ((p @ ad_field a) @ concat (map ad_field ads) @ t) (length (p @ ad_field a))
        (out(uint (fst a) \<mapsto> snd a))"
    using parse_eir_loop_field [of a p "concat (map ad_field ads) @ t" out] by simp
  also have "\<dots> = out(uint (fst a) \<mapsto> snd a) ++ map_of (rev (map (\<lambda>(t, v). (uint t, v)) ads))"
    using Cons.prems by (intro Cons.IH) auto
  finally show ?case by (cases a) simp
qed

lemma eir_decompose:
  "\<exists>ads t. e = concat (map ad_field ads) @ t \<and> list_all ad_fits ads \<and> eir_stop t"
proof (induction e rule: length_induct)
  case (1 e)
  show ?case
  proof (cases "eir_stop e")
    case True
    then show ?thesis by (intro exI [of _ "[]"] exI [of _ e]) simp
  next
    case False
    then obtain b r where e: "e = b # r" and n: "unat b \<noteq> 0" "unat b \<le> length r"
      by (cases e) (auto simp: eir_stop_def)
    then obtain ty s where r: "r = ty # s" by (cases r) auto
    define v where "v = take (unat b - 1) s"
    have len: "length v = unat b - 1" using n r by (simp add: v_def)
    have "length v + 1 = unat b" using n len by simp
    moreover have "unat b < 256" by simp
    ultimately have a: "ad_field (ty, v) = b # ty # v" "ad_fits (ty, v)"
      by (simp_all add: ad_field_def ad_fits_def del: of_nat_add of_nat_Suc unat_byte_less)
    have "length (drop (unat b - 1) s) < length e" using e r by simp
    with "1.IH" obtain ads t where "drop (unat b - 1) s = concat (map ad_field ads) @ t"
      "list_all ad_fits ads" "eir_stop t" by blast
    then show ?thesis
      using a e r by (intro exI [of _ "(ty, v) # ads"] exI [of _ t])
        (simp add: v_def, metis append_take_drop_id)
  qed
qed

lemma signed_byte:
  assumes "- 128 \<le> r" "r < 128"
  shows "from_le_signed [word_of_int r] = r"
proof (cases "0 \<le> r")
  case False
  have "r mod 256 = r + 256" using assms False by (intro int_mod_pos_eq [of _ _ "- 1"]) auto
  then show ?thesis using assms False by (simp add: from_le_signed_def uint_word_of_int_byte Let_def)
qed (use assms in \<open>simp add: from_le_signed_def uint_word_of_int_byte Let_def\<close>)


section \<open>Properties\<close>

text \<open>
  A management command is parsed back to the opcode, index and parameters it was encoded
  from, also when more bytes follow it.
\<close>

theorem mgmt_packet_roundtrip:
  assumes "encode_command opcode index params = Inr pkt"
  shows "parse_packet (pkt @ rest) = Inr (opcode, index, params)"
proof -
  have "pkt = le_bytes 2 opcode @ le_bytes 2 index @ le_bytes 2 (int (length params)) @ params"
    and b: "0 \<le> opcode" "opcode < 256 ^ 2" "0 \<le> index" "index < 256 ^ 2"
      "int (length params) < 256 ^ 2"
    using assms by (auto simp: encode_command_def rbind_eq_Inr dest!: pack_le_Inr)
  then have "take 6 (pkt @ rest) =
      [] @ le_bytes 2 opcode @ le_bytes 2 index @ le_bytes 2 (int (length params)) @ []"
    and "slice 6 (6 + length params) (pkt @ rest) = params"
    by (simp_all add: slice_def)
  with b show ?thesis
    using unpack_le_append [of 0 "[]" opcode 2]
      unpack_le_append [of 2 "le_bytes 2 opcode" index 2]
      unpack_le_append [of 4 "le_bytes 2 opcode @ le_bytes 2 index" "int (length params)" 2 "[]"]
    by (simp add: parse_packet_def)
qed

theorem mgmt_packet_roundtrip_witness:
  "parse_packet ([0x23, 0, 0, 0, 1, 0, 6] @ [9, 9]) = Inr (MGMT_OP_START_DISCOVERY, 0, [SCAN_TYPE_LE])"
  by (rule mgmt_packet_roundtrip) code_simp

text \<open>
  C19.  Every byte string is a sequence of complete AD structures followed by data at which the
  parser stops (nothing, a zero length byte, or a structure cut short), and \<open>parse_eir\<close> returns
  exactly the map of those structures, the last one of a type winning.
\<close>

theorem parse_eir_complete:
  "\<exists>ads t. e = concat (map ad_field ads) @ t \<and> list_all ad_fits ads \<and> eir_stop t \<and>
     parse_eir e = eir_map ads"
proof -
  obtain ads t where "e = concat (map ad_field ads) @ t" "list_all ad_fits ads" "eir_stop t"
    using eir_decompose by blast
  moreover from this have "parse_eir e = eir_map ads"
    using parse_eir_loop_fields [of ads t "[]" Map.empty] by (simp add: parse_eir_def eir_map_def)
  ultimately show ?thesis by blast
qed

text \<open>
  Any sequence of AD structures with values of at most 254 bytes is parsed back exactly,
  whatever stops the parser after it.
\<close>

theorem parse_eir_encoded:
  assumes "list_all ad_fits ads" and "eir_stop t"
  shows "parse_eir (concat (map ad_field ads) @ t) = eir_map ads"
  using parse_eir_loop_fields [OF assms, of "[]" Map.empty] by (simp add: parse_eir_def eir_map_def)

theorem parse_eir_encoded_witness:
  "parse_eir [0x02, 0x01, 0x06, 0x05, 0x09, 0x42, 0x4d, 0x53, 0x21, 0x00, 0x07]
     = eir_map [(0x01, [0x06]), (0x09, [0x42, 0x4d, 0x53, 0x21])]"
proof -
  have "list_all ad_fits [(0x01, [0x06]), (0x09, [0x42, 0x4d, 0x53, 0x21])]"
    "eir_stop [0x00, 0x07]"
    by (simp_all add: ad_fits_def eir_stop_def)
  from parse_eir_encoded [OF this] show ?thesis by (simp add: ad_field_def)
qed

text \<open>
  C20.  A \<open>DEVICE_FOUND\<close> event in the kernel's layout is decoded to its address string, address
  type, signed RSSI, flags and EIR map.
\<close>

theorem parse_device_found_fields:
  assumes "length addr = 6" and "- 128 \<le> r" and "r < 128" and "0 \<le> fl" and "fl < 2 ^ 32"
    and "length e < 2 ^ 16"
  shows "parse_device_found
      (addr @ [t, word_of_int r] @ le_bytes 4 fl @ le_bytes 2 (int (length e)) @ e @ rest) =
    rbind (bdaddr_to_str addr) (\<lambda>a. Inr \<lparr>df_address = a, df_address_type = uint t, df_rssi = r,
      df_flags = fl, df_eir = parse_eir e\<rparr>)"
proof -
  let ?h = "addr @ [t, word_of_int r]"
  let ?p = "?h @ le_bytes 4 fl @ le_bytes 2 (int (length e)) @ e @ rest"
  have s: "slice 0 6 ?p = addr" "py_get ?p 6 = Inr t" "slice 7 8 ?p = [word_of_int r]"
    "slice 14 (14 + length e) ?p = e"
    using assms(1) by (simp_all add: slice_def py_get_def nth_append)
  have u: "unpack_le 4 8 ?p = Inr fl" "unpack_le 2 12 ?p = Inr (int (length e))"
    using unpack_le_append [of 8 ?h fl 4 "le_bytes 2 (int (length e)) @ e @ rest"]
      unpack_le_append [of 12 "?h @ le_bytes 4 fl" "int (length e)" 2 "e @ rest"] assms by simp_all
  have "8 \<le> length ?p" using assms(1) by simp
  with s u signed_byte [OF assms(2,3)] have "parse_device_found ?p =
    rbind (bdaddr_to_str addr) (\<lambda>a. Inr \<lparr>df_address = a, df_address_type = uint t, df_rssi = r,
      df_flags = fl, df_eir = parse_eir e\<rparr>)"
    by (simp only: parse_device_found_def if_True rbind_simps nat_int)
  then show ?thesis by simp
qed

theorem parse_device_found_fields_witness:
  "map_sum id df_rssi (parse_device_found
     ([0x45, 0x23, 0x02, 0x11, 0xa1, 0x20] @ [1, word_of_int (- 60)] @ le_bytes 4 0
        @ le_bytes 2 (int (length [0x02, 0x0a, 0x04 :: byte])) @ [0x02, 0x0a, 0x04] @ []))
   = Inr (- 60)"
  by (subst parse_device_found_fields) (simp_all add: bdaddr_to_str_def)

end
