(* ===== verification/Mgmt_Socket.thy ===== *)
theory Mgmt_Socket
  imports Mgmt_Codec L2CAP
begin

text \<open>
  \<open>MgmtSocket\<close> of \<open>bluek/_mgmt.py\<close>.  The object is the record \<open>mgmt\<close>; a future is a number, its
  value is in \<open>mg_futs\<close> (\<open>None\<close>: pending), and \<open>mg_pending\<close> maps opcodes to futures, so that two
  commands with one opcode share the entry as they do in the code.

  Handlers of found devices are values of a type \<open>'h\<close>; \<open>run h index df\<close> is what calling one does to
  the state \<open>'s\<close> of its owner, and may raise.  An exception in \<open>_read_ready\<close> is reported by the
  event loop and goes no further.  The kernel behind the socket is a \<open>peer\<close> (theory \<open>L2CAP\<close>): the
  outcomes of the \<open>send\<close> loop, and of the \<open>recv\<close> calls made while a command waits.
\<close>

section \<open>The socket object\<close>

record 'h mgmt =
  mg_closed :: bool
  mg_reader :: bool
  mg_pending :: "int \<rightharpoonup> nat"
  mg_futs :: "nat \<rightharpoonup> (int \<times> bytes) option"
  mg_next :: nat
  mg_handlers :: "'h list"

definition mgmt_init :: "'h mgmt" where
  "mgmt_init =
     \<lparr>mg_closed = False, mg_reader = True, mg_pending = Map.empty, mg_futs = Map.empty, mg_next = 0,
      mg_handlers = []\<rparr>"

text \<open>\<open>open\<close>: what \<open>socket\<close> (an \<open>errno\<close> or success) and \<open>bind\<close> (its \<open>errno\<close>, 0 on success) do.\<close>

record mgmt_kernel =
  mk_socket :: "int option"
  mk_bind :: int

definition mgmt_open :: "mgmt_kernel \<Rightarrow> 'h mgmt result" where
  "mgmt_open k =
     (case mk_socket k of
        Some e \<Rightarrow> Inl (os_error e)
      | None \<Rightarrow> if mk_bind k \<noteq> 0 then Inl (os_error (mk_bind k)) else Inr mgmt_init)"

definition add_device_found_handler :: "'h \<Rightarrow> 'h mgmt \<Rightarrow> 'h mgmt" where
  "add_device_found_handler h m = m\<lparr>mg_handlers := mg_handlers m @ [h]\<rparr>"

definition remove_device_found_handler :: "'h \<Rightarrow> 'h mgmt \<Rightarrow> 'h mgmt" where
  "remove_device_found_handler h m =
     (if h \<in> set (mg_handlers m) then m\<lparr>mg_handlers := remove1 h (mg_handlers m)\<rparr> else m)"

definition mgmt_close :: "'h mgmt \<Rightarrow> 'h mgmt" where
  "mgmt_close m = (if mg_closed m then m else m\<lparr>mg_closed := True, mg_reader := False\<rparr>)"


section \<open>Events\<close>

definition resolve :: "int \<Rightarrow> int \<Rightarrow> bytes \<Rightarrow> 'h mgmt \<Rightarrow> 'h mgmt" where
  "resolve opcode status data m =
     (case mg_pending m opcode of
        None \<Rightarrow> m
      | Some f \<Rightarrow>
          m\<lparr>mg_pending := (mg_pending m)(opcode := None),
            mg_futs := (if mg_futs m f = Some None then (mg_futs m)(f \<mapsto> Some (status, data))
                        else mg_futs m)\<rparr>)"

fun run_handlers :: "('h \<Rightarrow> int \<Rightarrow> device_found \<Rightarrow> ('s, unit) sx) \<Rightarrow> 'h list \<Rightarrow> int \<Rightarrow> device_found
    \<Rightarrow> ('s, unit) sx" where
  "run_handlers run [] index df s = (Inr (), s)"
| "run_handlers run (h # hs) index df s =
     sx_bind (run h index df) (\<lambda>_. run_handlers run hs index df) s"

definition opcode_status :: "bytes \<Rightarrow> (int \<times> int) result" where
  "opcode_status params =
     (if length params < 3 then Inl StructError
      else Inr (from_le (slice 0 2 params), uint (params ! 2)))"

definition mgmt_event :: "('h \<Rightarrow> int \<Rightarrow> device_found \<Rightarrow> ('s, unit) sx) \<Rightarrow> int \<Rightarrow> int \<Rightarrow> bytes
    \<Rightarrow> ('h mgmt \<times> 's, unit) sx" where
  "mgmt_event run event index params ms =
     (case ms of (m, s) \<Rightarrow>
        if event = MGMT_EV_DEVICE_FOUND then
          (case parse_device_found params of
             Inl e \<Rightarrow> (Inl e, (m, s))
           | Inr df \<Rightarrow> (let (r, s') = run_handlers run (mg_handlers m) index df s in (r, (m, s'))))
        else if event = MGMT_EV_CMD_COMPLETE then
          (case opcode_status params of
             Inl e \<Rightarrow> (Inl e, (m, s))
           | Inr (opcode, status) \<Rightarrow> (Inr (), (resolve opcode status (drop 3 params) m, s)))
        else if event = MGMT_EV_CMD_STATUS then
          (case opcode_status params of
             Inl e \<Rightarrow> (Inl e, (m, s))
           | Inr (opcode, status) \<Rightarrow> (Inr (), (resolve opcode status [] m, s)))
        else (Inr (), (m, s)))"

fun mgmt_read_ready :: "('h \<Rightarrow> int \<Rightarrow> device_found \<Rightarrow> ('s, unit) sx) \<Rightarrow> recv_outcome
    \<Rightarrow> ('h mgmt \<times> 's, unit) sx" where
  "mgmt_read_ready run RecvBlocked ms = (Inr (), ms)"
| "mgmt_read_ready run (RecvError e) ms = (Inr (), ms)"
| "mgmt_read_ready run (RecvData data) ms =
     (if length data < 6 then (Inr (), ms)
      else sx_bind (sx_lift (parse_packet data)) (\<lambda>(event, index, params). mgmt_event run event index params) ms)"

definition mgmt_pump :: "('h \<Rightarrow> int \<Rightarrow> device_found \<Rightarrow> ('s, unit) sx) \<Rightarrow> recv_outcome list
    \<Rightarrow> 'h mgmt \<times> 's \<Rightarrow> 'h mgmt \<times> 's" where
  "mgmt_pump run rs ms =
     fold (\<lambda>r ms. if mg_reader (fst ms) then snd (mgmt_read_ready run r ms) else ms) rs ms"


section \<open>Commands\<close>

definition begin_command :: "int \<Rightarrow> 'h mgmt \<Rightarrow> nat \<times> 'h mgmt" where
  "begin_command opcode m =
     (mg_next m, m\<lparr>mg_next := mg_next m + 1, mg_futs := (mg_futs m)(mg_next m \<mapsto> None),
                   mg_pending := (mg_pending m)(opcode \<mapsto> mg_next m)\<rparr>)"

definition end_command :: "int \<Rightarrow> 'h mgmt \<Rightarrow> 'h mgmt" where
  "end_command opcode m = m\<lparr>mg_pending := (mg_pending m)(opcode := None)\<rparr>"

definition mgmt_send :: "'p peer \<Rightarrow> 'h mgmt \<Rightarrow> bytes \<Rightarrow> 'p \<Rightarrow> unit result \<times> 'p" where
  "mgmt_send P m data p =
     (if mg_closed m then (Inl (os_error EBADF), p)
      else let (o', p') = peer_send P data p
           in (case l2_send (send_tries o') of Some r \<Rightarrow> r | None \<Rightarrow> Inl TimeoutError, p'))"

definition mgmt_command :: "'p peer \<Rightarrow> ('h \<Rightarrow> int \<Rightarrow> device_found \<Rightarrow> ('s, unit) sx) \<Rightarrow> int \<Rightarrow> int \<Rightarrow> bytes
    \<Rightarrow> ('h mgmt \<times> 's \<times> 'p, int \<times> bytes) sx" where
  "mgmt_command P run opcode index params st =
     (case st of (m, s, p) \<Rightarrow>
        let (f, m1) = begin_command opcode m
        in case encode_command opcode index params of
             Inl e \<Rightarrow> (Inl e, (m1, s, p))
           | Inr pdu \<Rightarrow>
               (case mgmt_send P m1 pdu p of
                  (Inl e, p1) \<Rightarrow> (Inl e, (m1, s, p1))
                | (Inr _, p1) \<Rightarrow>
                    (let (rs, p2) = peer_recv P p1; (m2, s2) = mgmt_pump run rs (m1, s)
                     in (case mg_futs m2 f of Some (Some r) \<Rightarrow> Inr r | _ \<Rightarrow> Inl TimeoutError,
                         (end_command opcode m2, s2, p2)))))"

definition read_controller_info :: "'p peer \<Rightarrow> ('h \<Rightarrow> int \<Rightarrow> device_found \<Rightarrow> ('s, unit) sx) \<Rightarrow> int
    \<Rightarrow> ('h mgmt \<times> 's \<times> 'p, string option) sx" where
  "read_controller_info P run index =
     sx_bind (mgmt_command P run MGMT_OP_READ_CONTROLLER_INFO index []) (\<lambda>(status, data).
       sx_lift (if status \<noteq> MGMT_STATUS_SUCCESS \<or> length data < 6 then Inr None
                else rbind (bdaddr_to_str (slice 0 6 data)) (\<lambda>a. Inr (Some a))))"

definition start_discovery :: "'p peer \<Rightarrow> ('h \<Rightarrow> int \<Rightarrow> device_found \<Rightarrow> ('s, unit) sx) \<Rightarrow> int
    \<Rightarrow> ('h mgmt \<times> 's \<times> 'p, bool) sx" where
  "start_discovery P run index =
     sx_bind (mgmt_command P run MGMT_OP_START_DISCOVERY index [SCAN_TYPE_LE]) (\<lambda>(status, _).
       sx_lift (Inr (status \<in> {MGMT_STATUS_SUCCESS, MGMT_STATUS_BUSY})))"

definition stop_discovery :: "'p peer \<Rightarrow> ('h \<Rightarrow> int \<Rightarrow> device_found \<Rightarrow> ('s, unit) sx) \<Rightarrow> int
    \<Rightarrow> ('h mgmt \<times> 's \<times> 'p, unit) sx" where
  "stop_discovery P run index st =
     (case mgmt_command P run MGMT_OP_STOP_DISCOVERY index [SCAN_TYPE_LE] st of
        (Inl e, st') \<Rightarrow> (if is_os_error e then Inr () else Inl e, st')
      | (Inr _, st') \<Rightarrow> (Inr (), st'))"


section \<open>What a batch of packets does\<close>

definition packet_of :: "recv_outcome \<Rightarrow> (int \<times> int \<times> bytes) option" where
  "packet_of r =
     (case r of
        RecvData data \<Rightarrow> if length data < 6 then None
          else (case parse_packet data of Inr x \<Rightarrow> Some x | Inl _ \<Rightarrow> None)
      | _ \<Rightarrow> None)"

definition reply_of :: "int \<Rightarrow> recv_outcome \<Rightarrow> (int \<times> bytes) option" where
  "reply_of opcode r =
     (case packet_of r of
        None \<Rightarrow> None
      | Some (event, index, params) \<Rightarrow>
          if event \<noteq> MGMT_EV_DEVICE_FOUND \<and> (event = MGMT_EV_CMD_COMPLETE \<or> event = MGMT_EV_CMD_STATUS)
            \<and> 3 \<le> length params \<and> from_le (slice 0 2 params) = opcode
          then Some (uint (params ! 2), if event = MGMT_EV_CMD_COMPLETE then drop 3 params else [])
          else None)"

definition found_of :: "recv_outcome \<Rightarrow> (int \<times> device_found) option" where
  "found_of r =
     (case packet_of r of
        None \<Rightarrow> None
      | Some (event, index, params) \<Rightarrow>
          if event = MGMT_EV_DEVICE_FOUND
          then (case parse_device_found params of Inr df \<Rightarrow> Some (index, df) | Inl _ \<Rightarrow> None) else None)"

text \<open>What the reports of a batch do to the owner of the handlers \<open>hs\<close>.\<close>

definition reports :: "('h \<Rightarrow> int \<Rightarrow> device_found \<Rightarrow> ('s, unit) sx) \<Rightarrow> 'h list \<Rightarrow> recv_outcome list \<Rightarrow> 's \<Rightarrow> 's"
where
  "reports run hs rs s =
     fold (\<lambda>(index, df) s. snd (run_handlers run hs index df s)) (List.map_filter found_of rs) s"

text \<open>Each pending opcode has a future of its own.\<close>

definition mg_wf :: "'h mgmt \<Rightarrow> bool" where
  "mg_wf m \<longleftrightarrow>
     (\<forall>opcode f. mg_pending m opcode = Some f \<longrightarrow> mg_futs m f = Some None)
     \<and> (\<forall>f. mg_futs m f \<noteq> None \<longrightarrow> f < mg_next m)
     \<and> inj_on (mg_pending m) (dom (mg_pending m))"

lemma mg_wf_init: "mg_wf mgmt_init"
  by (simp add: mg_wf_def mgmt_init_def)

lemma mg_wf_begin:
  assumes "mg_wf m" shows "mg_wf (snd (begin_command op m))"
proof -
  have "mg_pending m o' \<noteq> Some (mg_next m)" for o' using assms by (force simp: mg_wf_def)
  with assms show ?thesis
    by (auto simp: mg_wf_def begin_command_def inj_on_def less_Suc_eq dom_def)
qed

lemma mg_wf_end: "mg_wf m \<Longrightarrow> mg_wf (end_command op m)"
  by (auto simp: mg_wf_def end_command_def inj_on_def dom_def)

lemma mg_wf_resolve:
  assumes "mg_wf m" shows "mg_wf (resolve op st d m)"
proof (cases "mg_pending m op")
  case (Some f)
  have "mg_pending m o' \<noteq> Some f" if "o' \<noteq> op" for o'
    using assms Some that by (auto simp: mg_wf_def inj_on_def dom_def)
  with assms Some show ?thesis
    by (auto simp: mg_wf_def resolve_def inj_on_def dom_def)
qed (simp add: resolve_def assms)

lemma mgmt_read_ready_eq:
  "snd (mgmt_read_ready run r (m, s)) =
     (case packet_of r of
        None \<Rightarrow> (m, s) | Some (event, index, params) \<Rightarrow> snd (mgmt_event run event index params (m, s)))"
  by (cases r) (auto simp: packet_of_def split: sum.split)

definition after_reply :: "recv_outcome \<Rightarrow> 'h mgmt \<Rightarrow> 'h mgmt" where
  "after_reply r m =
     (case packet_of r of
        None \<Rightarrow> m
      | Some (event, index, params) \<Rightarrow>
          if event \<noteq> MGMT_EV_DEVICE_FOUND \<and> (event = MGMT_EV_CMD_COMPLETE \<or> event = MGMT_EV_CMD_STATUS)
            \<and> 3 \<le> length params
          then resolve (from_le (slice 0 2 params)) (uint (params ! 2))
                 (if event = MGMT_EV_CMD_COMPLETE then drop 3 params else []) m
          else m)"

lemma mgmt_read_ready_effects:
  "snd (mgmt_read_ready run r (m, s)) = (after_reply r m, reports run (mg_handlers m) [r] s)"
  unfolding mgmt_read_ready_eq
  by (auto simp: after_reply_def reports_def found_of_def mgmt_event_def opcode_status_def
      map_filter_simps split: option.split sum.split prod.split)


lemma resolve_fields [simp]:
  "mg_reader (resolve op st d m) = mg_reader m" "mg_handlers (resolve op st d m) = mg_handlers m"
  "mg_closed (resolve op st d m) = mg_closed m" "mg_next (resolve op st d m) = mg_next m"
  by (simp_all add: resolve_def split: option.split)

lemma after_reply_fields [simp]:
  "mg_reader (after_reply r m) = mg_reader m" "mg_handlers (after_reply r m) = mg_handlers m"
  "mg_closed (after_reply r m) = mg_closed m" "mg_next (after_reply r m) = mg_next m"
  by (auto simp: after_reply_def split: option.split)

lemma after_reply_wf: "mg_wf m \<Longrightarrow> mg_wf (after_reply r m)"
  by (auto simp: after_reply_def mg_wf_resolve split: option.split)

lemma reports_Nil [simp]: "reports run hs [] s = s"
  by (simp add: reports_def map_filter_simps)

lemma reports_Cons: "reports run hs (r # rs) s = reports run hs rs (reports run hs [r] s)"
  by (simp add: reports_def map_filter_simps split: option.split)

lemma mgmt_pump_eq:
  "mg_reader m \<Longrightarrow> mgmt_pump run rs (m, s) = (fold after_reply rs m, reports run (mg_handlers m) rs s)"
proof (induction rs arbitrary: m s)
  case (Cons r rs)
  from Cons.prems have "mgmt_pump run (r # rs) (m, s) = mgmt_pump run rs (after_reply r m, reports run (mg_handlers m) [r] s)"
    by (simp add: mgmt_pump_def mgmt_read_ready_effects)
  with Cons.IH [of "after_reply r m"] Cons.prems reports_Cons [of run "mg_handlers m" r rs s] show ?case
    by simp
qed (simp add: mgmt_pump_def)

lemma resolve_other:
  assumes "mg_wf m" "mg_pending m op = Some f" "op' \<noteq> op"
  shows "mg_pending (resolve op' st d m) op = Some f"
  using assms by (simp add: resolve_def split: option.split)

lemma resolve_futs: "mg_futs m f = Some (Some x) \<Longrightarrow> mg_futs (resolve op st d m) f = Some (Some x)"
  by (auto simp: resolve_def split: option.split)

lemma after_reply_other:
  assumes "mg_wf m" "mg_pending m op = Some f" "reply_of op r = None"
  shows "mg_pending (after_reply r m) op = Some f"
  using assms by (auto simp: after_reply_def reply_of_def resolve_other split: option.splits if_splits)

lemma after_reply_mine:
  assumes "mg_wf m" "mg_pending m op = Some f" "reply_of op r = Some x"
  shows "mg_futs (after_reply r m) f = Some (Some x)"
proof -
  have "mg_futs m f = Some None" using assms(1,2) by (simp add: mg_wf_def)
  with assms show ?thesis
    by (auto simp: after_reply_def reply_of_def resolve_def split: option.splits if_splits)
qed

lemma after_replies_done:
  "mg_futs m f = Some (Some x) \<Longrightarrow> mg_futs (fold after_reply rs m) f = Some (Some x)"
  by (induction rs arbitrary: m) (auto simp: after_reply_def resolve_futs split: option.split)

lemma after_replies_fields:
  "mg_reader (fold after_reply rs m) = mg_reader m" "mg_handlers (fold after_reply rs m) = mg_handlers m"
  "mg_closed (fold after_reply rs m) = mg_closed m"
  by (induction rs arbitrary: m) simp_all

lemma after_replies_wf: "mg_wf m \<Longrightarrow> mg_wf (fold after_reply rs m)"
  by (induction rs arbitrary: m) (simp_all add: after_reply_wf)

lemma after_replies_pending:
  assumes "mg_wf m" "mg_pending m op = Some f"
  shows "mg_futs (fold after_reply rs m) f =
    Some (case List.map_filter (reply_of op) rs of [] \<Rightarrow> None | x # _ \<Rightarrow> Some x)"
  using assms
proof (induction rs arbitrary: m)
  case Nil
  then show ?case by (simp add: map_filter_simps mg_wf_def)
next
  case (Cons r rs)
  show ?case
  proof (cases "reply_of op r")
    case None
    from Cons.IH [OF after_reply_wf [OF Cons.prems(1)] after_reply_other [OF Cons.prems None]] None
    show ?thesis by (simp add: map_filter_simps)
  next
    case (Some x)
    from after_replies_done [OF after_reply_mine [OF Cons.prems Some]] Some
    show ?thesis by (simp add: map_filter_simps)
  qed
qed


section \<open>Owners of handlers\<close>

text \<open>An owner whose handler keeps an invariant has it kept by every operation of the socket.\<close>

locale mgmt_owner =
  fixes run :: "'h \<Rightarrow> int \<Rightarrow> device_found \<Rightarrow> ('s, unit) sx" and ok :: "'s \<Rightarrow> bool"
  assumes handler_ok: "ok s \<Longrightarrow> ok (snd (run h index df s))"
begin

lemma handlers_ok: "ok s \<Longrightarrow> ok (snd (run_handlers run hs index df s))"
proof (induction hs arbitrary: s)
  case (Cons h hs)
  obtain r s' where r: "run h index df s = (r, s')" by (cases "run h index df s")
  with handler_ok [OF Cons.prems, of h index df] have "ok s'" by simp
  with Cons.IH r show ?case by (cases r) auto
qed simp

lemma reports_ok: "ok s \<Longrightarrow> ok (reports run hs rs s)"
proof -
  have "ok (fold (\<lambda>(index, df) s. snd (run_handlers run hs index df s)) xs s)" if "ok s" for xs
    using that by (induction xs arbitrary: s) (auto simp: handlers_ok)
  then show "ok s \<Longrightarrow> ok (reports run hs rs s)" by (simp add: reports_def)
qed

lemma pump_ok: "ok s \<Longrightarrow> ok (snd (mgmt_pump run rs (m, s)))"
proof (induction rs arbitrary: m s)
  case (Cons r rs)
  then show ?case
    by (simp add: mgmt_pump_def mgmt_read_ready_effects reports_ok)
qed (simp add: mgmt_pump_def)

lemma command_ok: "ok s \<Longrightarrow> mgmt_command P run op index params (m, s, p) = (r, (m', s', p')) \<Longrightarrow> ok s'"
  using pump_ok
  by (auto simp: mgmt_command_def split_beta Let_def split: sum.splits)

end


section \<open>Properties\<close>


definition one_peer :: "recv_outcome list peer" where
  "one_peer = \<lparr>peer_send = (\<lambda>_ p. ((0, None), p)), peer_recv = (\<lambda>p. (p, []))\<rparr>"


text \<open>A kernel that lets every socket open, and one that accepts commands and never answers.\<close>

definition open_kernel :: mgmt_kernel where "open_kernel = \<lparr>mk_socket = None, mk_bind = 0\<rparr>"

definition silent_peer :: "unit peer" where
  "silent_peer = \<lparr>peer_send = (\<lambda>_ p. ((0, None), p)), peer_recv = (\<lambda>p. ([], p))\<rparr>"

text \<open>Stopping a discovery raises neither a time-out nor an \<open>OSError\<close>, whatever the kernel does:
  the clean-up of the scans cannot mask the error that led to it.  (The index is one an adapter has.)\<close>

theorem stop_discovery_silent:
  assumes "0 \<le> index" "index < 0x10000"
  shows "fst (stop_discovery P run index st) = Inr ()"
proof -
  obtain m s p where st: "st = (m, s, p)" by (cases st) auto
  have "encode_command MGMT_OP_STOP_DISCOVERY index [SCAN_TYPE_LE]
      = Inr (le_bytes 2 MGMT_OP_STOP_DISCOVERY @ le_bytes 2 index @ le_bytes 2 1 @ [SCAN_TYPE_LE])"
    using assms by (simp add: encode_command_def pack_le_def MGMT_OP_STOP_DISCOVERY_def)
  then have "(case fst (mgmt_command P run MGMT_OP_STOP_DISCOVERY index [SCAN_TYPE_LE] st) of
      Inl e \<Rightarrow> is_os_error e | Inr _ \<Rightarrow> True)"
    by (auto simp: st mgmt_command_def mgmt_send_def split_beta Let_def split: sum.split option.split)
  then show ?thesis
    by (auto simp: stop_discovery_def split: prod.split sum.splits)
qed

theorem stop_discovery_silent_witness:
  "fst (stop_discovery one_peer (\<lambda>h i df s. (Inr (), s)) 0 (mgmt_close mgmt_init :: nat mgmt, (), [])) = Inr ()"
  by (rule stop_discovery_silent) simp_all

text \<open>Commands with one opcode must not overlap: the table has one entry per opcode, so when the
  first of two overlapping commands ends, a reply that comes later reaches neither; the second one
  can only time out.\<close>

theorem overlapping_command_loses_reply:
  "let (f1, m1) = begin_command opcode m; (f2, m2) = begin_command opcode m1
   in mg_futs (resolve opcode status data (end_command opcode m2)) f2 = Some None"
  by (simp add: begin_command_def end_command_def resolve_def)

end
