(* ===== verification/Hci.thy ===== *)
theory Hci
  imports Bdaddr
begin

text \<open>
  \<open>bluek/_hci.py\<close>: the map from an adapter specification (\<open>hciN\<close>, a controller MAC, or nothing) to
  a controller index, and from an index to the controller's address.  What the kernel and sysfs
  answer is the record \<open>hci_env\<close>: whether an HCI socket opens, the buffer the \<open>HCIGETDEVINFO\<close>
  ioctl leaves for an index (or its \<open>OSError\<close>), the names under \<open>/sys/class/bluetooth\<close> and the
  contents of the \<open>address\<close> files.
\<close>

record hci_env =
  hci_socket_ok :: bool
  hci_ioctl :: "int \<Rightarrow> bytes option"
  sysfs_names :: "string list option"
  sysfs_address :: "int \<Rightarrow> string option"


section \<open>Regular expressions\<close>

definition is_digit :: "char \<Rightarrow> bool" where
  "is_digit c = (let n = of_char c :: nat in 48 \<le> n \<and> n \<le> 57)"

definition py_int10 :: "string \<Rightarrow> int" where
  "py_int10 s = foldl (\<lambda>a c. 10 * a + int (of_char c - 48)) 0 s"

text \<open>The constants of the \<open>socket\<close> module that some builds of Python lack: they are added on Linux, and
  those that are there are kept.\<close>

definition default_attr :: "string \<Rightarrow> int \<Rightarrow> (string \<rightharpoonup> int) \<Rightarrow> (string \<rightharpoonup> int)" where
  "default_attr name v m = (if m name = None then m(name \<mapsto> v) else m)"

definition ensure_bluetooth_socket_constants :: "string \<Rightarrow> (string \<rightharpoonup> int) \<Rightarrow> (string \<rightharpoonup> int)" where
  "ensure_bluetooth_socket_constants platform m =
     (if \<not> prefix ''linux'' platform then m
      else default_attr ''BTPROTO_HCI'' 1 (default_attr ''AF_BLUETOOTH'' 31 m))"

lemma ensure_constants:
  assumes "prefix ''linux'' platform"
  shows "m \<subseteq>\<^sub>m ensure_bluetooth_socket_constants platform m"
    and "{''AF_BLUETOOTH'', ''BTPROTO_HCI''} \<subseteq> dom (ensure_bluetooth_socket_constants platform m)"
    and "ensure_bluetooth_socket_constants platform (ensure_bluetooth_socket_constants platform m)
      = ensure_bluetooth_socket_constants platform m"
  using assms by (auto simp: ensure_bluetooth_socket_constants_def default_attr_def map_le_def)

text \<open>\<open>_HCI_RE.fullmatch(s)\<close>, and the integer of its group.\<close>

definition hci_re :: "string \<Rightarrow> int option" where
  "hci_re s =
     (if prefix ''hci'' s \<and> drop 3 s \<noteq> [] \<and> list_all is_digit (drop 3 s)
      then Some (py_int10 (drop 3 s)) else None)"

text \<open>\<open>_MAC_RE.match(s)\<close>: six pairs of digits; \<open>$\<close> also matches before a final newline.\<close>

definition is_hex :: "char \<Rightarrow> bool" where
  "is_hex c \<longleftrightarrow> hexval c \<noteq> None"

definition mac_re :: "string \<Rightarrow> bool" where
  "mac_re s =
     (let t = take 17 s; parts = py_split (CHR '':'') t
      in drop 17 s \<in> set [[], [CHR 0x0A]] \<and> length parts = 6 \<and>
         list_all (\<lambda>p. length p = 2 \<and> list_all is_hex p) parts)"


section \<open>Lookups\<close>

definition hci_addr_for_index :: "hci_env \<Rightarrow> int \<Rightarrow> string option result" where
  "hci_addr_for_index env dev_id =
     (if \<not> hci_socket_ok env then Inr None
      else if dev_id < 0 \<or> dev_id > 0xFFFF then Inl StructError
      else case hci_ioctl env dev_id of
             None \<Rightarrow> Inr None
           | Some buf \<Rightarrow> Inr (Some (py_join '':'' (map fmt_02X (rev (slice 10 16 buf))))))"

definition candidate_hci_indices :: "hci_env \<Rightarrow> int list" where
  "candidate_hci_indices env =
     (let found = (case sysfs_names env of None \<Rightarrow> [] | Some names \<Rightarrow> List.map_filter hci_re names)
      in sort (remdups (map int [0..<8] @ found)))"

fun first_index :: "hci_env \<Rightarrow> string \<Rightarrow> int list \<Rightarrow> int option result" where
  "first_index env target [] = Inr None"
| "first_index env target (d # ds) =
     rbind (hci_addr_for_index env d) (\<lambda>a.
       if a = Some target then Inr (Some d) else first_index env target ds)"

definition index_for_mac :: "hci_env \<Rightarrow> string \<Rightarrow> int option result" where
  "index_for_mac env mac = first_index env (py_upper mac) (candidate_hci_indices env)"

definition adapter_index :: "hci_env \<Rightarrow> string option \<Rightarrow> int result" where
  "adapter_index env adapter =
     (case adapter of
        None \<Rightarrow> Inr 0
      | Some a \<Rightarrow>
          if a = [] \<or> a = ''default'' then Inr 0
          else case hci_re a of
            Some n \<Rightarrow> Inr n
          | None \<Rightarrow>
              if mac_re a then
                rbind (index_for_mac env a) (\<lambda>index.
                  case index of None \<Rightarrow> Inl ValueError | Some i \<Rightarrow> Inr i)
              else Inl ValueError)"

definition adapter_address :: "hci_env \<Rightarrow> int \<Rightarrow> string option result" where
  "adapter_address env index =
     (case sysfs_address env index of
        None \<Rightarrow> hci_addr_for_index env index
      | Some contents \<Rightarrow>
          let addr = py_upper (py_strip contents)
          in if addr \<noteq> [] then Inr (Some addr) else hci_addr_for_index env index)"


section \<open>Lemmas\<close>

lemma first_index_Some:
  "first_index env target ds = Inr (Some d) \<Longrightarrow>
   d \<in> set ds \<and> hci_addr_for_index env d = Inr (Some target)"
  by (induction ds) (auto simp: rbind_eq_Inr split: if_splits)

lemma first_index_least:
  "sorted ds \<Longrightarrow> first_index env target ds = Inr (Some d) \<Longrightarrow> e \<in> set ds \<Longrightarrow>
   hci_addr_for_index env e = Inr (Some target) \<Longrightarrow> d \<le> e"
  by (induction ds) (auto simp: rbind_eq_Inr split: if_splits dest: first_index_Some)

lemma sorted_candidates: "sorted (candidate_hci_indices env)"
  by (simp add: candidate_hci_indices_def Let_def)

lemma candidates_low: "0 \<le> i \<Longrightarrow> i < 8 \<Longrightarrow> i \<in> set (candidate_hci_indices env)"
proof -
  assume "0 \<le> i" "i < 8"
  then have "i \<in> int ` {0..<8}" by (auto intro: image_eqI [where x = "nat i"])
  then show ?thesis by (auto simp: candidate_hci_indices_def Let_def)
qed

lemma py_upper_upper: "py_upper (py_upper s) = py_upper s"
  by (auto simp: py_upper_def to_upper_def Let_def)

lemma py_upper_lower: "py_upper (py_lower s) = py_upper s"
  by (auto simp: py_upper_def to_upper_def py_lower_def to_lower_def Let_def)

lemma mac_not_hci: "mac_re a \<Longrightarrow> hci_re a = None"
proof -
  assume m: "mac_re a"
  have "\<not> prefix ''hci'' a"
  proof
    assume "prefix ''hci'' a"
    then obtain a' where "a = CHR ''h'' # a'" by (auto simp: prefix_def)
    then show False
      using m by (auto simp: mac_re_def Let_def is_hex_def hexval_def split: list.splits)
  qed
  then show ?thesis by (simp add: hci_re_def)
qed

lemma first_index_None:
  "first_index env target ds = Inr None \<Longrightarrow> d \<in> set ds \<Longrightarrow>
   hci_addr_for_index env d \<noteq> Inr (Some target)"
  by (induction ds) (auto simp: rbind_eq_Inr split: if_splits)

lemma first_index_Inl: "first_index env target ds = Inl e \<Longrightarrow> e = StructError"
  by (induction ds) (auto simp: rbind_def hci_addr_for_index_def split: sum.splits if_splits option.splits)

lemma adapter_index_mac_re:
  "mac_re a \<Longrightarrow> adapter_index env (Some a) =
     rbind (first_index env (py_upper a) (candidate_hci_indices env)) (\<lambda>index.
       case index of None \<Rightarrow> Inl ValueError | Some i \<Rightarrow> Inr i)"
  by (auto simp: adapter_index_def mac_not_hci index_for_mac_def mac_re_def)


section \<open>Properties\<close>

text \<open>
  Resolving a controller MAC gives the least candidate index whose controller reports exactly
  that address in upper case; it fails with \<open>ValueError\<close> only when no candidate reports it; and
  the letter case of the MAC does not matter.
\<close>

theorem adapter_index_mac:
  assumes "mac_re a"
  shows "(\<forall>i. adapter_index env (Some a) = Inr i \<longrightarrow>
       i \<in> set (candidate_hci_indices env) \<and>
       hci_addr_for_index env i = Inr (Some (py_upper a)) \<and>
       (\<forall>j. j \<in> set (candidate_hci_indices env) \<and>
            hci_addr_for_index env j = Inr (Some (py_upper a)) \<longrightarrow> i \<le> j))
   \<and> (adapter_index env (Some a) = Inl ValueError \<longrightarrow>
       \<not> (\<exists>j. j \<in> set (candidate_hci_indices env) \<and>
            hci_addr_for_index env j = Inr (Some (py_upper a))))
   \<and> (\<forall>b. mac_re b \<and> py_upper b = py_upper a \<longrightarrow>
       adapter_index env (Some b) = adapter_index env (Some a))"
proof (intro conjI allI impI)
  fix i assume "adapter_index env (Some a) = Inr i"
  then have f: "first_index env (py_upper a) (candidate_hci_indices env) = Inr (Some i)"
    by (auto simp: adapter_index_mac_re [OF assms] rbind_eq_Inr split: option.splits)
  show "i \<in> set (candidate_hci_indices env)" "hci_addr_for_index env i = Inr (Some (py_upper a))"
    using first_index_Some [OF f] by auto
  show "i \<le> j" if "j \<in> set (candidate_hci_indices env) \<and>
      hci_addr_for_index env j = Inr (Some (py_upper a))" for j
    using first_index_least [OF sorted_candidates f] that by blast
next
  assume "adapter_index env (Some a) = Inl ValueError"
  then have "first_index env (py_upper a) (candidate_hci_indices env) = Inr None"
    by (auto simp: adapter_index_mac_re [OF assms] rbind_def split: sum.splits option.splits
        dest: first_index_Inl)
  then show "\<not> (\<exists>j. j \<in> set (candidate_hci_indices env) \<and>
      hci_addr_for_index env j = Inr (Some (py_upper a)))"
    using first_index_None by blast
next
  fix b assume "mac_re b \<and> py_upper b = py_upper a"
  then show "adapter_index env (Some b) = adapter_index env (Some a)"
    by (simp add: adapter_index_mac_re assms)
qed

text \<open>Two controllers, the second with the wanted address (as in the unit test).\<close>

definition two_controllers :: hci_env where
  "two_controllers =
     \<lparr>hci_socket_ok = True,
      hci_ioctl = (\<lambda>i. if i = 0 then Some (replicate 10 0 @ [0x46, 0x4a, 0x47, 0x15, 0xef, 0x0c] @ replicate 80 0)
                       else if i = 1 then Some (replicate 10 0 @ [0x6d, 0x4a, 0x5f, 0x67, 0xcf, 0x2c] @ replicate 80 0)
                       else None),
      sysfs_names = Some [''hci0'', ''hci1'', ''hci0:16''],
      sysfs_address = (\<lambda>_. None)\<rparr>"

theorem adapter_index_mac_witness:
  "adapter_index two_controllers (Some ''2c:cf:67:5f:4a:6d'') = Inr 1 \<and>
   hci_addr_for_index two_controllers 1 = Inr (Some ''2C:CF:67:5F:4A:6D'')"
proof -
  have m: "mac_re ''2c:cf:67:5f:4a:6d''" by code_simp
  have i: "adapter_index two_controllers (Some ''2c:cf:67:5f:4a:6d'') = Inr 1" by code_simp
  have "py_upper ''2c:cf:67:5f:4a:6d'' = ''2C:CF:67:5F:4A:6D''" by code_simp
  with i show ?thesis using adapter_index_mac [OF m, of two_controllers] by simp
qed

end
