(* ===== verification/Connect.thy ===== *)
theory Connect
  imports Client Mgmt_Socket Hci
begin

text \<open>
  \<open>BleakClient.connect\<close> of \<open>bluek/client.py\<close>: the constructor, the short scan that makes the kernel
  know the peer, and the attempts to connect within the caller's budget.

  Times are integers, in nanoseconds, and exact where the code computes with floats.  The world
  \<open>'w\<close> answers, per call: how a connection attempt with a given budget goes (the system calls of
  theory \<open>L2CAP\<close>, how long they took, and the state of the peer), how the scan's socket goes, and by
  how much a sleep overruns.  The loop of \<open>connect\<close> ends because every round that is followed by
  another one sleeps, and sleeps only before the deadline.
\<close>

section \<open>Construction\<close>

definition client_new ::
  "hci_env \<Rightarrow> string \<Rightarrow> int option \<Rightarrow> bool \<Rightarrow> string option \<Rightarrow> ('t, 'cb) client result" where
  "client_new env addr address_type callback adapter =
     rbind (adapter_index env adapter) (\<lambda>index.
       Inr \<lparr>cl_address = addr, cl_peer_type = address_type, cl_adapter = adapter, cl_index = index,
            cl_callback = callback, cl_att = None, cl_services = no_services, cl_connected = False,
            cl_cccd_handles = Map.empty, cl_disconnected = 0\<rparr>)"

definition candidate_types :: "int option \<Rightarrow> int list" where
  "candidate_types peer_type =
     (case peer_type of
        Some t \<Rightarrow> if t \<in> {BDADDR_LE_PUBLIC, BDADDR_LE_RANDOM} then [t]
                  else [BDADDR_LE_PUBLIC, BDADDR_LE_RANDOM]
      | None \<Rightarrow> [BDADDR_LE_PUBLIC, BDADDR_LE_RANDOM])"


section \<open>The scan before a connection\<close>

definition CONNECT_RETRY_DELAY :: int where "CONNECT_RETRY_DELAY = 300000000"
definition CONNECT_PRESCAN_BUDGET :: int where "CONNECT_PRESCAN_BUDGET = 2000000000"
definition PRESCAN_STEP :: int where "PRESCAN_STEP = 50000000"

record prescan =
  ps_index :: int
  ps_target :: string
  ps_seen :: "int option"

definition prescan_found :: "int \<Rightarrow> device_found \<Rightarrow> (prescan, unit) sx" where
  "prescan_found idx df s =
     (Inr (), if idx = ps_index s \<and> py_upper (df_address df) = ps_target s
              then s\<lparr>ps_seen := Some (df_address_type df)\<rparr> else s)"

abbreviation prescan_run :: "unit \<Rightarrow> int \<Rightarrow> device_found \<Rightarrow> (prescan, unit) sx" where
  "prescan_run \<equiv> \<lambda>_. prescan_found"

text \<open>The steps of the wait; in each the loop delivers what the socket receives.\<close>

fun prescan_wait :: "'q peer \<Rightarrow> nat \<Rightarrow> unit mgmt \<times> prescan \<times> 'q
    \<Rightarrow> int option \<times> (unit mgmt \<times> prescan \<times> 'q)" where
  "prescan_wait Q 0 st = (None, st)"
| "prescan_wait Q (Suc n) (m, s, q) =
     (let (rs, q') = peer_recv Q q; (m', s') = mgmt_pump prescan_run rs (m, s)
      in if ps_seen s' \<noteq> None then (ps_seen s', (m', s', q')) else prescan_wait Q n (m', s', q'))"

definition prescan_steps :: "int \<Rightarrow> nat" where
  "prescan_steps budget = nat (max 1 (budget div PRESCAN_STEP))"

definition ensure_kernel_knows_peer ::
  "mgmt_kernel \<Rightarrow> 'q peer \<Rightarrow> int \<Rightarrow> string \<Rightarrow> int \<Rightarrow> ('q, int option) sx" where
  "ensure_kernel_knows_peer k Q index target_mac budget q =
     (if budget \<le> 0 then (Inr None, q)
      else case mgmt_open k of
        Inl e \<Rightarrow> (if is_os_error e then Inr None else Inl e, q)
      | Inr m \<Rightarrow>
          (let s = \<lparr>ps_index = index, ps_target = py_upper target_mac, ps_seen = None\<rparr>;
               (r, st1) = start_discovery Q prescan_run index (add_device_found_handler () m, s, q);
               (seen, st2) = (case r of Inl e \<Rightarrow> (None, st1) | Inr _ \<Rightarrow> prescan_wait Q (prescan_steps budget) st1);
               (r2, (m3, s3, q3)) = stop_discovery Q prescan_run index st2
           in (rbind r2 (\<lambda>_. rbind r (\<lambda>_. Inr seen)), q3)))"


section \<open>Attempts\<close>

record ('w, 'p, 'q) net =
  n_hci :: hci_env
  n_attempt :: "int \<Rightarrow> 'w \<Rightarrow> (l2_kernel \<times> nat \<times> 'p) \<times> 'w"
  n_sleep :: "'w \<Rightarrow> nat \<times> 'w"
  n_prescan :: "'w \<Rightarrow> (mgmt_kernel \<times> nat \<times> 'q) \<times> 'w"
  n_l2 :: "'p peer"
  n_mgmt :: "'q peer"

record 'w tries =
  t_now :: int
  t_world :: 'w
  t_last_exc :: "exn option"
  t_transient :: bool

text \<open>The \<open>for\<close> loop over the address types.  The result is the socket and the type it was reached
  with, if there is one.\<close>

fun try_types ::
  "('w, 'p, 'q) net \<Rightarrow> string \<Rightarrow> string option \<Rightarrow> int \<Rightarrow> int list
   \<Rightarrow> ('w tries, ((l2 \<times> 'p) \<times> int) option) sx" where
  "try_types N dst src deadline [] st = (Inr None, st)"
| "try_types N dst src deadline (peer_type # ts) st =
     (let remaining = deadline - t_now st
      in if remaining \<le> 0 then (Inr None, st)
         else
           let ((k, elapsed, p), w) = n_attempt N remaining (t_world st);
               st1 = st\<lparr>t_now := t_now st + int elapsed, t_world := w\<rparr>
           in case fst (l2_connect k dst peer_type src) of
                Inr l2 \<Rightarrow> (Inr (Some ((l2, p), peer_type)), st1)
              | Inl e \<Rightarrow>
                  if e = TimeoutError then
                    try_types N dst src deadline ts (st1\<lparr>t_last_exc := Some e\<rparr>)
                  else if is_os_error e then
                    try_types N dst src deadline ts (st1\<lparr>t_last_exc := Some e, t_transient := True\<rparr>)
                  else (Inl e, st1))"

lemma try_types_now: "t_now st \<le> t_now (snd (try_types N dst src deadline ts st))"
proof (induction ts arbitrary: st)
  case (Cons t ts)
  obtain k el p w where a: "n_attempt N (deadline - t_now st) (t_world st) = ((k, el, p), w)"
    by (metis prod.exhaust)
  let ?st = "st\<lparr>t_now := t_now st + int el, t_world := w\<rparr>"
  have "t_now st \<le> t_now (snd (try_types N dst src deadline ts (?st\<lparr>t_last_exc := x\<rparr>)))"
    "t_now st \<le> t_now (snd (try_types N dst src deadline ts (?st\<lparr>t_last_exc := x, t_transient := y\<rparr>)))"
    for x y
    using Cons.IH [of "?st\<lparr>t_last_exc := x\<rparr>"] Cons.IH [of "?st\<lparr>t_last_exc := x, t_transient := y\<rparr>"]
    by simp_all
  then show ?case
    using a by (auto simp: Let_def split: sum.split)
qed simp

lemma try_types_result_now:
  "(r, st1) = try_types N dst src deadline ts (st\<lparr>t_transient := False\<rparr>) \<Longrightarrow> t_now st \<le> t_now st1"
  using try_types_now [of "st\<lparr>t_transient := False\<rparr>" N dst src deadline ts] by (metis snd_conv tries.select_convs(1) tries.surjective tries.update_convs(4))

text \<open>The \<open>while\<close> loop.\<close>

function connect_loop ::
  "('w, 'p, 'q) net \<Rightarrow> string \<Rightarrow> string option \<Rightarrow> int \<Rightarrow> int option
   \<Rightarrow> ('w tries, ((l2 \<times> 'p) \<times> int) option) sx" where
  "connect_loop N dst src deadline peer_type st =
     (case try_types N dst src deadline (candidate_types peer_type) (st\<lparr>t_transient := False\<rparr>) of
        (Inr None, st1) \<Rightarrow>
          if \<not> t_transient st1 \<or> deadline - t_now st1 \<le> CONNECT_RETRY_DELAY then (Inr None, st1)
          else
            let (over, w) = n_sleep N (t_world st1)
            in connect_loop N dst src deadline peer_type
                 (st1\<lparr>t_now := t_now st1 + CONNECT_RETRY_DELAY + int over, t_world := w\<rparr>)
      | x \<Rightarrow> x)"
  by pat_completeness auto
termination
  by (relation "measure (\<lambda>(N, dst, src, deadline, pt, st). nat (deadline - t_now st))")
    (auto simp: CONNECT_RETRY_DELAY_def dest!: try_types_result_now)

declare connect_loop.simps [simp del]


section \<open>Connecting\<close>

definition client_connected ::
  "('w, 'p, 'q) net \<Rightarrow> (l2 \<times> 'p) \<Rightarrow> (l2 \<times> 'p, 'cb) client \<Rightarrow> (l2 \<times> 'p, 'cb) client" where
  "client_connected N t c =
     c\<lparr>cl_att := Some (att_init (l2_start_reader True (fst t), snd t)), cl_connected := True\<rparr>"

text \<open>\<open>await self._att.exchange_mtu(); await self._discover_services()\<close>, and the clean-up.\<close>

definition set_up :: "('w, 'p, 'q) net \<Rightarrow> ((l2 \<times> 'p, 'cb) client, unit) sx" where
  "set_up N c =
     (case cl_att c of
        None \<Rightarrow> (Inl AttributeError, c)
      | Some a \<Rightarrow>
          sx_bind (on_att (exchange_mtu (l2_transport (n_l2 N)) PREFERRED_MTU) a)
            (\<lambda>_. discover_services (l2_transport (n_l2 N))) c)"

definition client_setup :: "('w, 'p, 'q) net \<Rightarrow> ((l2 \<times> 'p, 'cb) client, unit) sx" where
  "client_setup N c =
     (case set_up N c of
        (Inl e, c') \<Rightarrow> (Inl e, snd (client_disconnect (l2_transport (n_l2 N)) c'))
      | (Inr _, c') \<Rightarrow> (Inr (), c'))"

text \<open>The state of \<open>connect\<close>: the client, the clock and the world.\<close>

definition prescan_phase ::
  "('w, 'p, 'q) net \<Rightarrow> int \<Rightarrow> (('t, 'cb) client \<times> int \<times> 'w, unit) sx" where
  "prescan_phase N timeout st =
     (case st of (c, now, w) \<Rightarrow>
        let budget = min CONNECT_PRESCAN_BUDGET (max 0 (timeout - 1000000000))
        in if budget > 0 then
             (let ((k, elapsed, q), w1) = n_prescan N w;
                  (r, _) = ensure_kernel_knows_peer k (n_mgmt N) (cl_index c) (cl_address c) budget q
              in case r of
                   Inl e \<Rightarrow> (Inl e, (c, now + int elapsed, w1))
                 | Inr observed \<Rightarrow>
                     (Inr (), (if observed \<in> {Some BDADDR_LE_PUBLIC, Some BDADDR_LE_RANDOM}
                               then c\<lparr>cl_peer_type := observed\<rparr> else c, now + int elapsed, w1)))
           else (Inr (), st))"

definition client_connect ::
  "('w, 'p, 'q) net \<Rightarrow> int \<Rightarrow> ((l2 \<times> 'p, 'cb) client \<times> int \<times> 'w, unit) sx" where
  "client_connect N timeout st =
     (case st of (c, now, w) \<Rightarrow>
        case adapter_address (n_hci N) (cl_index c) of
          Inl e \<Rightarrow> (Inl e, st)
        | Inr src \<Rightarrow>
            (case prescan_phase N timeout st of
               (Inl e, st1) \<Rightarrow> (Inl e, st1)
             | (Inr _, (c1, now1, w1)) \<Rightarrow>
                 (case connect_loop N (cl_address c1) src (now + timeout) (cl_peer_type c1)
                         \<lparr>t_now = now1, t_world = w1, t_last_exc = None, t_transient = False\<rparr> of
                    (Inl e, ts) \<Rightarrow> (Inl e, (c1, t_now ts, t_world ts))
                  | (Inr None, ts) \<Rightarrow>
                      (Inl (BleakDeviceNotFoundError (cl_address c1) (t_last_exc ts)),
                       (c1, t_now ts, t_world ts))
                  | (Inr (Some (t, peer_type)), ts) \<Rightarrow>
                      (let (r, c2) = client_setup N (client_connected N t (c1\<lparr>cl_peer_type := Some peer_type\<rparr>))
                       in (r, (c2, t_now ts, t_world ts))))))"


text \<open>\<open>async with\<close>: \<open>connect\<close> with its default time, the body, and \<open>disconnect\<close> however the body ends.  With the
  result comes the link that was closed.\<close>

definition client_with ::
  "('w, 'p, 'q) net \<Rightarrow> ((l2 \<times> 'p, 'cb) client, 'a) sx \<Rightarrow> (l2 \<times> 'p, 'cb) client \<times> int \<times> 'w
   \<Rightarrow> 'a result \<times> (l2 \<times> 'p) option \<times> ((l2 \<times> 'p, 'cb) client \<times> int \<times> 'w)" where
  "client_with N body st =
     (case client_connect N 10000000000 st of
        (Inl e, st1) \<Rightarrow> (Inl e, None, st1)
      | (Inr _, (c1, now, w)) \<Rightarrow>
          (let (r, c2) = body c1; (closed, c3) = client_disconnect (l2_transport (n_l2 N)) c2 in (r, closed, (c3, now, w))))"


section \<open>Properties\<close>

text \<open>An attempt that keeps its budget: the wait for the connection is \<open>asyncio.wait_for\<close> with it.\<close>

definition attempts_bounded :: "('w, 'p, 'q) net \<Rightarrow> bool" where
  "attempts_bounded N \<longleftrightarrow>
     (\<forall>rem w. 0 < rem \<longrightarrow> (case fst (n_attempt N rem w) of (k, elapsed, p) \<Rightarrow> int elapsed \<le> rem))
     \<and> (\<forall>w. fst (n_sleep N w) = 0)"

lemma try_types_bounded:
  assumes "attempts_bounded N" "t_now st \<le> deadline"
  shows "t_now (snd (try_types N dst src deadline ts st)) \<le> deadline"
  using assms(2)
proof (induction ts arbitrary: st)
  case (Cons t ts)
  obtain k el p w where a: "n_attempt N (deadline - t_now st) (t_world st) = ((k, el, p), w)"
    by (metis prod.exhaust)
  show ?case
  proof (cases "deadline - t_now st \<le> 0")
    case False
    then have "0 < deadline - t_now st" by simp
    note assms(1) [unfolded attempts_bounded_def, THEN conjunct1, rule_format, OF this, of "t_world st"]
    with a have "int el \<le> deadline - t_now st" by simp
    with Cons.IH a False show ?thesis by (auto simp: Let_def split: sum.split)
  qed (use Cons.prems in simp)
qed simp

lemma connect_loop_bounded:
  "attempts_bounded N \<Longrightarrow> t_now st \<le> deadline \<Longrightarrow>
   t_now (snd (connect_loop N dst src deadline pt st)) \<le> deadline"
proof (induction N dst src deadline pt st rule: connect_loop.induct)
  case (1 N dst src deadline pt st)
  obtain r st1 where r: "try_types N dst src deadline (candidate_types pt) (st\<lparr>t_transient := False\<rparr>) = (r, st1)"
    by (cases "try_types N dst src deadline (candidate_types pt) (st\<lparr>t_transient := False\<rparr>)")
  have b: "t_now st1 \<le> deadline"
    using try_types_bounded [OF 1(2), of "st\<lparr>t_transient := False\<rparr>" deadline dst src "candidate_types pt"] 1(3) r
    by simp
  obtain over w where o: "n_sleep N (t_world st1) = (over, w)" by (cases "n_sleep N (t_world st1)")
  with 1(2) have "over = 0" unfolding attempts_bounded_def by (metis fst_conv)
  show ?case
  proof (cases "r = Inr None \<and> t_transient st1 \<and> deadline - t_now st1 > CONNECT_RETRY_DELAY")
    case True
    then have "t_now (snd (connect_loop N dst src deadline pt
        (st1\<lparr>t_now := t_now st1 + CONNECT_RETRY_DELAY + int over, t_world := w\<rparr>))) \<le> deadline"
      by (intro "1.IH" [OF r [symmetric]]) (use 1(2) o \<open>over = 0\<close> in auto)
    with True r o show ?thesis by (subst connect_loop.simps) simp
  next
    case False
    with r b show ?thesis
      by (subst connect_loop.simps) (auto split: sum.split option.split)
  qed
qed


definition absent :: "('w, 'p, 'q) net \<Rightarrow> string \<Rightarrow> string option \<Rightarrow> bool" where
  "absent N dst src \<longleftrightarrow>
     (\<forall>rem w t. fst (l2_connect (fst (fst (n_attempt N rem w))) dst t src) = Inl TimeoutError)"

lemma try_types_absent:
  assumes "absent N dst src"
  shows "fst (try_types N dst src deadline ts st) = Inr None
    \<and> t_transient (snd (try_types N dst src deadline ts st)) = t_transient st"
proof (induction ts arbitrary: st)
  case (Cons t ts)
  obtain k el p w where a: "n_attempt N (deadline - t_now st) (t_world st) = ((k, el, p), w)"
    by (metis prod.exhaust)
  with assms have "fst (l2_connect k dst t src) = Inl TimeoutError"
    unfolding absent_def by (metis fst_conv)
  with Cons a show ?case by (simp add: Let_def)
qed simp

text \<open>An absent peer is not tried again: when every attempt times out, there is one attempt per
  candidate address type, at most two, and the loop ends after them without a socket.\<close>

theorem absent_peer_tried_once:
  assumes "absent N dst src"
  shows "connect_loop N dst src deadline pt st =
    (Inr None, snd (try_types N dst src deadline (candidate_types pt) (st\<lparr>t_transient := False\<rparr>)))
    \<and> length (candidate_types pt) \<le> 2"
proof -
  obtain r st1 where r: "try_types N dst src deadline (candidate_types pt) (st\<lparr>t_transient := False\<rparr>) = (r, st1)"
    by (cases "try_types N dst src deadline (candidate_types pt) (st\<lparr>t_transient := False\<rparr>)")
  from try_types_absent [OF assms, of deadline "candidate_types pt" "st\<lparr>t_transient := False\<rparr>"] r
  have "r = Inr None" "\<not> t_transient st1" by simp_all
  with r show ?thesis
    by (subst connect_loop.simps) (simp add: candidate_types_def split: option.split)
qed

lemma discover_services_att: "discover_services T c1 = (Inr u, c2) \<Longrightarrow> \<exists>a. cl_att c2 = Some a"
  by (auto simp: discover_services_def sx_bind_def on_att_def Let_def split: option.splits prod.splits sum.splits)

lemma client_setup_Inr: "client_setup N c = (Inr u, c') \<Longrightarrow> \<exists>a. cl_att c' = Some a"
  by (auto simp: client_setup_def set_up_def sx_bind_def dest: discover_services_att
      split: prod.splits sum.splits option.splits)

lemma client_setup_Inl:
  "client_setup N c = (Inl e, c') \<Longrightarrow>
   cl_att c' = None \<and> \<not> cl_connected c' \<and> cl_cccd_handles c' = Map.empty"
  by (auto simp: client_setup_def client_disconnect_def client_teardown_def
      split: prod.splits sum.splits)

lemma connect_outcome:
  assumes "cl_att c = None" "\<not> cl_connected c" "cl_cccd_handles c = Map.empty"
  shows "case client_connect N timeout (c, now, w) of
      (Inr _, (c', _)) \<Rightarrow> cl_att c' \<noteq> None
    | (Inl e, (c', _)) \<Rightarrow> cl_att c' = None \<and> \<not> cl_connected c' \<and> cl_cccd_handles c' = Map.empty"
proof -
  have p: "cl_att (fst st1) = None \<and> \<not> cl_connected (fst st1) \<and> cl_cccd_handles (fst st1) = Map.empty"
    if "prescan_phase N timeout (c, now, w) = (r, st1)" for r st1
    using that assms by (auto simp: prescan_phase_def Let_def split: if_splits prod.splits sum.splits)
  show ?thesis
    using p assms
    by (auto simp: client_connect_def dest: client_setup_Inr client_setup_Inl
        split: prod.split sum.split option.split)
qed



text \<open>A client used as a context manager is released: whether \<open>connect\<close> raises, the body raises or all
  goes well, it holds no connection afterwards, and the link the body left is closed.\<close>

theorem client_with_releases:
  assumes "cl_att c = None" "\<not> cl_connected c" "cl_cccd_handles c = Map.empty"
  shows "case client_with N body (c, now, w) of (r, closed, (c', _)) \<Rightarrow>
    cl_att c' = None \<and> \<not> cl_connected c' \<and> cl_cccd_handles c' = Map.empty
    \<and> (case closed of None \<Rightarrow> True | Some t \<Rightarrow> l2_closed (fst t))"
  using connect_outcome [OF assms, of N 10000000000 now w]
  by (auto simp: client_with_def client_disconnect_def client_teardown_def att_close_def l2_transport_def l2_close_def
      split: prod.splits sum.splits option.splits)

text \<open>A world in which the kernel is silent: every attempt waits out its budget.\<close>

definition silent_net :: "(unit, unit, unit) net" where
  "silent_net =
     \<lparr>n_hci = \<lparr>hci_socket_ok = False, hci_ioctl = (\<lambda>_. None), sysfs_names = None, sysfs_address = (\<lambda>_. None)\<rparr>,
      n_attempt = (\<lambda>rem w. ((\<lparr>k_socket = None, k_bind = (\<lambda>_. 0), k_connect = (\<lambda>_. EINPROGRESS), k_wait = None\<rparr>,
                             nat rem, ()), w)),
      n_sleep = (\<lambda>w. (0, w)), n_prescan = (\<lambda>w. ((open_kernel, 0, ()), w)),
      n_l2 = \<lparr>peer_send = (\<lambda>_ p. ((0, None), p)), peer_recv = (\<lambda>p. ([], p))\<rparr>, n_mgmt = silent_peer\<rparr>"

definition demo_mac :: string where "demo_mac = ''C8:47:8C:E1:E2:E3''"

lemma demo_mac_bdaddr: "str_to_bdaddr demo_mac = Inr [0xE3, 0xE2, 0xE1, 0x8C, 0x47, 0xC8]"
  by code_simp

lemma silent_absent: "absent silent_net demo_mac None"
  by (simp add: absent_def silent_net_def l2_connect_def l2_connect_steps_def demo_mac_bdaddr
      l2_wait_connected_def Let_def EINPROGRESS_def)


theorem absent_peer_tried_once_witness:
  "fst (connect_loop silent_net demo_mac None 500 None
     \<lparr>t_now = 20, t_world = (), t_last_exc = None, t_transient = False\<rparr>) = Inr None"
  using absent_peer_tried_once [OF silent_absent] by simp


text \<open>The scan before a connection is documented to return \<open>None\<close> when nothing is seen, so that the
  caller goes on; but when the management socket accepts the commands and does not answer, the
  command's time-out (5 s, more than the scan's own budget) escapes from it, and from \<open>connect\<close>.\<close>

theorem silent_prescan_raises:
  "fst (ensure_kernel_knows_peer open_kernel silent_peer 0 demo_mac CONNECT_PRESCAN_BUDGET ()) = Inl TimeoutError
   \<and> fst (client_connect silent_net 10000000000
        (\<lparr>cl_address = demo_mac, cl_peer_type = None, cl_adapter = None, cl_index = 0, cl_callback = True,
          cl_att = None, cl_services = no_services, cl_connected = False, cl_cccd_handles = Map.empty,
          cl_disconnected = 0\<rparr> :: (l2 \<times> unit, nat) client, 0, ())) = Inl TimeoutError"
proof -
  have 1: "ensure_kernel_knows_peer open_kernel silent_peer 0 a CONNECT_PRESCAN_BUDGET () = (Inl TimeoutError, ())" for a
    by (simp add: ensure_kernel_knows_peer_def CONNECT_PRESCAN_BUDGET_def open_kernel_def mgmt_open_def
        start_discovery_def stop_discovery_def mgmt_command_def begin_command_def encode_command_def
        pack_le_def MGMT_OP_START_DISCOVERY_def MGMT_OP_STOP_DISCOVERY_def mgmt_send_def silent_peer_def
        mgmt_init_def add_device_found_handler_def mgmt_pump_def end_command_def sx_bind_def Let_def)
  have 2: "adapter_address (n_hci silent_net) 0 = Inr None"
    by (simp add: adapter_address_def silent_net_def hci_addr_for_index_def)
  have "min CONNECT_PRESCAN_BUDGET (max 0 (10000000000 - 1000000000)) = CONNECT_PRESCAN_BUDGET" "0 < CONNECT_PRESCAN_BUDGET"
    by (simp_all add: CONNECT_PRESCAN_BUDGET_def)
  with 1 2 show ?thesis
    by (simp add: client_connect_def prescan_phase_def Let_def silent_net_def)
qed

end
