(* ===== verification/Device.thy ===== *)
theory Device
  imports Mgmt_Codec Uuids
begin

text \<open>
  \<open>bluek/device.py\<close>: \<open>BLEDevice\<close>, and \<open>AdvertisementData\<close> built from the AD fields of a report.  The
  two dictionaries of the latter have at most one entry; they are maps.
\<close>

record ble_device =
  ble_address :: string
  ble_name :: "ustr option"
  ble_rssi :: int
  ble_address_type :: "int option"

definition ble_device_eq :: "ble_device \<Rightarrow> ble_device \<Rightarrow> bool" where
  "ble_device_eq a b \<longleftrightarrow>
     ble_address a = ble_address b \<and> ble_name a = ble_name b \<and> ble_rssi a = ble_rssi b"

record adv_data =
  adv_local_name :: "ustr option"
  adv_rssi :: int
  adv_service_uuids :: "string list"
  adv_manufacturer_data :: "int \<rightharpoonup> bytes"
  adv_service_data :: "string \<rightharpoonup> bytes"
  adv_tx_power :: "int option"
  adv_platform_data :: eir

definition UUID16_INCOMPLETE :: int where "UUID16_INCOMPLETE = 0x02"
definition UUID16_COMPLETE :: int where "UUID16_COMPLETE = 0x03"
definition UUID128_INCOMPLETE :: int where "UUID128_INCOMPLETE = 0x06"
definition UUID128_COMPLETE :: int where "UUID128_COMPLETE = 0x07"
definition TX_POWER :: int where "TX_POWER = 0x0A"
definition MANUFACTURER :: int where "MANUFACTURER = 0xFF"
definition SERVICE_DATA_16 :: int where "SERVICE_DATA_16 = 0x16"

lemmas ad_types = UUID16_INCOMPLETE_def UUID16_COMPLETE_def UUID128_INCOMPLETE_def
  UUID128_COMPLETE_def TX_POWER_def MANUFACTURER_def SERVICE_DATA_16_def

text \<open>\<open>blob = eir.get(t); if blob:\<close> then the UUIDs of its slices; an absent and an empty field give
  none.\<close>

definition blob_of :: "eir \<Rightarrow> int \<Rightarrow> bytes" where
  "blob_of eir ad_type = (case eir ad_type of None \<Rightarrow> [] | Some b \<Rightarrow> b)"

definition uuids_16 :: "bytes \<Rightarrow> string list result" where
  "uuids_16 blob = rmap (\<lambda>c. normalize_uuid_16 (from_le c)) (chunks_all 2 blob)"

definition uuids_128 :: "bytes \<Rightarrow> string list result" where
  "uuids_128 blob = rmap uuid_from_bytes (chunks_all 16 blob)"

definition service_uuids :: "eir \<Rightarrow> string list result" where
  "service_uuids eir =
     rbind (uuids_16 (blob_of eir UUID16_INCOMPLETE)) (\<lambda>a.
     rbind (uuids_16 (blob_of eir UUID16_COMPLETE)) (\<lambda>b.
     rbind (uuids_128 (blob_of eir UUID128_INCOMPLETE)) (\<lambda>c.
     rbind (uuids_128 (blob_of eir UUID128_COMPLETE)) (\<lambda>d.
       Inr (a @ b @ c @ d)))))"

definition advertisement_data :: "eir \<Rightarrow> int \<Rightarrow> adv_data result" where
  "advertisement_data eir rssi =
     rbind (service_uuids eir) (\<lambda>uuids.
     let md = blob_of eir MANUFACTURER; sd = blob_of eir SERVICE_DATA_16; tx = blob_of eir TX_POWER
     in rbind (if length sd \<ge> 2
               then rbind (normalize_uuid_16 (from_le (take 2 sd))) (\<lambda>u. Inr [u \<mapsto> drop 2 sd])
               else Inr Map.empty) (\<lambda>service_data.
        Inr \<lparr>adv_local_name = eir_name eir, adv_rssi = rssi, adv_service_uuids = uuids,
             adv_manufacturer_data =
               (if length md \<ge> 2 then [from_le (take 2 md) \<mapsto> drop 2 md] else Map.empty),
             adv_service_data = service_data,
             adv_tx_power = (if tx \<noteq> [] then Some (from_le_signed tx) else None),
             adv_platform_data = eir\<rparr>))"


section \<open>Lemmas\<close>

lemma chunks_all_length:
  "0 < n \<Longrightarrow> c \<in> set (chunks_all n xs) \<Longrightarrow> 0 < length c \<and> length c \<le> n"
  by (induction n xs rule: chunks_all.induct) (subst (asm) (2) chunks_all.simps, auto split: if_splits)

lemma chunks_all_Nil [simp]: "chunks_all n [] = []"
  by (subst chunks_all.simps) simp

lemma chunks_all_append [simp]:
  "length x = n \<Longrightarrow> 0 < n \<Longrightarrow> chunks_all n (x @ ys) = x # chunks_all n ys"
  by (subst chunks_all.simps) auto

lemma chunks_all_short: "xs \<noteq> [] \<Longrightarrow> length xs \<le> n \<Longrightarrow> chunks_all n xs = [xs]"
  by (subst chunks_all.simps) (cases n, auto)

lemma from_le_u16: "length c \<le> 2 \<Longrightarrow> 0 \<le> from_le c \<and> from_le c < 65536"
  using from_le_less [of c] power_increasing [of "length c" 2 "256 :: int"] by auto

lemma normalize_u16: "length c \<le> 2 \<Longrightarrow> normalize_uuid_16 (from_le c) = Inr (uuid_str (from_le c * 2 ^ 96 + BASE_UUID))"
  using from_le_u16 [of c] normalize_short16 [of "from_le c"]
  by (simp add: normalize_uuid_16_def fmt_hex_hexw)

text \<open>Every 16-bit list is accepted, a trailing odd byte included.\<close>

lemma uuids_16_total:
  "uuids_16 blob = Inr (map (\<lambda>c. uuid_str (from_le c * 2 ^ 96 + BASE_UUID)) (chunks_all 2 blob))"
  unfolding uuids_16_def
  by (rule rmap_Inr_map, rule normalize_u16) (use chunks_all_length [of 2] in auto)

lemma uuids_128_whole:
  "list_all (\<lambda>c. length c = 16) cs \<Longrightarrow> uuids_128 (concat cs) = Inr (map (\<lambda>c. uuid_str (from_le c)) cs)"
  by (induction cs) (simp_all add: uuids_128_def uuid_from_bytes_16)

lemma uuid_from_bytes_Inl: "length d \<notin> {2, 4, 16} \<Longrightarrow> uuid_from_bytes d = Inl ValueError"
  by (simp add: uuid_from_bytes_def)

text \<open>A list of 128-bit UUIDs is accepted exactly when its last slice has a length UUIDs have.\<close>

lemma uuids_128_outcome:
  "(if length blob mod 16 \<in> {0, 2, 4} then (\<exists>us. uuids_128 blob = Inr us)
    else uuids_128 blob = Inl ValueError)"
proof (induction "16 :: nat" blob rule: chunks_all.induct)
  case (1 blob)
  show ?case
  proof (cases "length blob \<le> 16")
    case True
    show ?thesis
    proof (cases "blob = []")
      case False
      with True have "chunks_all 16 blob = [blob]" by (simp add: chunks_all_short)
      then have u: "uuids_128 blob = rbind (uuid_from_bytes blob) (\<lambda>u. Inr [u])"
        by (simp add: uuids_128_def)
      show ?thesis
      proof (cases "length blob \<in> {2, 4, 16}")
        case True
        then show ?thesis
          using uuid_from_bytes_2 [of blob] uuid_from_bytes_4 [of blob] uuid_from_bytes_16 [of blob] u by auto
      next
        case False
        with \<open>length blob \<le> 16\<close> \<open>blob \<noteq> []\<close> have "length blob mod 16 \<notin> {0, 2, 4}"
          by (cases "length blob = 16") auto
        with u uuid_from_bytes_Inl [OF False] show ?thesis by simp
      qed
    qed (simp add: uuids_128_def)
  next
    case False
    then have t: "length (take 16 blob) = 16" and m: "length (drop 16 blob) mod 16 = length blob mod 16"
      by (simp_all add: le_mod_geq)
    have "chunks_all 16 blob = take 16 blob # chunks_all 16 (drop 16 blob)"
      using False by (subst chunks_all.simps) auto
    then have u: "uuids_128 blob = rbind (uuids_128 (drop 16 blob)) (\<lambda>us. Inr (uuid_str (from_le (take 16 blob)) # us))"
      using uuid_from_bytes_16 [OF t] by (simp add: uuids_128_def)
    have "if length (drop 16 blob) mod 16 \<in> {0, 2, 4} then \<exists>us. uuids_128 (drop 16 blob) = Inr us
        else uuids_128 (drop 16 blob) = Inl ValueError"
      by (rule 1) (use False in auto)
    then show ?thesis unfolding m using u by (auto split: if_splits)
  qed
qed


section \<open>Properties\<close>

text \<open>C21.  \<open>AdvertisementData\<close> accepts a report exactly when each of its two lists of 128-bit UUIDs
  ends in a slice of 0, 2, 4 or 16 bytes, and raises \<open>ValueError\<close> otherwise: no other field of a
  report, however malformed, makes it fail.\<close>

theorem advertisement_accepted:
  "if length (blob_of eir UUID128_INCOMPLETE) mod 16 \<in> {0, 2, 4}
      \<and> length (blob_of eir UUID128_COMPLETE) mod 16 \<in> {0, 2, 4}
   then (\<exists>adv. advertisement_data eir rssi = Inr adv \<and> adv_local_name adv = eir_name eir
           \<and> adv_rssi adv = rssi)
   else advertisement_data eir rssi = Inl ValueError"
proof -
  let ?x = "uuids_128 (blob_of eir UUID128_INCOMPLETE)" and ?y = "uuids_128 (blob_of eir UUID128_COMPLETE)"
  let ?p = "length (blob_of eir UUID128_INCOMPLETE) mod 16 \<in> {0, 2, 4}"
  let ?q = "length (blob_of eir UUID128_COMPLETE) mod 16 \<in> {0, 2, 4}"
  obtain u where u: "normalize_uuid_16 (from_le (take 2 (blob_of eir SERVICE_DATA_16))) = Inr u"
    using normalize_u16 [of "take 2 (blob_of eir SERVICE_DATA_16)"] by auto
  note x = uuids_128_outcome [of "blob_of eir UUID128_INCOMPLETE"]
  note y = uuids_128_outcome [of "blob_of eir UUID128_COMPLETE"]
  consider "?p" "?q" | "\<not> ?p" | "?p" "\<not> ?q" by argo
  then show ?thesis
  proof cases
    case 1
    with x y obtain c d where "?x = Inr c" "?y = Inr d" by auto
    then have "\<exists>adv. advertisement_data eir rssi = Inr adv \<and> adv_local_name adv = eir_name eir \<and> adv_rssi adv = rssi"
      using u by (simp add: advertisement_data_def service_uuids_def uuids_16_total Let_def)
    with 1 show ?thesis by simp
  next
    case 2
    with x have "?x = Inl ValueError" by simp
    then have "advertisement_data eir rssi = Inl ValueError"
      by (simp add: advertisement_data_def service_uuids_def uuids_16_total)
    with 2 show ?thesis by simp
  next
    case 3
    with x y obtain c where "?x = Inr c" "?y = Inl ValueError" by auto
    then have "advertisement_data eir rssi = Inl ValueError"
      by (simp add: advertisement_data_def service_uuids_def uuids_16_total)
    with 3 show ?thesis by simp
  qed
qed

text \<open>The UUIDs a peer advertises are the ones reported: lists of 16-bit and of 128-bit UUIDs,
  encoded as the specification lays them out, come back in order in canonical form.\<close>

theorem advertised_uuids:
  assumes "eir UUID16_COMPLETE = Some (concat (map (le_bytes 2) us))"
    and "eir UUID128_COMPLETE = Some (concat (map (le_bytes 16) vs))"
    and "eir UUID16_INCOMPLETE = None" "eir UUID128_INCOMPLETE = None"
    and "list_all (\<lambda>u. 0 \<le> u \<and> u < 2 ^ 16) us" "list_all (\<lambda>v. 0 \<le> v \<and> v < 2 ^ 128) vs"
  shows "service_uuids eir = Inr (map (\<lambda>u. uuid_str (u * 2 ^ 96 + BASE_UUID)) us @ map uuid_str vs)"
proof -
  have 1: "chunks_all 2 (concat (map (le_bytes 2) us)) = map (le_bytes 2) us"
    by (induction us) auto
  have 2: "map (\<lambda>c. uuid_str (from_le c * 2 ^ 96 + BASE_UUID)) (map (le_bytes 2) us)
      = map (\<lambda>u. uuid_str (u * 2 ^ 96 + BASE_UUID)) us"
    using assms(5) by (induction us) (auto simp: from_le_le_bytes)
  have 3: "uuids_128 (concat (map (le_bytes 16) vs)) = Inr (map (\<lambda>c. uuid_str (from_le c)) (map (le_bytes 16) vs))"
    by (rule uuids_128_whole) (simp add: list_all_iff)
  have 4: "map (\<lambda>c. uuid_str (from_le c)) (map (le_bytes 16) vs) = map uuid_str vs"
    using assms(6) by (induction vs) (auto simp: from_le_le_bytes)
  have "uuids_128 [] = Inr []" by (simp add: uuids_128_def)
  then show ?thesis
    using assms(1-4) by (simp only: service_uuids_def blob_of_def uuids_16_total option.case rbind_simps
        1 2 3 4) (simp add: uuids_16_total)
qed

theorem advertised_uuids_witness:
  "service_uuids [UUID16_COMPLETE \<mapsto> [0xE0, 0xFF], UUID128_COMPLETE \<mapsto> []] = Inr [uuid_str (0xFFE0 * 2 ^ 96 + BASE_UUID)]"
proof -
  have "le_bytes 2 0xFFE0 = [0xE0, 0xFF]" by code_simp
  with advertised_uuids [of "[UUID16_COMPLETE \<mapsto> [0xE0, 0xFF], UUID128_COMPLETE \<mapsto> []]" "[0xFFE0]" "[]"]
  show ?thesis by (simp add: ad_types)
qed

end
