(* ===== verification/Side_Modules.thy ===== *)
theory Side_Modules
  imports Connect Device
begin

text \<open>
  The modules around the client: \<open>bluek/pairing.py\<close> (a session with \<open>bluetoothctl\<close>),
  \<open>bluek/shadow.py\<close> (the import path), and \<open>bluek/_shadow/bleak_retry_connector\<close> (connecting with
  retries).
\<close>

section \<open>Pairing\<close>

text \<open>
  The regular expressions, on a line of output: searching a pattern without regard to case, and
  the three success patterns, whose \<open>.\<close> does not match a line end.
\<close>

definition ci_prefix :: "string \<Rightarrow> string \<Rightarrow> bool" where
  "ci_prefix pat s \<longleftrightarrow> prefix (py_lower pat) (py_lower s)"

text \<open>What follows the occurrences of the pattern.\<close>

fun ci_after :: "string \<Rightarrow> string \<Rightarrow> string list" where
  "ci_after pat [] = (if pat = [] then [[]] else [])"
| "ci_after pat (c # cs) =
     (if ci_prefix pat (c # cs) then [drop (length pat) (c # cs)] else []) @ ci_after pat cs"

definition ci_search :: "string \<Rightarrow> string \<Rightarrow> bool" where
  "ci_search pat s \<longleftrightarrow> ci_after pat s \<noteq> []"

definition success_re :: "string \<Rightarrow> bool" where
  "success_re line \<longleftrightarrow>
     ci_search ''Pairing successful'' line
     \<or> list_ex (\<lambda>r. ci_search ''paired'' (takeWhile (\<lambda>c. c \<noteq> CHR 0x0A) r)) (ci_after ''already'' line)
     \<or> list_ex (\<lambda>r. ci_prefix ''yes'' (dropWhile is_space r)) (ci_after ''Paired:'' line)"

definition passkey_re :: "string \<Rightarrow> bool" where
  "passkey_re line \<longleftrightarrow>
     ci_search ''passkey'' line \<or> ci_search ''PIN code'' line \<or> ci_search ''Enter'' line"

definition contains :: "string \<Rightarrow> string \<Rightarrow> bool" where
  "contains pat s \<longleftrightarrow> sublist pat s"

definition controller_address :: "hci_env \<Rightarrow> string option \<Rightarrow> string option result" where
  "controller_address env adapter =
     (case rbind (adapter_index env adapter) (adapter_address env) of
        Inl ValueError \<Rightarrow> Inr None
      | r \<Rightarrow> r)"

text \<open>The user's callback: a string, another true value, a false value, or an exception.\<close>

datatype answer = AnswerStr string | AnswerTrue | AnswerFalse | AnswerRaise exn

text \<open>What \<open>readline\<close> does next: a line after some time, the end of the output, or nothing until the
  time is up.\<close>

datatype proc_out = Line string nat | Eof nat | Silence

text \<open>The loop: whether pairing succeeded (or the exception of the callback), and the lines sent.\<close>

fun pair_loop :: "(nat \<Rightarrow> answer) option \<Rightarrow> nat \<Rightarrow> int \<Rightarrow> proc_out list \<Rightarrow> bool result \<times> string list" where
  "pair_loop cb n remaining [] = (Inr False, [])"
| "pair_loop cb n remaining (x # xs) =
     (if remaining \<le> 0 then (Inr False, [])
      else case x of
        Silence \<Rightarrow> (Inr False, [])
      | Eof t \<Rightarrow> (Inr False, [])
      | Line line t \<Rightarrow>
          if int t \<ge> remaining then (Inr False, [])
          else if success_re line then (Inr True, [])
          else if contains ''Failed to pair'' line then (Inr False, [])
          else if passkey_re line then
            (case cb of
               None \<Rightarrow> pair_loop cb n (remaining - int t) xs
             | Some f \<Rightarrow>
                 (case f n of
                    AnswerStr s \<Rightarrow>
                      (let (r, ls) = pair_loop cb (n + 1) (remaining - int t) xs in (r, s # ls))
                  | AnswerTrue \<Rightarrow>
                      (let (r, ls) = pair_loop cb (n + 1) (remaining - int t) xs in (r, ''yes'' # ls))
                  | AnswerFalse \<Rightarrow> pair_loop cb (n + 1) (remaining - int t) xs
                  | AnswerRaise e \<Rightarrow> (Inl e, [])))
          else pair_loop cb n (remaining - int t) xs)"

definition pair_with_bluetoothctl ::
  "hci_env \<Rightarrow> string \<Rightarrow> string option \<Rightarrow> (nat \<Rightarrow> answer) option \<Rightarrow> int \<Rightarrow> proc_out list
   \<Rightarrow> bool result \<times> string list" where
  "pair_with_bluetoothctl env addr adapter cb timeout out =
     (case controller_address env adapter of
        Inl e \<Rightarrow> (Inl e, [])
      | Inr ctrl \<Rightarrow>
          (let intro = (case ctrl of None \<Rightarrow> []
                        | Some a \<Rightarrow> if a = [] then [] else [''select '' @ a])
                 @ [''agent on'', ''default-agent'', ''pair '' @ addr];
               (r, ls) = pair_loop cb 0 timeout out;
               success = (r = Inr True);
               sent = intro @ ls @ (if success then [''trust '' @ addr] else []) @ [''quit'']
           in (rbind r (\<lambda>_. if success then Inr True
                 else Inl (BleakError (''bluetoothctl pairing with '' @ addr @ '' failed''))), sent)))"

definition remove_with_bluetoothctl :: "string \<Rightarrow> int \<Rightarrow> string list \<times> bool" where
  "remove_with_bluetoothctl addr returncode =
     ([''bluetoothctl'', ''remove'', addr], returncode = 0)"

text \<open>The methods of \<open>BleakClient\<close>.\<close>

definition client_pair ::
  "hci_env \<Rightarrow> (nat \<Rightarrow> answer) option \<Rightarrow> proc_out list \<Rightarrow> ('t, 'cb) client \<Rightarrow> bool result \<times> string list" where
  "client_pair env cb out c =
     pair_with_bluetoothctl env (cl_address c) (cl_adapter c) cb 30000000000 out"

definition client_unpair :: "int \<Rightarrow> ('t, 'cb) client \<Rightarrow> string list \<times> bool" where
  "client_unpair returncode c = remove_with_bluetoothctl (cl_address c) returncode"

lemma pair_loop_success:
  "fst (pair_loop cb n remaining out) = Inr True \<Longrightarrow>
   \<exists>line t. Line line t \<in> set out \<and> success_re line \<and> int t < remaining"
proof (induction cb n remaining out rule: pair_loop.induct)
  case (2 cb n remaining x xs)
  then show ?case
    by (auto simp: split_beta Let_def split: if_splits proc_out.splits option.splits answer.splits) fastforce+
qed simp


definition quiet_env :: hci_env where
  "quiet_env = \<lparr>hci_socket_ok = False, hci_ioctl = (\<lambda>_. None), sysfs_names = None, sysfs_address = (\<lambda>_. None)\<rparr>"



section \<open>The shadowed import path\<close>

datatype file_attr = NoFile | FileNone | FilePath string

record interpreter =
  py_path :: "string list"
  py_modules :: "string \<rightharpoonup> file_attr"
  py_warnings :: nat

definition is_shadow_module :: "string \<Rightarrow> file_attr \<Rightarrow> bool result" where
  "is_shadow_module shadow_dir m =
     (case m of
        NoFile \<Rightarrow> Inr (prefix shadow_dir [])
      | FileNone \<Rightarrow> Inl AttributeError
      | FilePath f \<Rightarrow> Inr (prefix shadow_dir f))"

definition shadow_install :: "string \<Rightarrow> (interpreter, unit) sx" where
  "shadow_install shadow_dir s =
     (case (case py_modules s ''bleak'' of
              None \<Rightarrow> Inr False
            | Some m \<Rightarrow> rbind (is_shadow_module shadow_dir m) (\<lambda>b. Inr (\<not> b))) of
        Inl e \<Rightarrow> (Inl e, s)
      | Inr warn \<Rightarrow>
          (let s1 = (if warn then s\<lparr>py_warnings := py_warnings s + 1\<rparr> else s)
           in (Inr (), if shadow_dir \<notin> set (py_path s1)
                       then s1\<lparr>py_path := shadow_dir # py_path s1\<rparr> else s1)))"

definition shadow_active :: "string \<Rightarrow> interpreter \<Rightarrow> bool" where
  "shadow_active shadow_dir s \<longleftrightarrow> shadow_dir \<in> set (py_path s)"

text \<open>Installing the shadow puts its directory on the path once, in front if it was not there, and
  installing it again changes nothing on the path, nor anything else of it.\<close>

theorem shadow_install_idempotent:
  assumes "shadow_install d s = (Inr (), s1)" "shadow_install d s1 = (Inr (), s2)"
  shows "shadow_active d s1 \<and> py_path s2 = py_path s1
    \<and> count_list (py_path s1) d = (if d \<in> set (py_path s) then count_list (py_path s) d else 1)
    \<and> filter (\<lambda>x. x \<noteq> d) (py_path s1) = filter (\<lambda>x. x \<noteq> d) (py_path s)"
  using assms
  by (auto simp: shadow_install_def shadow_active_def Let_def split: option.splits sum.splits if_splits)

theorem shadow_install_idempotent_witness:
  "shadow_active ''/shadow'' (snd (shadow_install ''/shadow''
     \<lparr>py_path = [''/usr''], py_modules = Map.empty, py_warnings = 0\<rparr>))"
proof -
  let ?s = "\<lparr>py_path = [''/usr''], py_modules = Map.empty, py_warnings = 0\<rparr>"
  let ?s1 = "\<lparr>py_path = [''/shadow'', ''/usr''], py_modules = Map.empty, py_warnings = 0\<rparr>"
  have 1: "shadow_install ''/shadow'' ?s = (Inr (), ?s1)" by (simp add: shadow_install_def)
  have "shadow_install ''/shadow'' ?s1 = (Inr (), ?s1)" by (simp add: shadow_install_def)
  from shadow_install_idempotent [OF 1 this] 1 show ?thesis by simp
qed


section \<open>Connecting with retries\<close>

text \<open>
  The class of clients \<open>establish_connection\<close> is given: construction, \<open>connect\<close> and \<open>disconnect\<close>, on
  a world \<open>'w\<close>, and the pause between attempts.  The result comes with the clients that were given up.
\<close>

record ('c, 'w) client_class =
  k_new :: "('w, 'c) sx"
  k_connect :: "('c \<times> 'w, unit) sx"
  k_disconnect :: "('c \<times> 'w, unit) sx"
  k_sleep :: "int \<Rightarrow> 'w \<Rightarrow> 'w"

definition MAX_CONNECT_ATTEMPTS :: nat where "MAX_CONNECT_ATTEMPTS = 4"

fun establish_from :: "('c, 'w) client_class \<Rightarrow> nat \<Rightarrow> nat \<Rightarrow> exn option \<Rightarrow> 'w
    \<Rightarrow> 'c result \<times> 'c list \<times> 'w" where
  "establish_from K attempt 0 last_exc w =
     (Inl (case last_exc of Some e \<Rightarrow> e | None \<Rightarrow> RuntimeError), [], w)"
| "establish_from K attempt (Suc n) last_exc w =
     (case k_new K w of
        (Inl e, w1) \<Rightarrow> (Inl e, [], w1)
      | (Inr client, w1) \<Rightarrow>
          (case k_connect K (client, w1) of
             (Inr _, (c, w2)) \<Rightarrow> (Inr c, [], w2)
           | (Inl e, (c, w2)) \<Rightarrow>
               (let (_, (c', w3)) = k_disconnect K (c, w2);
                    w4 = k_sleep K (250000000 * (int attempt + 1)) w3;
                    (r, cs, w5) = establish_from K (attempt + 1) n (Some e) w4
                in (r, c' # cs, w5))))"

definition establish_connection :: "('c, 'w) client_class \<Rightarrow> nat \<Rightarrow> 'w \<Rightarrow> 'c result \<times> 'c list \<times> 'w" where
  "establish_connection K max_attempts w = establish_from K 0 max_attempts None w"

definition close_stale_connections :: "ble_device \<Rightarrow> bool \<Rightarrow> 'w \<Rightarrow> unit \<times> 'w" where
  "close_stale_connections device only_other_adapters w = ((), w)"

text \<open>What the retries rely on: a client that is new, or whose \<open>connect\<close> has failed, holds no
  connection, and \<open>disconnect\<close> does not change that.\<close>

locale retry_client =
  fixes K :: "('c, 'w) client_class" and free :: "'c \<Rightarrow> bool" and held :: "'c \<Rightarrow> bool"
  assumes new_free: "k_new K w = (Inr c, w') \<Longrightarrow> free c"
    and connect_fails: "free c \<Longrightarrow> k_connect K (c, w) = (Inl e, (c', w')) \<Longrightarrow> free c'"
    and connect_holds: "free c \<Longrightarrow> k_connect K (c, w) = (Inr u, (c', w')) \<Longrightarrow> held c'"
    and disconnect_free: "free c \<Longrightarrow> k_disconnect K (c, w) = (r, (c', w')) \<Longrightarrow> free c'"
begin

lemma establish_keeps:
  "establish_from K attempt n le w = (r, cs, w') \<Longrightarrow>
   list_all free cs \<and> length cs \<le> n \<and> (\<forall>c. r = Inr c \<longrightarrow> held c \<and> length cs < n)"
proof (induction n arbitrary: attempt le w r cs w')
  case (Suc n)
  show ?case
  proof (cases "k_new K w")
    case (Pair x w1)
    show ?thesis
    proof (cases x)
      case (Inr c0)
      obtain y c w2 where y: "k_connect K (c0, w1) = (y, (c, w2))" by (metis prod.exhaust)
      have c0: "free c0" using new_free Pair Inr by blast
      show ?thesis
      proof (cases y)
        case (Inl e)
        obtain z c' w3 where z: "k_disconnect K (c, w2) = (z, (c', w3))" by (metis prod.exhaust)
        obtain r' cs' w5 where s: "establish_from K (attempt + 1) n (Some e)
            (k_sleep K (250000000 * (int attempt + 1)) w3) = (r', cs', w5)" by (metis prod.exhaust)
        have "free c'" using connect_fails [OF c0] disconnect_free y z Inl by blast
        with Suc.IH [OF s] Suc.prems Pair \<open>x = Inr c0\<close> y Inl z s show ?thesis by auto
      next
        case (Inr u)
        with connect_holds [OF c0] y Suc.prems Pair \<open>x = Inr c0\<close> show ?thesis by auto
      qed
    qed (use Suc.prems Pair in auto)
  qed
qed simp

end

text \<open>The class \<open>BleakClient\<close>, for one device.\<close>

definition bleak_class ::
  "('w, 'p, 'q) net \<Rightarrow> string \<Rightarrow> int option \<Rightarrow> bool \<Rightarrow> ((l2 \<times> 'p, 'cb) client, int \<times> 'w) client_class" where
  "bleak_class N addr address_type callback =
     \<lparr>k_new = (\<lambda>w. (client_new (n_hci N) addr address_type callback None, w)),
      k_connect = (\<lambda>(c, now, w). client_connect N 10000000000 (c, now, w)),
      k_disconnect = (\<lambda>(c, now, w). (Inr (), (snd (client_disconnect (l2_transport (n_l2 N)) c), now, w))),
      k_sleep = (\<lambda>t (now, w). (now + t, w))\<rparr>"

definition client_free :: "('t, 'cb) client \<Rightarrow> bool" where
  "client_free c \<longleftrightarrow> cl_att c = None \<and> \<not> cl_connected c \<and> cl_cccd_handles c = Map.empty"

definition client_held :: "('t, 'cb) client \<Rightarrow> bool" where
  "client_held c \<longleftrightarrow> cl_att c \<noteq> None"


interpretation bleak_retry: retry_client "bleak_class N addr address_type callback" client_free client_held
  for N :: "('w, 'p, 'q) net" and addr address_type callback
proof
  fix c c' :: "(l2 \<times> 'p, 'cb) client" and w w' :: "int \<times> 'w" and e :: exn and u :: unit and r
  show "client_free c" if "k_new (bleak_class N addr address_type callback) w = (Inr c, w')"
    using that by (auto simp: bleak_class_def client_new_def client_free_def rbind_eq_Inr)
  show "client_free c'" if "client_free c"
    "k_connect (bleak_class N addr address_type callback) (c, w) = (Inl e, (c', w'))"
    using that connect_outcome [of c N 10000000000 "fst w" "snd w"]
    by (simp add: bleak_class_def client_free_def split: prod.splits)
  show "client_held c'" if "client_free c"
    "k_connect (bleak_class N addr address_type callback) (c, w) = (Inr u, (c', w'))"
    using that connect_outcome [of c N 10000000000 "fst w" "snd w"]
    by (simp add: bleak_class_def client_free_def client_held_def split: prod.splits)
  show "client_free c'" if "client_free c"
    "k_disconnect (bleak_class N addr address_type callback) (c, w) = (r, (c', w'))"
    using that
    by (auto simp: bleak_class_def client_free_def client_disconnect_def client_teardown_def split: prod.splits)
qed



end
