(* ===== verification/Scanner.thy ===== *)
theory Scanner
  imports Mgmt_Socket Device Hci "HOL-Library.AList"
begin

text \<open>
  \<open>bluek/scanner.py\<close>.  The scanner is the record \<open>scanner\<close>; \<open>scn_found\<close> is its dictionary, in
  insertion order, and \<open>scn_detected\<close> logs the calls of the detection callback.  Its management
  socket is beside it in the state, with \<open>None\<close> for no socket; the socket's only handler is the
  scanner's own.
\<close>

record scanner =
  scn_index :: int
  scn_callback :: bool
  scn_running :: bool
  scn_found :: "(string \<times> (ble_device \<times> adv_data)) list"
  scn_detected :: "(ble_device \<times> adv_data) list"

type_synonym 'p scan_state = "unit mgmt option \<times> scanner \<times> 'p"

definition fresh_scanner :: "int \<Rightarrow> bool \<Rightarrow> scanner" where
  "fresh_scanner index callback =
     \<lparr>scn_index = index, scn_callback = callback, scn_running = False, scn_found = [],
      scn_detected = []\<rparr>"

definition scanner_new :: "hci_env \<Rightarrow> string option \<Rightarrow> bool \<Rightarrow> scanner result" where
  "scanner_new env adapter callback =
     rbind (adapter_index env adapter) (\<lambda>index. Inr (fresh_scanner index callback))"

definition merge_name :: "device_found \<Rightarrow> scanner \<Rightarrow> ustr option" where
  "merge_name df s =
     (case eir_name (df_eir df) of
        Some (c # cs) \<Rightarrow> Some (c # cs)
      | _ \<Rightarrow> (case map_of (scn_found s) (df_address df) of
                Some (d, _) \<Rightarrow> ble_name d
              | None \<Rightarrow> None))"

definition on_device_found :: "int \<Rightarrow> device_found \<Rightarrow> (scanner, unit) sx" where
  "on_device_found index df s =
     (if index \<noteq> scn_index s then (Inr (), s)
      else if df_address_type df \<notin> {1, 2} then (Inr (), s)
      else
        let device = \<lparr>ble_address = df_address df, ble_name = merge_name df s, ble_rssi = df_rssi df,
                      ble_address_type = Some (df_address_type df)\<rparr>
        in case advertisement_data (df_eir df) (df_rssi df) of
             Inl e \<Rightarrow> (Inl e, s)
           | Inr adv \<Rightarrow>
               (Inr (), s\<lparr>scn_found := AList.update (df_address df) (device, adv) (scn_found s),
                          scn_detected := (if scn_callback s then scn_detected s @ [(device, adv)]
                                           else scn_detected s)\<rparr>))"

abbreviation scan_run :: "unit \<Rightarrow> int \<Rightarrow> device_found \<Rightarrow> (scanner, unit) sx" where
  "scan_run \<equiv> \<lambda>_. on_device_found"

definition scanner_start :: "mgmt_kernel \<Rightarrow> 'p peer \<Rightarrow> ('p scan_state, unit) sx" where
  "scanner_start k P st =
     (case st of (mo, s, p) \<Rightarrow>
        if scn_running s then (Inr (), st)
        else
          (case mgmt_open k of
             Inl e \<Rightarrow> (Inl e, st)
           | Inr m \<Rightarrow>
               (case start_discovery P scan_run (scn_index s) (add_device_found_handler () m, s, p) of
                  (Inl e, (m', s', p')) \<Rightarrow> (Inl e, (Some m', s', p'))
                | (Inr _, (m', s', p')) \<Rightarrow> (Inr (), (Some m', s'\<lparr>scn_running := True\<rparr>, p')))))"

text \<open>While the scanner runs, the loop delivers what the socket receives.\<close>

definition scanner_wait :: "'p peer \<Rightarrow> 'p scan_state \<Rightarrow> 'p scan_state" where
  "scanner_wait P st =
     (case st of
        (None, s, p) \<Rightarrow> st
      | (Some m, s, p) \<Rightarrow>
          (let (rs, p') = peer_recv P p; (m', s') = mgmt_pump scan_run rs (m, s)
           in (Some m', s', p')))"

text \<open>\<open>stop\<close>; a running scanner has a socket.  The socket is closed however \<open>stop_discovery\<close> ends; a
  socket that is closed and dropped is \<open>None\<close>.\<close>

definition scanner_stop :: "'p peer \<Rightarrow> ('p scan_state, unit) sx" where
  "scanner_stop P st =
     (case st of (mo, s, p) \<Rightarrow>
        if \<not> scn_running s then (Inr (), st)
        else
          (case mo of
             None \<Rightarrow> (Inl AttributeError, (None, s\<lparr>scn_running := False\<rparr>, p))
           | Some m \<Rightarrow>
               (let (r, (m', s', p')) =
                      stop_discovery P scan_run (scn_index s) (m, s\<lparr>scn_running := False\<rparr>, p)
                in (r, (None, s', p')))))"

text \<open>\<open>async with\<close>: \<open>stop\<close> is called however the body ends, and an exception of its own replaces the
  outcome of the body.\<close>

definition scanner_with :: "mgmt_kernel \<Rightarrow> 'p peer \<Rightarrow> ('p scan_state, 'a) sx \<Rightarrow> ('p scan_state, 'a) sx" where
  "scanner_with k P body st =
     (case scanner_start k P st of
        (Inl e, st1) \<Rightarrow> (Inl e, st1)
      | (Inr _, st1) \<Rightarrow>
          (let (r, st2) = body st1; (q, st3) = scanner_stop P st2
           in (case q of Inl e \<Rightarrow> Inl e | Inr _ \<Rightarrow> r, st3)))"

definition discovered_devices :: "scanner \<Rightarrow> ble_device list" where
  "discovered_devices s = map (fst \<circ> snd) (scn_found s)"

definition discovered_devices_and_advertisement_data ::
  "scanner \<Rightarrow> (string \<times> (ble_device \<times> adv_data)) list" where
  "discovered_devices_and_advertisement_data s = scn_found s"


section \<open>What the scanner knows\<close>

text \<open>The reports it accepts, and what it makes of a list of them for one address.\<close>

definition accepted :: "int \<Rightarrow> int \<times> device_found \<Rightarrow> bool" where
  "accepted index x \<longleftrightarrow>
     fst x = index \<and> df_address_type (snd x) \<in> {1, 2}
     \<and> (\<exists>adv. advertisement_data (df_eir (snd x)) (df_rssi (snd x)) = Inr adv)"

definition adv_of :: "device_found \<Rightarrow> adv_data" where
  "adv_of df = (case advertisement_data (df_eir df) (df_rssi df) of Inr a \<Rightarrow> a | Inl e \<Rightarrow> undefined)"

text \<open>The last non-empty name.\<close>

definition learn_name :: "device_found \<Rightarrow> ustr option \<Rightarrow> ustr option" where
  "learn_name df n = (case eir_name (df_eir df) of Some (c # cs) \<Rightarrow> Some (c # cs) | _ \<Rightarrow> n)"

definition learned_name :: "device_found list \<Rightarrow> ustr option" where
  "learned_name dfs = fold learn_name dfs None"

definition latest :: "device_found list \<Rightarrow> (ble_device \<times> adv_data) option" where
  "latest dfs =
     (if dfs = [] then None
      else Some (\<lparr>ble_address = df_address (last dfs), ble_name = learned_name dfs,
                  ble_rssi = df_rssi (last dfs), ble_address_type = Some (df_address_type (last dfs))\<rparr>,
                 adv_of (last dfs)))"

definition reports_of :: "int \<Rightarrow> string \<Rightarrow> (int \<times> device_found) list \<Rightarrow> device_found list" where
  "reports_of index a xs = map snd (filter (\<lambda>x. accepted index x \<and> df_address (snd x) = a) xs)"

definition see :: "int \<times> device_found \<Rightarrow> scanner \<Rightarrow> scanner" where
  "see x s = snd (on_device_found (fst x) (snd x) s)"

lemma see_rejected: "\<not> accepted (scn_index s) x \<Longrightarrow> see x s = s"
proof (cases "advertisement_data (df_eir (snd x)) (df_rssi (snd x))")
  case (Inl e)
  then show ?thesis by (simp add: see_def on_device_found_def Let_def)
qed (auto simp: see_def on_device_found_def accepted_def)

lemma see_accepted:
  "accepted (scn_index s) x \<Longrightarrow>
   see x s = (let d = (\<lparr>ble_address = df_address (snd x), ble_name = merge_name (snd x) s,
                       ble_rssi = df_rssi (snd x), ble_address_type = Some (df_address_type (snd x))\<rparr>,
                     adv_of (snd x))
     in s\<lparr>scn_found := AList.update (df_address (snd x)) d (scn_found s),
          scn_detected := (if scn_callback s then scn_detected s @ [d] else scn_detected s)\<rparr>)"
  by (auto simp: see_def on_device_found_def accepted_def adv_of_def Let_def)

lemma see_index [simp]: "scn_index (see x s) = scn_index s"
  by (cases "accepted (scn_index s) x") (simp_all add: see_rejected see_accepted Let_def)

lemma learned_name_snoc: "learned_name (dfs @ [df]) = learn_name df (learned_name dfs)"
  by (simp add: learned_name_def)

lemma reports_of_snoc:
  "reports_of i a (xs @ [x]) =
     (if accepted i x \<and> df_address (snd x) = a then reports_of i a xs @ [snd x] else reports_of i a xs)"
  by (simp add: reports_of_def)

lemma merge_name_latest:
  assumes "map_of (scn_found s) (df_address df) = latest dfs"
  shows "merge_name df s = learned_name (dfs @ [df])"
proof (cases "dfs = []")
  case True
  with assms show ?thesis
    by (auto simp: merge_name_def latest_def learned_name_def learn_name_def split: option.split list.split)
next
  case False
  with assms show ?thesis
    by (auto simp: merge_name_def latest_def learned_name_snoc learn_name_def split: option.split list.split)
qed

lemma fold_see_index [simp]: "scn_index (fold see xs s) = scn_index s"
  by (induction xs arbitrary: s) auto

lemma fold_see:
  assumes "scn_found s = []"
  shows "map_of (scn_found (fold see xs s)) a = latest (reports_of (scn_index s) a xs)"
proof (induction xs arbitrary: a rule: rev_induct)
  case Nil
  then show ?case by (simp add: assms reports_of_def latest_def)
next
  case (snoc x xs)
  let ?s = "fold see xs s"
  show ?case
  proof (cases "accepted (scn_index s) x")
    case False
    then show ?thesis by (simp add: snoc see_rejected reports_of_snoc)
  next
    case True
    have "merge_name (snd x) ?s = learned_name (reports_of (scn_index s) (df_address (snd x)) xs @ [snd x])"
      by (rule merge_name_latest) (rule snoc)
    with True show ?thesis
      by (simp add: see_accepted snoc reports_of_snoc update_conv latest_def Let_def)
  qed
qed


section \<open>The scanner as the owner of its handler\<close>

definition scanner_ok :: "scanner \<Rightarrow> bool" where
  "scanner_ok s \<longleftrightarrow>
     distinct (map fst (scn_found s))
     \<and> list_all (\<lambda>x. ble_address (fst (snd x)) = fst x
          \<and> ble_address_type (fst (snd x)) \<in> {Some 1, Some 2}) (scn_found s)"

lemma update_entries: "set (AList.update k v xs) \<subseteq> insert (k, v) (set xs)"
  by (induction xs) auto

interpretation scanner_owner: mgmt_owner scan_run scanner_ok
proof
  fix s :: scanner and u :: unit and index df
  assume ok: "scanner_ok s"
  have e: "snd (on_device_found index df s) = see (index, df) s" by (simp add: see_def)
  show "scanner_ok (snd (on_device_found index df s))"
  proof (cases "accepted (scn_index s) (index, df)")
    case False
    then show ?thesis using ok by (simp add: e see_rejected)
  next
    case True
    then have t: "df_address_type df \<in> {1, 2}" by (simp add: accepted_def)
    let ?d = "(\<lparr>ble_address = df_address df, ble_name = merge_name df s, ble_rssi = df_rssi df,
               ble_address_type = Some (df_address_type df)\<rparr>, adv_of df)"
    have "list_all (\<lambda>x. ble_address (fst (snd x)) = fst x \<and> ble_address_type (fst (snd x)) \<in> {Some 1, Some 2})
        (AList.update (df_address df) ?d (scn_found s))"
      using t ok update_entries [of "df_address df" ?d "scn_found s"]
      unfolding list_all_iff scanner_ok_def by fastforce
    with True ok show ?thesis
      by (simp add: e see_accepted scanner_ok_def Let_def distinct_update)
  qed
qed

text \<open>Reports do not start the scanner.\<close>

interpretation scanner_idle: mgmt_owner scan_run "\<lambda>s. \<not> scn_running s"
  by standard (auto simp: on_device_found_def Let_def split: sum.split)

text \<open>Reports add to the detections and do not stop the scanner.\<close>

interpretation scanner_grows: mgmt_owner scan_run "\<lambda>s. prefix (scn_detected s0) (scn_detected s)" for s0 :: scanner
  by standard (auto simp: on_device_found_def Let_def prefix_def split: sum.split)

interpretation scanner_busy: mgmt_owner scan_run scn_running
  by standard (auto simp: on_device_found_def Let_def split: sum.split)

lemma command_scanner_ok:
  assumes "scanner_ok s" "mgmt_command P scan_run op index params (m, s, p) = (r, (m', s', p'))"
  shows "scanner_ok s'"
  using scanner_owner.command_ok [OF assms] .

lemma scanner_start_ok: "scanner_ok (fst (snd st)) \<Longrightarrow> scanner_ok (fst (snd (snd (scanner_start k P st))))"
proof -
  assume ok: "scanner_ok (fst (snd st))"
  obtain mo s p where st: "st = (mo, s, p)" by (cases st) auto
  have "scanner_ok s'" if "start_discovery P scan_run i (m, s, p) = (r, (m', s', p'))" for i m r m' s' p'
    using that ok command_scanner_ok [of s P]
    by (auto simp: st start_discovery_def sx_bind_def split: prod.splits sum.splits)
  then show ?thesis
    using ok by (auto simp: st scanner_start_def scanner_ok_def split: sum.split prod.split)
qed

lemma scanner_wait_ok: "scanner_ok (fst (snd st)) \<Longrightarrow> scanner_ok (fst (snd (scanner_wait P st)))"
proof -
  assume ok: "scanner_ok (fst (snd st))"
  obtain mo s p where st: "st = (mo, s, p)" by (cases st) auto
  show ?thesis
  proof (cases mo)
    case (Some m)
    then show ?thesis
      using ok scanner_owner.pump_ok [of s "fst (peer_recv P p)" m]
      by (simp add: st scanner_wait_def split_beta Let_def)
  qed (use ok in \<open>simp add: st scanner_wait_def\<close>)
qed

lemma scanner_stop_ok: "scanner_ok (fst (snd st)) \<Longrightarrow> scanner_ok (fst (snd (snd (scanner_stop P st))))"
proof -
  assume ok: "scanner_ok (fst (snd st))"
  obtain mo s p where st: "st = (mo, s, p)" by (cases st) auto
  have "scanner_ok (s\<lparr>scn_running := False\<rparr>)" using ok by (simp add: st scanner_ok_def)
  then have "scanner_ok s'"
    if "stop_discovery P scan_run i (m, s\<lparr>scn_running := False\<rparr>, p) = (r, (m', s', p'))" for i m r m' s' p'
    using that command_scanner_ok [of "s\<lparr>scn_running := False\<rparr>" P]
    by (auto simp: stop_discovery_def split: prod.splits sum.splits)
  then show ?thesis
    using ok by (auto simp: st scanner_stop_def scanner_ok_def split: option.split prod.split)
qed


section \<open>Properties\<close>

text \<open>C8.  What a scan knows: for every address the latest report the scanner accepted (its adapter's,
  of a low-energy device, with an advertisement that can be read), under the last name that was
  not empty, so a name learned from a scan response is kept when later advertisements lack it.\<close>

theorem scan_knows_latest:
  "map_of (scn_found (fold see xs (fresh_scanner index callback))) a = latest (reports_of index a xs)"
  using fold_see [of "fresh_scanner index callback" xs a] by (simp add: fresh_scanner_def)

datatype scan_use = ScanStart mgmt_kernel | ScanWait | ScanStop

fun use_scanner :: "'p peer \<Rightarrow> scan_use \<Rightarrow> 'p scan_state \<Rightarrow> 'p scan_state" where
  "use_scanner P (ScanStart k) st = snd (scanner_start k P st)"
| "use_scanner P ScanWait st = scanner_wait P st"
| "use_scanner P ScanStop st = snd (scanner_stop P st)"

text \<open>C17.  However a scanner is started, left to run and stopped, and whatever the kernel and other
  devices send, it lists each address once, under that address, and only low-energy devices.\<close>

theorem scan_entries_wf:
  "let s = fst (snd (fold (use_scanner P) us (None, fresh_scanner index callback, p)))
   in distinct (map fst (scn_found s))
    \<and> list_all (\<lambda>x. ble_address (fst (snd x)) = fst x
         \<and> ble_address_type (fst (snd x)) \<in> {Some 1, Some 2}) (scn_found s)"
proof -
  have "scanner_ok (fst (snd (fold (use_scanner P) us st)))" if "scanner_ok (fst (snd st))" for st
    using that
  proof (induction us arbitrary: st)
    case (Cons u us)
    then show ?case
      by (cases u) (simp_all add: scanner_start_ok scanner_wait_ok scanner_stop_ok)
  qed simp
  moreover have "scanner_ok (fresh_scanner index callback)" by (simp add: scanner_ok_def fresh_scanner_def)
  ultimately show ?thesis unfolding Let_def scanner_ok_def [symmetric] by simp
qed

text \<open>Stopping a running scanner always drops its socket and stops it, also when the kernel does not
  answer the stop command.\<close>

lemma stop_drops_socket:
  assumes "scn_running (fst (snd st))"
  shows "fst (snd (scanner_stop P st)) = None \<and> \<not> scn_running (fst (snd (snd (scanner_stop P st))))"
proof -
  obtain mo s p where st: "st = (mo, s, p)" by (cases st) auto
  let ?s = "s\<lparr>scn_running := False\<rparr>"
  show ?thesis
  proof (cases mo)
    case (Some m)
    obtain r m' s' p' where e: "mgmt_command P scan_run MGMT_OP_STOP_DISCOVERY (scn_index s) [SCAN_TYPE_LE] (m, ?s, p)
        = (r, (m', s', p'))"
      by (cases "mgmt_command P scan_run MGMT_OP_STOP_DISCOVERY (scn_index s) [SCAN_TYPE_LE] (m, ?s, p)") auto
    have "\<not> scn_running s'" by (rule scanner_idle.command_ok [OF _ e]) simp
    with e Some assms show ?thesis
      by (simp add: st scanner_stop_def stop_discovery_def split: sum.split)
  qed (use assms in \<open>simp add: st scanner_stop_def\<close>)
qed

lemma wait_keeps_running: "scn_running (fst (snd st)) \<Longrightarrow> scn_running (fst (snd (scanner_wait P st)))"
  using scanner_busy.pump_ok
  by (cases st; cases "fst st") (simp_all add: scanner_wait_def split_beta Let_def)

lemma waits_keep_running: "scn_running (fst (snd st)) \<Longrightarrow> scn_running (fst (snd ((scanner_wait P ^^ n) st)))"
  by (induction n) (simp_all add: wait_keeps_running)

lemma start_runs:
  assumes "scanner_start k P (None, fresh_scanner index callback, p) = (r, (mo, s, q))"
  shows "scn_running s \<longleftrightarrow> (\<exists>u. r = Inr u)"
  using assms scanner_idle.command_ok [of "fresh_scanner index callback" P]
  by (auto simp: scanner_start_def fresh_scanner_def start_discovery_def sx_bind_def split: sum.splits prod.splits)

text \<open>C18.  A scanner used as a context manager is released: whatever the kernel sends or fails to answer
  while the body waits for reports and computes from them, and however the body ends, the scanner is
  stopped and its socket dropped afterwards, and the outcome is that of the body unless \<open>stop\<close>
  raised; only when the start itself raises is the body not run.\<close>

theorem scanner_with_releases:
  "case scanner_with k P (\<lambda>st. let st' = (scanner_wait P ^^ n) st in (body st', st')) (None, fresh_scanner index callback, p) of
     (r, (mo, s, q)) \<Rightarrow>
       \<not> scn_running s
       \<and> (case scanner_start k P (None, fresh_scanner index callback, p) of
            (Inl e, st1) \<Rightarrow> r = Inl e \<and> (mo, s, q) = st1
          | (Inr _, st1) \<Rightarrow> mo = None
              \<and> (r = body ((scanner_wait P ^^ n) st1) \<or> (\<exists>e. fst (scanner_stop P ((scanner_wait P ^^ n) st1)) = Inl e \<and> r = Inl e)))"
proof -
  obtain r1 mo1 s1 q1 where d: "scanner_start k P (None, fresh_scanner index callback, p) = (r1, (mo1, s1, q1))"
    by (cases "scanner_start k P (None, fresh_scanner index callback, p)") auto
  show ?thesis
  proof (cases r1)
    case (Inl e)
    then show ?thesis using d start_runs [OF d] by (simp add: scanner_with_def)
  next
    case (Inr u)
    let ?st = "(scanner_wait P ^^ n) (mo1, s1, q1)"
    have "scn_running (fst (snd ?st))" using waits_keep_running [of "(mo1, s1, q1)" n P] start_runs [OF d] Inr by simp
    from stop_drops_socket [OF this, of P] Inr d show ?thesis
      by (cases "scanner_stop P ?st"; cases "fst (scanner_stop P ?st)") (simp_all add: scanner_with_def split_beta Let_def)
  qed
qed

text \<open>A start that fails after the socket was opened keeps the socket: the scanner is not running,
  so \<open>stop\<close> does nothing, and the socket stays open and registered with the event loop.\<close>

theorem failed_start_keeps_socket:
  "let st = (None, fresh_scanner 0 callback, ()); (r, st') = scanner_start open_kernel silent_peer st
   in r = Inl TimeoutError \<and> \<not> scn_running (fst (snd st'))
    \<and> (\<exists>m. fst st' = Some m \<and> \<not> mg_closed m \<and> mg_reader m)
    \<and> scanner_stop silent_peer st' = (Inr (), st')"
  by (simp add: scanner_start_def fresh_scanner_def open_kernel_def mgmt_open_def start_discovery_def
      mgmt_command_def begin_command_def encode_command_def pack_le_def MGMT_OP_START_DISCOVERY_def
      mgmt_send_def silent_peer_def mgmt_init_def add_device_found_handler_def mgmt_pump_def
      end_command_def sx_bind_def scanner_stop_def)

end
