(* ===== verification/ATT_Locking.thy ===== *)
theory ATT_Locking
  imports ATT_Core
begin

text \<open>
  Concurrent calls of \<open>_request\<close> in \<open>bluek/_att.py\<close>: any number of coroutines on one client, ordered
  by \<open>_txn_lock\<close> (an \<open>asyncio.Lock\<close>, which serves its waiters first come first served).

  A configuration holds the client, the owner of the lock, the queue of waiters and every call made
  so far, numbered in the order of the calls.  The step relation has one rule per point at which a
  coroutine suspends or is resumed: the call, the grant of the lock, the end of \<open>send\<close>, an upcall
  of the transport (at any time, with any PDU), the resumption with a resolved future, the time-out,
  and a cancellation of a waiting or of the running call.  \<open>lk_log\<close>, \<open>lk_segment\<close>, \<open>lk_acquired\<close> and
  \<open>lk_history\<close> are observations: all upcalls, those since the lock was granted, the order in which it was
  granted, and the calls that were sent and have finished, with their
  segments and results.
\<close>

datatype phase = Queued | Sending | Awaiting | Finished "bytes result" | Cancelled

record call =
  r_payload :: bytes
  r_expected :: int
  r_phase :: phase

record ('t, 'h) lk =
  lk_att :: "('t, 'h) att"
  lk_owner :: "nat option"
  lk_waiters :: "nat list"
  lk_calls :: "nat \<rightharpoonup> call"
  lk_next :: nat
  lk_log :: "upcall list"
  lk_segment :: "upcall list"
  lk_acquired :: "nat list"
  lk_history :: "(nat \<times> upcall list \<times> bytes result) list"

definition lk_init :: "('t, 'h) att \<Rightarrow> ('t, 'h) lk" where
  "lk_init a =
     \<lparr>lk_att = a, lk_owner = None, lk_waiters = [], lk_calls = Map.empty, lk_next = 0,
      lk_log = [], lk_segment = [], lk_acquired = [], lk_history = []\<rparr>"

definition new_call :: "bytes \<Rightarrow> int \<Rightarrow> ('t, 'h) lk \<Rightarrow> ('t, 'h) lk" where
  "new_call p op c =
     c\<lparr>lk_calls := (lk_calls c)(lk_next c \<mapsto> \<lparr>r_payload = p, r_expected = op, r_phase = Queued\<rparr>),
       lk_waiters := lk_waiters c @ [lk_next c], lk_next := lk_next c + 1\<rparr>"

text \<open>Entering the block: the future is created and \<open>_pending\<close> set.\<close>

definition acquire :: "nat \<Rightarrow> call \<Rightarrow> ('t, 'h) lk \<Rightarrow> ('t, 'h) lk" where
  "acquire i q c =
     c\<lparr>lk_owner := Some i, lk_att := begin_request (r_expected q) (lk_att c),
       lk_calls := (lk_calls c)(i \<mapsto> q\<lparr>r_phase := Sending\<rparr>),
       lk_segment := [], lk_acquired := lk_acquired c @ [i]\<rparr>"

text \<open>Leaving it: the \<open>finally\<close> clause and the release.\<close>

definition leave :: "nat \<Rightarrow> call \<Rightarrow> phase \<Rightarrow> ('t, 'h) lk \<Rightarrow> ('t, 'h) lk" where
  "leave i q ph c =
     c\<lparr>lk_owner := None, lk_att := end_request (lk_att c),
       lk_calls := (lk_calls c)(i \<mapsto> q\<lparr>r_phase := ph\<rparr>)\<rparr>"

text \<open>The result of a call that was sent, with the upcalls it has seen.\<close>

definition answered :: "nat \<Rightarrow> call \<Rightarrow> bytes result \<Rightarrow> ('t, 'h) lk \<Rightarrow> ('t, 'h) lk" where
  "answered i q r c =
     (leave i q (Finished r) c)\<lparr>lk_history := lk_history c @ [(i, lk_segment c, r)]\<rparr>"

inductive step :: "'t transport \<Rightarrow> ('t, 'h) lk \<Rightarrow> ('t, 'h) lk \<Rightarrow> bool" for T where
  Call: "step T c (new_call p op c)"
| Grant: "lk_owner c = None \<Longrightarrow> lk_waiters c = i # ws \<Longrightarrow> lk_calls c i = Some q \<Longrightarrow>
    step T c (acquire i q (c\<lparr>lk_waiters := ws\<rparr>))"
| Sent: "lk_owner c = Some i \<Longrightarrow> lk_calls c i = Some q \<Longrightarrow> r_phase q = Sending \<Longrightarrow>
    tsend T (r_payload q) (a_l2 (lk_att c)) = (Inr (), t) \<Longrightarrow>
    step T c (c\<lparr>lk_att := (lk_att c)\<lparr>a_l2 := t\<rparr>,
               lk_calls := (lk_calls c)(i \<mapsto> q\<lparr>r_phase := Awaiting\<rparr>)\<rparr>)"
| SendFailed: "lk_owner c = Some i \<Longrightarrow> lk_calls c i = Some q \<Longrightarrow> r_phase q = Sending \<Longrightarrow>
    tsend T (r_payload q) (a_l2 (lk_att c)) = (Inl e, t) \<Longrightarrow>
    step T c (leave i q (Finished (Inl e)) (c\<lparr>lk_att := (lk_att c)\<lparr>a_l2 := t\<rparr>\<rparr>))"
| Upcall: "step T c (c\<lparr>lk_att := deliver T u (lk_att c), lk_log := lk_log c @ [u], lk_segment := lk_segment c @ [u]\<rparr>)"
| Resume: "lk_owner c = Some i \<Longrightarrow> lk_calls c i = Some q \<Longrightarrow> r_phase q = Awaiting \<Longrightarrow>
    a_pending (lk_att c) \<noteq> Some FutPending \<Longrightarrow>
    step T c (answered i q (rbind (await_result (lk_att c)) (decode_response (r_expected q))) c)"
| Timeout: "lk_owner c = Some i \<Longrightarrow> lk_calls c i = Some q \<Longrightarrow> r_phase q = Awaiting \<Longrightarrow>
    a_pending (lk_att c) = Some FutPending \<Longrightarrow>
    step T c (answered i q (Inl TimeoutError) c)"
| CancelQueued: "i \<in> set (lk_waiters c) \<Longrightarrow> lk_calls c i = Some q \<Longrightarrow>
    step T c (c\<lparr>lk_waiters := removeAll i (lk_waiters c),
               lk_calls := (lk_calls c)(i \<mapsto> q\<lparr>r_phase := Cancelled\<rparr>)\<rparr>)"
| CancelRunning: "lk_owner c = Some i \<Longrightarrow> lk_calls c i = Some q \<Longrightarrow>
    step T c (leave i q Cancelled c)"

inductive_cases step_cases: "step T c c'"

inductive reachable :: "'t transport \<Rightarrow> ('t, 'h) att \<Rightarrow> ('t, 'h) lk \<Rightarrow> bool" for T a where
  Start: "reachable T a (lk_init a)"
| Step: "reachable T a c \<Longrightarrow> step T c c' \<Longrightarrow> reachable T a c'"


section \<open>Invariants\<close>

definition running :: "phase \<Rightarrow> bool" where
  "running ph \<longleftrightarrow> ph = Sending \<or> ph = Awaiting"

text \<open>The lock and the client agree: the owner is the only running call, and the pending future is
  its own, resolved by the first upcall of the segment that answers it.\<close>

definition lock_inv :: "('t, 'h) lk \<Rightarrow> bool" where
  "lock_inv c \<longleftrightarrow>
     a_tasks (lk_att c) = []
     \<and> (case lk_owner c of
          None \<Rightarrow> a_pending (lk_att c) = None \<and> a_pending_opcode (lk_att c) = None
        | Some i \<Rightarrow> (\<exists>q. lk_calls c i = Some q \<and> running (r_phase q)
            \<and> a_pending_opcode (lk_att c) = Some (r_expected q)
            \<and> a_pending (lk_att c) = Some
                (case List.map_filter (response_of (r_expected q)) (lk_segment c) of
                   [] \<Rightarrow> FutPending | r # _ \<Rightarrow> fut_of r)))
     \<and> (\<forall>i q. lk_calls c i = Some q \<longrightarrow> lk_owner c \<noteq> Some i \<longrightarrow> \<not> running (r_phase q))"

definition queue_inv :: "('t, 'h) lk \<Rightarrow> bool" where
  "queue_inv c \<longleftrightarrow>
     sorted_wrt (<) (lk_acquired c @ lk_waiters c)
     \<and> (\<forall>i\<in>set (lk_acquired c @ lk_waiters c). i < lk_next c)
     \<and> (\<forall>i q. lk_calls c i = Some q \<longrightarrow> i < lk_next c \<and> (r_phase q = Queued \<longleftrightarrow> i \<in> set (lk_waiters c)))
     \<and> (\<forall>i\<in>set (lk_waiters c). lk_calls c i \<noteq> None)
     \<and> (\<forall>i. lk_owner c = Some i \<longrightarrow> i \<in> set (lk_acquired c))"

definition history_inv :: "('t, 'h) lk \<Rightarrow> bool" where
  "history_inv c \<longleftrightarrow>
     (\<forall>x\<in>set (lk_history c). case x of (i, us, r) \<Rightarrow>
        \<exists>q. lk_calls c i = Some q \<and> r_phase q = Finished r
          \<and> r = rbind (first_response (r_expected q) us) (decode_response (r_expected q)))"

lemmas lk_ops = new_call_def acquire_def leave_def answered_def begin_request_def end_request_def

lemma lock_inv_owner:
  assumes "lock_inv c" "lk_owner c = Some i" "lk_calls c i = Some q"
  shows "running (r_phase q)" "a_pending_opcode (lk_att c) = Some (r_expected q)" "a_tasks (lk_att c) = []"
    "a_pending (lk_att c) = Some
       (case List.map_filter (response_of (r_expected q)) (lk_segment c) of [] \<Rightarrow> FutPending | r # _ \<Rightarrow> fut_of r)"
  using assms by (auto simp: lock_inv_def)

text \<open>The future of the owner is what the segment says, whenever it looks.\<close>

lemma owner_result:
  assumes "lock_inv c" "lk_owner c = Some i" "lk_calls c i = Some q"
  shows "await_result (lk_att c) = first_response (r_expected q) (lk_segment c)"
proof (cases "List.map_filter (response_of (r_expected q)) (lk_segment c)")
  case Nil
  with lock_inv_owner(4) [OF assms] show ?thesis by (simp add: await_result_def first_response_def)
next
  case (Cons r rs)
  with lock_inv_owner(4) [OF assms] show ?thesis
    by (cases r) (simp_all add: await_result_def first_response_def)
qed

lemma map_filter_snoc:
  "List.map_filter f (xs @ [x]) = List.map_filter f xs @ (case f x of None \<Rightarrow> [] | Some y \<Rightarrow> [y])"
  by (induction xs) (auto simp: map_filter_simps split: option.splits)

lemma fut_of_done: "fut_of r \<noteq> FutPending"
  by (cases r) auto

lemma lock_inv_upcall:
  assumes "lock_inv c"
  shows "lock_inv (c\<lparr>lk_att := deliver T u (lk_att c), lk_log := lk_log c @ [u], lk_segment := lk_segment c @ [u]\<rparr>)"
proof -
  have t: "a_tasks (lk_att c) = []" using assms by (simp add: lock_inv_def)
  note d = deliver_effects [OF t, of T u]
  show ?thesis
  proof (cases "lk_owner c")
    case None
    with assms have "a_pending (lk_att c) \<noteq> Some FutPending" by (simp add: lock_inv_def)
    from deliver_idle [OF this] have "a_pending (deliver T u (lk_att c)) = a_pending (lk_att c)" .
    with None d(2,3) assms show ?thesis by (simp add: lock_inv_def)
  next
    case (Some i)
    then obtain q where q: "lk_calls c i = Some q" using assms by (auto simp: lock_inv_def)
    note o = lock_inv_owner [OF assms Some q]
    have "a_pending (deliver T u (lk_att c)) = Some
        (case List.map_filter (response_of (r_expected q)) (lk_segment c @ [u]) of
           [] \<Rightarrow> FutPending | r # _ \<Rightarrow> fut_of r)"
      unfolding deliver_pending [OF o(2)] o(4) map_filter_snoc
      by (auto simp: fut_of_done split: list.split option.split)
    moreover have "\<forall>j q. lk_calls c j = Some q \<longrightarrow> lk_owner c \<noteq> Some j \<longrightarrow> \<not> running (r_phase q)"
      using assms by (simp add: lock_inv_def)
    ultimately show ?thesis using Some q d(2,3) o(1,2) by (simp add: lock_inv_def)
  qed
qed

lemma lock_inv_step: "step T c c' \<Longrightarrow> lock_inv c \<Longrightarrow> queue_inv c \<Longrightarrow> lock_inv c'"
proof (induction rule: step.induct)
  case (Upcall c u)
  then show ?case by (simp add: lock_inv_upcall)
next
  case (Call c p op)
  then have "lk_calls c (lk_next c) = None"
    by (cases "lk_calls c (lk_next c)") (auto simp: queue_inv_def)
  with Call show ?case by (auto simp: lock_inv_def lk_ops running_def split: option.splits)
next
  case (Grant c i ws q)
  then show ?case by (auto simp: lock_inv_def lk_ops running_def map_filter_simps)
next
  case (CancelQueued i c q)
  then have "r_phase q = Queued" by (auto simp: queue_inv_def)
  with CancelQueued show ?case
    by (auto simp: lock_inv_def running_def split: option.splits)
qed (auto simp: lock_inv_def lk_ops running_def split: option.splits)

lemma queue_inv_finish:
  assumes "queue_inv c" "lk_calls c i = Some q" "r_phase q \<noteq> Queued" "ph \<noteq> Queued"
    and "lk_calls c' = (lk_calls c)(i \<mapsto> q\<lparr>r_phase := ph\<rparr>)" "lk_waiters c' = lk_waiters c"
    "lk_next c' = lk_next c" "lk_acquired c' = lk_acquired c" "lk_owner c' = None \<or> lk_owner c' = lk_owner c"
  shows "queue_inv c'"
proof -
  have "i < lk_next c" "i \<notin> set (lk_waiters c)" using assms(1-3) by (auto simp: queue_inv_def)
  with assms show ?thesis unfolding queue_inv_def assms(5-8) by auto
qed

lemma queue_inv_step: "step T c c' \<Longrightarrow> queue_inv c \<Longrightarrow> lock_inv c \<Longrightarrow> queue_inv c'"
proof (induction rule: step.induct)
  case (Grant c i ws q)
  then show ?case by (auto simp: queue_inv_def lk_ops sorted_wrt_append)
next
  case (CancelQueued i c q)
  then show ?case
    by (auto simp: queue_inv_def sorted_wrt_append removeAll_filter_not_eq sorted_wrt_filter)
next
  case (Call c p op)
  then show ?case by (auto simp: queue_inv_def lk_ops sorted_wrt_append less_SucI)
next
  case (Sent c i q t)
  show ?case by (rule queue_inv_finish [OF Sent(5,2), of Awaiting]) (use Sent(3) in simp_all)
next
  case (SendFailed c i q e t)
  show ?case by (rule queue_inv_finish [OF SendFailed(5,2)]) (use SendFailed(3) in \<open>simp_all add: lk_ops\<close>)
next
  case (Upcall c u)
  then show ?case by (simp add: queue_inv_def)
next
  case (Resume c i q)
  show ?case by (rule queue_inv_finish [OF Resume(5,2)]) (use Resume(3) in \<open>simp_all add: lk_ops\<close>)
next
  case (Timeout c i q)
  show ?case by (rule queue_inv_finish [OF Timeout(5,2)]) (use Timeout(3) in \<open>simp_all add: lk_ops\<close>)
next
  case (CancelRunning c i q)
  then have "r_phase q \<noteq> Queued" by (auto simp: lock_inv_def running_def)
  then show ?case
    by (intro queue_inv_finish [OF CancelRunning(3,2), of Cancelled]) (simp_all add: lk_ops)
qed


lemma history_inv_step: "step T c c' \<Longrightarrow> history_inv c \<Longrightarrow> lock_inv c \<Longrightarrow> queue_inv c \<Longrightarrow> history_inv c'"
proof (induction rule: step.induct)
  case (Resume c i q)
  have "\<forall>x\<in>set (lk_history c). fst x \<noteq> i"
    using Resume by (auto simp: history_inv_def)
  with Resume owner_result [OF Resume(6,1,2)] show ?case
    by (fastforce simp: history_inv_def lk_ops)
next
  case (Timeout c i q)
  have "\<forall>x\<in>set (lk_history c). fst x \<noteq> i"
    using Timeout by (auto simp: history_inv_def)
  moreover have "first_response (r_expected q) (lk_segment c) = Inl TimeoutError"
    using owner_result [OF Timeout(6,1,2)] Timeout(4) by (simp add: await_result_def)
  ultimately show ?case using Timeout
    by (fastforce simp: history_inv_def lk_ops)
next
  case (Call c p op)
  then have "lk_calls c (lk_next c) = None"
    by (cases "lk_calls c (lk_next c)") (auto simp: queue_inv_def)
  with Call show ?case by (fastforce simp: history_inv_def lk_ops)
next
  case (Grant c i ws q)
  then have "r_phase q = Queued" by (auto simp: queue_inv_def)
  with Grant show ?case by (fastforce simp: history_inv_def lk_ops)
next
  case (Sent c i q t)
  then show ?case by (fastforce simp: history_inv_def)
next
  case (SendFailed c i q e t)
  then show ?case by (fastforce simp: history_inv_def lk_ops)
next
  case (CancelQueued i c q)
  then have "r_phase q = Queued" by (auto simp: queue_inv_def)
  with CancelQueued show ?case by (fastforce simp: history_inv_def)
next
  case (CancelRunning c i q)
  then have "running (r_phase q)" by (auto simp: lock_inv_def)
  with CancelRunning show ?case by (fastforce simp: history_inv_def lk_ops running_def)
qed (auto simp: history_inv_def)

text \<open>The segments are separate pieces of the log, in its order.\<close>

definition segments_inv :: "('t, 'h) lk \<Rightarrow> bool" where
  "segments_inv c \<longleftrightarrow>
     subseq (concat (map (fst \<circ> snd) (lk_history c)) @ (if lk_owner c = None then [] else lk_segment c)) (lk_log c)"

lemma subseq_prefix: "subseq (xs @ ys) zs \<Longrightarrow> subseq xs zs"
  by (metis list_emb_append2 subseq_order.order_refl subseq_order.trans subseq_rev_drop_many append_Nil2)

lemma segments_inv_step: "step T c c' \<Longrightarrow> segments_inv c \<Longrightarrow> segments_inv c'"
proof (induction rule: step.induct)
  case (Upcall c u)
  then show ?case
    using list_emb_append_mono [of "(=)" _ "lk_log c" "[u]" "[u]"]
    by (auto simp: segments_inv_def simp flip: append_assoc)
qed (auto simp: segments_inv_def lk_ops dest: subseq_prefix split: if_splits)

definition lk_inv :: "('t, 'h) lk \<Rightarrow> bool" where
  "lk_inv c \<longleftrightarrow> lock_inv c \<and> queue_inv c \<and> history_inv c \<and> segments_inv c"

lemma lk_inv_init: "quiet a \<Longrightarrow> lk_inv (lk_init a)"
  by (simp add: lk_inv_def lock_inv_def queue_inv_def history_inv_def segments_inv_def lk_init_def quiet_def)

lemma reachable_inv: "reachable T a c \<Longrightarrow> quiet a \<Longrightarrow> lk_inv c"
proof (induction rule: reachable.induct)
  case (Step c c')
  then show ?case
    using lock_inv_step queue_inv_step history_inv_step segments_inv_step unfolding lk_inv_def by blast
qed (rule lk_inv_init)



section \<open>Progress\<close>

fun phase_work :: "phase \<Rightarrow> nat" where
  "phase_work Queued = 3"
| "phase_work Sending = 2"
| "phase_work Awaiting = 1"
| "phase_work (Finished r) = 0"
| "phase_work Cancelled = 0"

definition call_work :: "call option \<Rightarrow> nat" where
  "call_work x = (case x of None \<Rightarrow> 0 | Some q \<Rightarrow> phase_work (r_phase q))"

definition work :: "('t, 'h) lk \<Rightarrow> nat" where
  "work c = (\<Sum>i<lk_next c. call_work (lk_calls c i))"

lemma work_less:
  assumes "lk_calls c' = (lk_calls c)(i \<mapsto> q')" "lk_next c' = lk_next c" "i < lk_next c"
    and "phase_work (r_phase q') < call_work (lk_calls c i)"
  shows "work c' < work c"
  unfolding work_def assms(2)
  by (rule sum_strict_mono_ex1) (use assms in \<open>auto simp: call_work_def\<close>)

lemma lk_progress:
  assumes "lk_inv c" "0 < work c"
  shows "\<exists>c'. step T c c' \<and> work c' < work c"
proof -
  have l: "lock_inv c" and k: "queue_inv c" using assms(1) by (simp_all add: lk_inv_def)
  show ?thesis
  proof (cases "lk_owner c")
    case (Some i)
    with l obtain q where q: "lk_calls c i = Some q" by (auto simp: lock_inv_def)
    note o = lock_inv_owner [OF l Some q]
    have i: "i < lk_next c" using k q by (auto simp: queue_inv_def)
    show ?thesis
    proof (cases "r_phase q = Awaiting")
      case True
      have "\<exists>r. step T c (answered i q r c)"
        using step.Resume [OF Some q True] step.Timeout [OF Some q True] by blast
      moreover have "work (answered i q r c) < work c" for r
        by (rule work_less [where i = i and q' = "q\<lparr>r_phase := Finished r\<rparr>"])
          (use q True i in \<open>simp_all add: lk_ops call_work_def\<close>)
      ultimately show ?thesis by blast
    next
      case False
      with o(1) have s: "r_phase q = Sending" by (simp add: running_def)
      obtain r t where t: "tsend T (r_payload q) (a_l2 (lk_att c)) = (r, t)"
        by (cases "tsend T (r_payload q) (a_l2 (lk_att c))")
      show ?thesis
      proof (cases r)
        case (Inl e)
        have "work (leave i q (Finished (Inl e)) (c\<lparr>lk_att := (lk_att c)\<lparr>a_l2 := t\<rparr>\<rparr>)) < work c"
          by (rule work_less [where i = i and q' = "q\<lparr>r_phase := Finished (Inl e)\<rparr>"])
            (use q s i in \<open>simp_all add: lk_ops call_work_def\<close>)
        with step.SendFailed [OF Some q s, of T e t] t Inl show ?thesis by blast
      next
        case (Inr u)
        have "work (c\<lparr>lk_att := (lk_att c)\<lparr>a_l2 := t\<rparr>,
               lk_calls := (lk_calls c)(i \<mapsto> q\<lparr>r_phase := Awaiting\<rparr>)\<rparr>) < work c"
          by (rule work_less [where i = i and q' = "q\<lparr>r_phase := Awaiting\<rparr>"])
            (use q s i in \<open>simp_all add: call_work_def\<close>)
        with step.Sent [OF Some q s, of T t] t Inr show ?thesis by auto
      qed
    qed
  next
    case None
    obtain i where i: "i < lk_next c" "call_work (lk_calls c i) \<noteq> 0"
      using assms(2) unfolding work_def by (metis lessThan_iff less_numeral_extra(3) sum.neutral)
    then obtain q where q: "lk_calls c i = Some q" "phase_work (r_phase q) \<noteq> 0"
      by (auto simp: call_work_def split: option.splits)
    have "\<not> running (r_phase q)" using l None q(1) by (auto simp: lock_inv_def)
    with q(2) have "r_phase q = Queued" by (cases "r_phase q") (auto simp: running_def)
    with k q(1) have "i \<in> set (lk_waiters c)" by (auto simp: queue_inv_def)
    then obtain j ws where w: "lk_waiters c = j # ws" by (cases "lk_waiters c") auto
    then obtain q' where q': "lk_calls c j = Some q'" using k by (auto simp: queue_inv_def)
    have j: "r_phase q' = Queued" "j < lk_next c" using k q' w by (auto simp: queue_inv_def)
    have "work (acquire j q' (c\<lparr>lk_waiters := ws\<rparr>)) < work c"
      by (rule work_less [where i = j and q' = "q'\<lparr>r_phase := Sending\<rparr>"]) (use q' j in \<open>simp_all add: lk_ops call_work_def\<close>)
    with step.Grant [OF None w q', of T] show ?thesis by blast
  qed
qed


section \<open>Properties\<close>

definition in_flight :: "('t, 'h) lk \<Rightarrow> nat \<Rightarrow> bool" where
  "in_flight c i \<longleftrightarrow> (case lk_calls c i of Some q \<Rightarrow> running (r_phase q) | None \<Rightarrow> False)"

text \<open>C2.  However calls, upcalls, time-outs and cancellations interleave, at most one request is
  outstanding, the pending opcode is the one it waits for, and the lock is granted in the order of
  the calls.\<close>

theorem requests_serialized:
  assumes "reachable T a c" "quiet a" "in_flight c i" "in_flight c j"
  shows "i = j \<and> lk_owner c = Some i
    \<and> a_pending_opcode (lk_att c) = map_option r_expected (lk_calls c i)
    \<and> sorted_wrt (<) (lk_acquired c @ lk_waiters c)"
proof -
  have v: "lock_inv c" "queue_inv c" using reachable_inv [OF assms(1,2)] by (simp_all add: lk_inv_def)
  have o: "lk_owner c = Some k" if "in_flight c k" for k
    using that v(1) by (auto simp: in_flight_def lock_inv_def split: option.splits)
  from o [OF assms(3)] o [OF assms(4)] v show ?thesis
    by (auto simp: lock_inv_def queue_inv_def)
qed

text \<open>C3.  Every call that was sent and has finished got what the first upcall that answers it says,
  among those that arrived while it held the lock (or a time-out, when there was none), and no
  upcall answered two calls: the segments are separate pieces of the log.\<close>

theorem answers_not_mixed:
  assumes "reachable T a c" "quiet a" "(i, us, r) \<in> set (lk_history c)"
  shows "(\<exists>q. lk_calls c i = Some q \<and> r_phase q = Finished r
      \<and> r = rbind (first_response (r_expected q) us) (decode_response (r_expected q)))
    \<and> subseq (concat (map (fst \<circ> snd) (lk_history c))) (lk_log c)"
proof -
  have "history_inv c" "segments_inv c" using reachable_inv [OF assms(1,2)] by (simp_all add: lk_inv_def)
  with assms(3) show ?thesis
    unfolding history_inv_def segments_inv_def by (auto dest: subseq_prefix)
qed



text \<open>A run of two calls: the first reads and is answered after a value, the second writes.\<close>

definition demo_calls :: "(upcall list, nat) lk" where
  "demo_calls = new_call [0x12, 5, 0, 1] WRITE_RSP (new_call [0x0A, 3, 0] READ_RSP (lk_init (att_init [])))"

definition demo_read :: call where
  "demo_read = \<lparr>r_payload = [0x0A, 3, 0], r_expected = READ_RSP, r_phase = Queued\<rparr>"

definition demo_sent :: "(upcall list, nat) lk" where
  "demo_sent =
     (let c = acquire 0 demo_read (demo_calls\<lparr>lk_waiters := [1]\<rparr>)
      in c\<lparr>lk_calls := (lk_calls c)(0 \<mapsto> demo_read\<lparr>r_phase := Awaiting\<rparr>)\<rparr>)"

definition demo_upcall :: "upcall \<Rightarrow> (upcall list, nat) lk \<Rightarrow> (upcall list, nat) lk" where
  "demo_upcall u c = c\<lparr>lk_att := deliver batch_transport u (lk_att c), lk_log := lk_log c @ [u],
     lk_segment := lk_segment c @ [u]\<rparr>"

definition demo_done :: "(upcall list, nat) lk" where
  "demo_done = answered 0 (demo_read\<lparr>r_phase := Awaiting\<rparr>) (Inr [0x0B, 42])
     (demo_upcall (OnData [0x0B, 42]) (demo_upcall (OnData [0x1B, 7, 0, 1]) demo_sent))"

lemma demo_steps:
  "reachable batch_transport (att_init []) demo_sent" "reachable batch_transport (att_init []) demo_done"
proof -
  have 0: "reachable batch_transport (att_init []) demo_calls"
    unfolding demo_calls_def
    by (rule reachable.Step [OF reachable.Step [OF reachable.Start step.Call] step.Call])
  have "step batch_transport demo_calls (acquire 0 demo_read (demo_calls\<lparr>lk_waiters := [1]\<rparr>))"
    by (rule step.Grant) (simp_all add: demo_calls_def lk_ops lk_init_def demo_read_def)
  with 0 have 1: "reachable batch_transport (att_init []) (acquire 0 demo_read (demo_calls\<lparr>lk_waiters := [1]\<rparr>))"
    by (rule reachable.Step)
  have "step batch_transport (acquire 0 demo_read (demo_calls\<lparr>lk_waiters := [1]\<rparr>)) demo_sent"
    using step.Sent [where T = batch_transport and i = 0 and t = "[]" and q = "demo_read\<lparr>r_phase := Sending\<rparr>"
        and c = "acquire 0 demo_read (demo_calls\<lparr>lk_waiters := [1]\<rparr>)"]
    by (simp add: demo_sent_def demo_calls_def lk_ops lk_init_def demo_read_def batch_transport_def
        att_init_def Let_def)
  with 1 show 2: "reachable batch_transport (att_init []) demo_sent" by (rule reachable.Step)
  have "reachable batch_transport (att_init []) (demo_upcall u c)"
    if "reachable batch_transport (att_init []) c" for u c
    using reachable.Step [OF that step.Upcall] by (simp add: demo_upcall_def)
  with 2 have 3: "reachable batch_transport (att_init [])
      (demo_upcall (OnData [0x0B, 42]) (demo_upcall (OnData [0x1B, 7, 0, 1]) demo_sent))"
    by blast
  have "step batch_transport
      (demo_upcall (OnData [0x0B, 42]) (demo_upcall (OnData [0x1B, 7, 0, 1]) demo_sent)) demo_done"
    unfolding demo_done_def
    using step.Resume [where T = batch_transport and i = 0 and q = "demo_read\<lparr>r_phase := Awaiting\<rparr>" and
        c = "demo_upcall (OnData [0x0B, 42]) (demo_upcall (OnData [0x1B, 7, 0, 1]) demo_sent)"]
    by (simp add: demo_sent_def demo_calls_def lk_ops lk_init_def demo_read_def demo_upcall_def Let_def
        on_data_def run_tasks_eq att_init_def dispatch_notify_def att_opcodes await_result_def decode_response_def)
  with 3 show "reachable batch_transport (att_init []) demo_done" by (rule reachable.Step)
qed

theorem requests_serialized_witness:
  "lk_owner demo_sent = Some 0 \<and> sorted_wrt (<) (lk_acquired demo_sent @ lk_waiters demo_sent)"
  using requests_serialized [OF demo_steps(1) quiet_init, of 0 0]
  by (simp add: demo_sent_def in_flight_def running_def Let_def)

theorem answers_not_mixed_witness:
  "Inr [0x0B, 42] = rbind (first_response READ_RSP [OnData [0x1B, 7, 0, 1], OnData [0x0B, 42]])
     (decode_response READ_RSP)"
proof -
  let ?us = "[OnData [0x1B, 7, 0, 1], OnData [0x0B, 42]]" and ?r = "Inr [0x0B, 42] :: bytes result"
  note defs = demo_done_def demo_upcall_def demo_sent_def answered_def leave_def acquire_def
      demo_calls_def new_call_def lk_init_def demo_read_def Let_def
  have h: "(0, ?us, ?r) \<in> set (lk_history demo_done)" by (simp add: defs)
  have q: "map_option r_expected (lk_calls demo_done 0) = Some READ_RSP" by (simp add: defs)
  from answers_not_mixed [OF demo_steps(2) quiet_init h]
  obtain q where "lk_calls demo_done 0 = Some q"
    "?r = rbind (first_response (r_expected q) ?us) (decode_response (r_expected q))"
    by blast
  with q show ?thesis by (simp only: option.map option.inject)
qed


end
