(* ===== verification/Fake_Peripheral.thy ===== *)
theory Fake_Peripheral
  imports ATT_Discovery
begin

text \<open>
  \<open>bench/fixtures/fake_peripheral.py\<close>: the in-memory GATT peripheral of the benchmarks, the second
  provider of the transport interface.  Its state is the record \<open>fake\<close>; \<open>fp_queue\<close> holds the
  responses passed to \<open>call_soon\<close>, and \<open>fp_schedule\<close> says how many rounds of the notification pump
  the event loop runs before and after them while a request waits (a parameter: any schedule).

  It is shown to be a link, a server of its one value and a server of its database, so the
  results proved for those contracts hold of the client running on it.
\<close>

section \<open>The peripheral\<close>

definition SVC_UUID16 :: int where "SVC_UUID16 = 0xFBE0"
definition CHR_READ_UUID16 :: int where "CHR_READ_UUID16 = 0xFBE1"
definition CHR_WRITE_UUID16 :: int where "CHR_WRITE_UUID16 = 0xFBE2"
definition CHR_NOTIFY_UUID16 :: int where "CHR_NOTIFY_UUID16 = 0xFBE3"
definition CCCD_UUID16 :: int where "CCCD_UUID16 = 0x2902"

definition H_SVC :: int where "H_SVC = 0x0001"
definition H_READ_DECL :: int where "H_READ_DECL = 0x0002"
definition H_READ_VAL :: int where "H_READ_VAL = 0x0003"
definition H_WRITE_DECL :: int where "H_WRITE_DECL = 0x0004"
definition H_WRITE_VAL :: int where "H_WRITE_VAL = 0x0005"
definition H_NOTIFY_DECL :: int where "H_NOTIFY_DECL = 0x0006"
definition H_NOTIFY_VAL :: int where "H_NOTIFY_VAL = 0x0007"
definition H_NOTIFY_CCCD :: int where "H_NOTIFY_CCCD = 0x0008"
definition H_END :: int where "H_END = 0x0008"

lemmas fake_consts =
  SVC_UUID16_def CHR_READ_UUID16_def CHR_WRITE_UUID16_def CHR_NOTIFY_UUID16_def CCCD_UUID16_def
  H_SVC_def H_READ_DECL_def H_READ_VAL_def H_WRITE_DECL_def H_WRITE_VAL_def H_NOTIFY_DECL_def
  H_NOTIFY_VAL_def H_NOTIFY_CCCD_def H_END_def

definition uuid128_from_uuid16 :: "int \<Rightarrow> string" where
  "uuid128_from_uuid16 uuid16 = ''0000'' @ fmt_hex 4 uuid16 @ ''-0000-1000-8000-00805f9b34fb''"

record fake =
  fp_payload_size :: nat
  fp_read_value :: bytes
  fp_last_written :: "bytes option"
  fp_writes :: "(int \<times> bytes) list"
  fp_notify_enabled :: bool
  fp_notify_task :: bool
  fp_reader :: bool
  fp_notify_payload :: bytes
  fp_notify_rate_hz :: int
  fp_queue :: "bytes list"
  fp_schedule :: "(nat \<times> nat) list"

definition pattern :: "nat \<Rightarrow> bytes" where
  "pattern n = map (\<lambda>i. of_nat (i mod 256)) [0..<n]"

definition fake_init :: "nat \<Rightarrow> (nat \<times> nat) list \<Rightarrow> fake" where
  "fake_init payload_size schedule =
     \<lparr>fp_payload_size = payload_size, fp_read_value = pattern payload_size, fp_last_written = None,
      fp_writes = [], fp_notify_enabled = False, fp_notify_task = False, fp_reader = False,
      fp_notify_payload = pattern payload_size, fp_notify_rate_hz = 0, fp_queue = [],
      fp_schedule = schedule\<rparr>"

definition fake_start_reader :: "fake \<Rightarrow> fake" where
  "fake_start_reader f = f\<lparr>fp_reader := True\<rparr>"

definition fake_close :: "fake \<Rightarrow> fake" where
  "fake_close f = (if fp_notify_task f then f\<lparr>fp_notify_task := False\<rparr> else f)"

definition start_notify_pump :: "int \<Rightarrow> fake \<Rightarrow> fake" where
  "start_notify_pump rate_hz f =
     (let f' = f\<lparr>fp_notify_rate_hz := rate_hz\<rparr>
      in if fp_notify_task f' then f' else f'\<lparr>fp_notify_task := True\<rparr>)"

text \<open>One round of \<open>_pump\<close>: the packet it passes to \<open>_on_data\<close>, if any.\<close>

definition pump_round :: "fake \<Rightarrow> bytes list" where
  "pump_round f =
     (if fp_notify_task f \<and> fp_notify_enabled f \<and> fp_notify_rate_hz f > 0 \<and> fp_reader f
      then [op_byte HANDLE_VALUE_NTF # le_bytes 2 H_NOTIFY_VAL @ fp_notify_payload f] else [])"

definition fp_err :: "int \<Rightarrow> int \<Rightarrow> int \<Rightarrow> bytes" where
  "fp_err req_op handle code =
     [op_byte ERROR_RSP, op_byte req_op] @ le_bytes 2 handle @ [op_byte code]"

definition fp_groups :: "int \<Rightarrow> int \<Rightarrow> int \<Rightarrow> bytes" where
  "fp_groups op start end_h =
     (if start \<le> H_SVC \<and> H_SVC \<le> end_h then
        [op_byte READ_BY_GROUP_TYPE_RSP, 6] @ le_bytes 2 H_SVC @ le_bytes 2 H_END @ le_bytes 2 SVC_UUID16
      else fp_err op start ATT_ERR_ATTRIBUTE_NOT_FOUND)"

definition fp_char_entries :: "int \<Rightarrow> int \<Rightarrow> (int \<times> int \<times> int \<times> int) list" where
  "fp_char_entries start end_h =
     filter (\<lambda>(decl, val_h, uuid16, props). start \<le> decl \<and> decl \<le> end_h)
       [(H_READ_DECL, H_READ_VAL, CHR_READ_UUID16, 0x02),
        (H_WRITE_DECL, H_WRITE_VAL, CHR_WRITE_UUID16, 0x08),
        (H_NOTIFY_DECL, H_NOTIFY_VAL, CHR_NOTIFY_UUID16, 0x10)]"

definition fp_types :: "int \<Rightarrow> int \<Rightarrow> int \<Rightarrow> bytes" where
  "fp_types op start end_h =
     (let entries = fp_char_entries start end_h
      in if entries = [] then fp_err op start ATT_ERR_ATTRIBUTE_NOT_FOUND
         else [op_byte READ_BY_TYPE_RSP, 7] @ concat (map (\<lambda>(decl, val_h, uuid16, props).
           le_bytes 2 decl @ [op_byte props] @ le_bytes 2 val_h @ le_bytes 2 uuid16) entries))"

definition fp_infos :: "int \<Rightarrow> int \<Rightarrow> int \<Rightarrow> bytes" where
  "fp_infos op start end_h =
     (if start \<le> H_NOTIFY_CCCD \<and> H_NOTIFY_CCCD \<le> end_h then
        [op_byte FIND_INFO_RSP, 0x01] @ le_bytes 2 H_NOTIFY_CCCD @ le_bytes 2 CCCD_UUID16
      else fp_err op start ATT_ERR_ATTRIBUTE_NOT_FOUND)"

definition fp_read :: "int \<Rightarrow> int \<Rightarrow> fake \<Rightarrow> bytes" where
  "fp_read op handle f =
     (if handle = H_READ_VAL then op_byte READ_RSP # fp_read_value f
      else if handle = H_NOTIFY_CCCD then
        op_byte READ_RSP # (if fp_notify_enabled f then [1, 0] else [0, 0])
      else fp_err op handle ATT_ERR_INVALID_HANDLE)"

definition fp_write :: "int \<Rightarrow> int \<Rightarrow> bytes \<Rightarrow> fake \<Rightarrow> bytes \<times> fake" where
  "fp_write op handle val f =
     (if handle = H_NOTIFY_CCCD then
        ([op_byte WRITE_RSP], f\<lparr>fp_notify_enabled := (take 2 val = [1, 0])\<rparr>)
      else if handle = H_WRITE_VAL then
        ([op_byte WRITE_RSP],
         f\<lparr>fp_last_written := Some val, fp_writes := fp_writes f @ [(handle, val)]\<rparr>)
      else (fp_err op handle ATT_ERR_INVALID_HANDLE, f))"

text \<open>\<open>_handle\<close>: the response, if there is one.\<close>

definition range_of :: "bytes \<Rightarrow> (int \<times> int) result" where
  "range_of req = rbind (unpack_le 2 1 req) (\<lambda>a. rbind (unpack_le 2 3 req) (\<lambda>b. Inr (a, b)))"

definition fp_handle :: "bytes \<Rightarrow> fake \<Rightarrow> bytes option result \<times> fake" where
  "fp_handle req f =
     (case py_get req 0 of
        Inl e \<Rightarrow> (Inl e, f)
      | Inr b \<Rightarrow>
          let op = uint b in
          if op = EXCHANGE_MTU_REQ then (Inr (Some (op_byte EXCHANGE_MTU_RSP # le_bytes 2 247)), f)
          else if op = READ_BY_GROUP_TYPE_REQ then
            (rbind (range_of req) (\<lambda>(start, end_h). Inr (Some (fp_groups op start end_h))), f)
          else if op = READ_BY_TYPE_REQ then
            (rbind (range_of req) (\<lambda>(start, end_h). Inr (Some (fp_types op start end_h))), f)
          else if op = FIND_INFO_REQ then
            (rbind (range_of req) (\<lambda>(start, end_h). Inr (Some (fp_infos op start end_h))), f)
          else if op = READ_REQ then
            (rbind (unpack_le 2 1 req) (\<lambda>handle. Inr (Some (fp_read op handle f))), f)
          else if op = WRITE_REQ then
            (case unpack_le 2 1 req of
               Inl e \<Rightarrow> (Inl e, f)
             | Inr handle \<Rightarrow> (let (r, f') = fp_write op handle (drop 3 req) f in (Inr (Some r), f')))
          else if op = WRITE_CMD then
            (case unpack_le 2 1 req of
               Inl e \<Rightarrow> (Inl e, f)
             | Inr handle \<Rightarrow> (Inr None, f\<lparr>fp_writes := fp_writes f @ [(handle, drop 3 req)]\<rparr>))
          else (Inr (Some (fp_err op 0 ATT_ERR_INVALID_HANDLE)), f))"

definition fake_send :: "bytes \<Rightarrow> fake \<Rightarrow> unit result \<times> fake" where
  "fake_send data f =
     (case fp_handle data f of
        (Inl e, f') \<Rightarrow> (Inl e, f')
      | (Inr None, f') \<Rightarrow> (Inr (), f')
      | (Inr (Some rsp), f') \<Rightarrow>
          (Inr (), if fp_reader f' then f'\<lparr>fp_queue := fp_queue f' @ [rsp]\<rparr> else f'))"

definition fake_recv :: "fake \<Rightarrow> upcall list \<times> fake" where
  "fake_recv f =
     (let (n, m) = (case fp_schedule f of [] \<Rightarrow> (0, 0) | x # _ \<Rightarrow> x);
          pkts = (\<lambda>k. concat (replicate k (pump_round f)))
      in (map OnData (pkts n @ fp_queue f @ pkts m),
          f\<lparr>fp_queue := [], fp_schedule := tl (fp_schedule f)\<rparr>))"

definition fake_transport :: "fake transport" where
  "fake_transport = \<lparr>tsend = fake_send, trecv = fake_recv, tclose = fake_close\<rparr>"


section \<open>The peripheral as a link\<close>

interpretation fake_link: link fake_transport "\<lambda>f. True" "\<lambda>f. True"
proof
  fix t :: fake
  show "n_closes (fst (trecv fake_transport t)) + of_bool True
      \<le> of_bool True"
  proof -
    have "n_closes (map OnData ds) = 0" for ds by (induction ds) auto
    then show ?thesis by (simp add: fake_transport_def fake_recv_def split_beta Let_def del: map_append)
  qed
qed auto


section \<open>Its answers\<close>

definition fake_ready :: "fake \<Rightarrow> bool" where
  "fake_ready f \<longleftrightarrow> fp_reader f \<and> fp_queue f = []"

lemma pump_round_stray:
  "op \<noteq> HANDLE_VALUE_NTF \<Longrightarrow> list_all (stray op) (concat (replicate n (pump_round f)))"
  by (induction n) (auto simp: pump_round_def stray_def att_opcodes)

lemma pump_round_quiet:
  "concat (map replies_of (map OnData (concat (replicate n (pump_round f))))) = []"
  "list_all (\<lambda>u. mtu_of u = None) (map OnData (concat (replicate n (pump_round f))))"
  by (induction n) (auto simp: pump_round_def att_opcodes)

lemma fake_answers:
  assumes "fake_ready f" "fp_handle p f = (Inr (Some r), f')" "fp_reader f'" "fp_queue f' = []"
    and "opcode_of r \<in> {op, ERROR_RSP}" "response_opcode op"
  shows "\<exists>us. answers fake_transport op p f us r (f'\<lparr>fp_schedule := tl (fp_schedule f')\<rparr>)
    \<and> list_all (\<lambda>u. mtu_of u = None) us"
proof -
  obtain n m where nm: "(case fp_schedule f' of [] \<Rightarrow> (0, 0) | x # _ \<Rightarrow> x) = (n, m)"
    by (cases "case fp_schedule f' of [] \<Rightarrow> (0, 0) | x # _ \<Rightarrow> x")
  let ?q = "f'\<lparr>fp_queue := [r]\<rparr>"
  let ?a = "concat (replicate n (pump_round ?q))" and ?b = "concat (replicate m (pump_round ?q))"
  let ?us = "map OnData ?a @ OnData r # map OnData ?b"
  have s: "tsend fake_transport p f = (Inr (), ?q)"
    using assms(2-4) by (simp add: fake_transport_def fake_send_def)
  have t: "trecv fake_transport ?q = (?us, f'\<lparr>fp_schedule := tl (fp_schedule f')\<rparr>)"
    using nm assms(4) by (simp add: fake_transport_def fake_recv_def)
  have o: "op \<noteq> HANDLE_VALUE_NTF" using assms(6) by (simp add: response_opcode_def)
  have d: "opcode_of r \<noteq> HANDLE_VALUE_IND" "opcode_of r \<noteq> EXCHANGE_MTU_REQ"
    using assms(5,6) by (auto simp: response_opcode_def att_opcodes)
  have r: "concat (map replies_of ?us) = []"
    using d by (simp only: map_append concat_append pump_round_quiet list.map concat.simps) simp
  have "answers fake_transport op p f ?us r (f'\<lparr>fp_schedule := tl (fp_schedule f')\<rparr>)"
    using s t assms(5) pump_round_stray [OF o, of n ?q]
    unfolding answers_def s t fst_conv snd_conv r by (auto simp del: map_append)
  moreover have "list_all (\<lambda>u. mtu_of u = None) ?us"
    using d pump_round_quiet(2) by simp
  ultimately show ?thesis by blast
qed

lemma fake_ready_schedule [simp]: "fake_ready (f\<lparr>fp_schedule := x\<rparr>) = fake_ready f"
  by (simp add: fake_ready_def)

lemma unpack_pdu [simp]:
  "0 \<le> h \<Longrightarrow> h \<le> 0xFFFF \<Longrightarrow> unpack_le 2 1 (b # le_bytes 2 h @ r) = Inr h"
  "0 \<le> h \<Longrightarrow> h \<le> 0xFFFF \<Longrightarrow> unpack_le 2 (Suc 0) (b # le_bytes 2 h @ r) = Inr h"
  "0 \<le> h \<Longrightarrow> h \<le> 0xFFFF \<Longrightarrow> unpack_le 2 3 (b # le_bytes 2 g @ le_bytes 2 h @ r) = Inr h"
  by (simp_all add: unpack_le_def slice_def numeral_3_eq_3)

lemma fp_err_decode:
  "0 \<le> h \<Longrightarrow> h \<le> 0xFFFF \<Longrightarrow> 0 \<le> req_op \<Longrightarrow> req_op < 256 \<Longrightarrow> 0 \<le> code \<Longrightarrow> code < 256 \<Longrightarrow>
   decode_response op (fp_err req_op h code) = Inl (ATTError req_op h code)"
  by (simp add: fp_err_def decode_response_def unpack_le_def slice_def ERROR_RSP_def
      uint_word_of_int numeral_eq_Suc)


lemma request_op [simp]:
  "uint (op_byte READ_REQ) = READ_REQ" "uint (op_byte READ_BY_GROUP_TYPE_REQ) = READ_BY_GROUP_TYPE_REQ"
  "uint (op_byte READ_BY_TYPE_REQ) = READ_BY_TYPE_REQ" "uint (op_byte FIND_INFO_REQ) = FIND_INFO_REQ"
  "uint (op_byte WRITE_REQ) = WRITE_REQ" "uint (op_byte ERROR_RSP) = ERROR_RSP"
  by (simp_all add: att_opcodes)

lemma fp_err_opcode [simp]: "opcode_of (fp_err a b c) = ERROR_RSP"
  by (simp add: fp_err_def)

lemma fake_ready_facts [simp]: "fake_ready f \<Longrightarrow> fp_reader f" "fake_ready f \<Longrightarrow> fp_queue f = []"
  by (simp_all add: fake_ready_def)

text \<open>At rest, with \<open>v\<close> as the value of its first characteristic.\<close>

definition fake_holds :: "bytes \<Rightarrow> fake \<Rightarrow> bool" where
  "fake_holds v f \<longleftrightarrow> fake_ready f \<and> fp_read_value f = v"

lemma fake_holds_facts: "fake_holds v f \<Longrightarrow> fake_ready f" "fake_holds v f \<Longrightarrow> fp_read_value f = v"
  by (simp_all add: fake_holds_def)

lemma fake_holds_schedule [simp]: "fake_holds v (f\<lparr>fp_schedule := x\<rparr>) = fake_holds v f"
  by (simp add: fake_holds_def)

text \<open>It serves its value as long as that fits one PDU of the MTU it answers with (it has no Read
  Blob).\<close>

interpretation fake_value: value_server fake_transport
    "fake_holds (pattern (min k 245))" H_READ_VAL "pattern (min k 245)" 247
  for k :: nat
proof
  fix f :: fake
  let ?v = "pattern (min k 245)" and ?p = "op_byte READ_REQ # le_bytes 2 H_READ_VAL"
  assume h: "fake_holds ?v f"
  then have f: "fake_ready f" "fp_read_value f = ?v" by (rule fake_holds_facts)+
  have "unpack_le 2 1 ?p = Inr H_READ_VAL"
    using unpack_pdu(1) [of H_READ_VAL _ "[]"] by (simp add: H_READ_VAL_def)
  with f have "fp_handle ?p f = (Inr (Some (op_byte READ_RSP # ?v)), f)"
    by (simp add: fp_handle_def Let_def fp_read_def) (simp add: att_opcodes)
  from fake_answers [OF _ this _ _ _ response_opcodes(1)] f
  obtain us where "answers fake_transport READ_RSP ?p f us (op_byte READ_RSP # ?v)
      (f\<lparr>fp_schedule := tl (fp_schedule f)\<rparr>)" "list_all (\<lambda>u. mtu_of u = None) us"
    by auto
  moreover have "take (nat (247 - 1)) ?v = ?v" by (simp add: pattern_def)
  ultimately show "\<exists>us t'. answers fake_transport READ_RSP ?p f us
       (op_byte READ_RSP # take (nat (247 - 1)) ?v) t' \<and>
     list_all (\<lambda>u. mtu_of u = None) us \<and> fake_holds ?v t'"
    using h by (intro exI [of _ us] exI [of _ "f\<lparr>fp_schedule := tl (fp_schedule f)\<rparr>"]) simp
qed (auto simp: H_READ_VAL_def pattern_def)


section \<open>Its database\<close>

definition fake_db :: "wire_service list" where
  "fake_db =
     [\<lparr>ws_handle = H_SVC, ws_end = H_END, ws_uuid = le_bytes 2 SVC_UUID16,
       ws_characteristics =
         [\<lparr>wc_decl = H_READ_DECL, wc_props = 0x02, wc_value_handle = H_READ_VAL,
           wc_uuid = le_bytes 2 CHR_READ_UUID16, wc_descriptors = []\<rparr>,
          \<lparr>wc_decl = H_WRITE_DECL, wc_props = 0x08, wc_value_handle = H_WRITE_VAL,
           wc_uuid = le_bytes 2 CHR_WRITE_UUID16, wc_descriptors = []\<rparr>,
          \<lparr>wc_decl = H_NOTIFY_DECL, wc_props = 0x10, wc_value_handle = H_NOTIFY_VAL,
           wc_uuid = le_bytes 2 CHR_NOTIFY_UUID16,
           wc_descriptors = [(H_NOTIFY_CCCD, le_bytes 2 CCCD_UUID16)]\<rparr>]\<rparr>]"

lemma fake_serves:
  assumes "fake_holds v f" "fp_handle p f = (Inr (Some r), f)" "page_of op tag es r"
    and "opcode_of r \<in> {op, ERROR_RSP}" "response_opcode op"
  shows "\<exists>us rsp t'. answers fake_transport op p f us rsp t' \<and> fake_holds v t' \<and> page_of op tag es rsp"
  using fake_answers [OF fake_holds_facts(1) [OF assms(1)] assms(2) _ _ assms(4,5)]
    fake_holds_facts(1) [OF assms(1)] assms(1,3) fake_holds_schedule by fastforce

lemma page_none:
  assumes "0 \<le> h" "h \<le> 0xFFFF" "0 \<le> req_op" "req_op < 256"
  shows "page_of op tag [] (fp_err req_op h ATT_ERR_ATTRIBUTE_NOT_FOUND)"
  using assms by (auto simp: page_of_def fp_err_decode att_errors intro!: exI [of _ "ATTError req_op h 10"])

lemma page_whole:
  "es \<noteq> [] \<Longrightarrow> len < 256 \<Longrightarrow> list_all (\<lambda>e. length e = len) es \<Longrightarrow>
   page_of op tag es (op_byte op # tag len # concat es)"
  unfolding page_of_def
  by (simp, rule exI [of _ "length es"], simp, rule exI [of _ len], simp)

interpretation fake_gatt: gatt_server fake_transport "fake_holds v" fake_db
  for v :: bytes
proof
  show "db_ok fake_db"
    by (simp add: db_ok_def fake_db_def service_ok_def descriptors_ok_def fake_consts)
  fix f :: fake and start :: int
  assume f: "fake_holds v f"
  show "\<exists>us rsp t'. answers fake_transport READ_BY_GROUP_TYPE_RSP
      (op_byte READ_BY_GROUP_TYPE_REQ # le_bytes 2 start @ le_bytes 2 0xFFFF @ PRIMARY_SERVICE) f us rsp t'
    \<and> fake_holds v t' \<and> page_of READ_BY_GROUP_TYPE_RSP of_nat
        (map group_bytes (filter (\<lambda>w. start \<le> ws_handle w) fake_db)) rsp"
    if s: "1 \<le> start" "start \<le> 0xFFFF"
  proof (rule fake_serves [OF f])
    let ?r = "fp_groups READ_BY_GROUP_TYPE_REQ start 0xFFFF"
    show "fp_handle (op_byte READ_BY_GROUP_TYPE_REQ # le_bytes 2 start @ le_bytes 2 0xFFFF @ PRIMARY_SERVICE) f
        = (Inr (Some ?r), f)"
      using s by (simp add: fp_handle_def range_of_def Let_def) (simp add: att_opcodes)
    show "page_of READ_BY_GROUP_TYPE_RSP of_nat (map group_bytes (filter (\<lambda>w. start \<le> ws_handle w) fake_db)) ?r"
      using s page_none [of start READ_BY_GROUP_TYPE_REQ]
        page_whole [of "[le_bytes 2 1 @ le_bytes 2 8 @ le_bytes 2 0xFBE0]" 6 READ_BY_GROUP_TYPE_RSP of_nat]
      by (auto simp: fp_groups_def fake_db_def group_bytes_def fake_consts att_opcodes)
    show "opcode_of ?r \<in> {READ_BY_GROUP_TYPE_RSP, ERROR_RSP}"
      by (simp add: fp_groups_def)
  qed simp
  show "\<exists>us rsp t'. answers fake_transport READ_BY_TYPE_RSP
      (op_byte READ_BY_TYPE_REQ # le_bytes 2 start @ le_bytes 2 (ws_end w) @ CHARACTERISTIC) f us rsp t'
    \<and> fake_holds v t' \<and> page_of READ_BY_TYPE_RSP of_nat
        (map type_bytes (filter (\<lambda>c. start \<le> wc_decl c) (ws_characteristics w))) rsp"
    if w: "w \<in> set fake_db" and s: "ws_handle w \<le> start" "start \<le> ws_end w" for w
  proof (rule fake_serves [OF f])
    have e: "ws_end w = 8" "1 \<le> start" "start \<le> 8" using w s by (auto simp: fake_db_def fake_consts)
    let ?r = "fp_types READ_BY_TYPE_REQ start 8"
    show "fp_handle (op_byte READ_BY_TYPE_REQ # le_bytes 2 start @ le_bytes 2 (ws_end w) @ CHARACTERISTIC) f
        = (Inr (Some ?r), f)"
      using e by (simp add: fp_handle_def range_of_def Let_def) (simp add: att_opcodes)
    show "page_of READ_BY_TYPE_RSP of_nat
        (map type_bytes (filter (\<lambda>c. start \<le> wc_decl c) (ws_characteristics w))) ?r"
    proof (cases "start \<le> 6")
      case True
      let ?cs = "filter (\<lambda>c. start \<le> wc_decl c) (ws_characteristics w)"
      have "?cs \<noteq> []" using True w by (auto simp: fake_db_def fake_consts)
      moreover have "list_all (\<lambda>e. length e = 7) (map type_bytes ?cs)"
        using w by (auto simp: fake_db_def type_bytes_def)
      moreover have "concat (map (\<lambda>(decl, val_h, uuid16, props).
           le_bytes 2 decl @ [op_byte props] @ le_bytes 2 val_h @ le_bytes 2 uuid16) (fp_char_entries start 8))
          = concat (map type_bytes ?cs)"
        using w by (simp add: fp_char_entries_def fake_db_def type_bytes_def fake_consts)
      moreover have "fp_char_entries start 8 \<noteq> []"
        using True by (simp add: fp_char_entries_def fake_consts)
      ultimately show ?thesis
        using page_whole [of "map type_bytes ?cs" 7 READ_BY_TYPE_RSP of_nat] by (simp add: fp_types_def Let_def)
    next
      case False
      then have "filter (\<lambda>c. start \<le> wc_decl c) (ws_characteristics w) = []" "fp_char_entries start 8 = []"
        using w by (auto simp: fake_db_def fp_char_entries_def fake_consts)
      then show ?thesis using page_none [of start READ_BY_TYPE_REQ] e by (simp add: fp_types_def att_opcodes)
    qed
    show "opcode_of ?r \<in> {READ_BY_TYPE_RSP, ERROR_RSP}"
      by (simp add: fp_types_def Let_def)
  qed simp
  show "\<exists>us rsp t'. answers fake_transport FIND_INFO_RSP
      (op_byte FIND_INFO_REQ # le_bytes 2 start @ le_bytes 2 e) f us rsp t'
    \<and> fake_holds v t' \<and> page_of FIND_INFO_RSP (\<lambda>len. if len = 4 then 1 else 2)
        (map info_bytes (filter (\<lambda>d. start \<le> fst d) (wc_descriptors c))) rsp"
    if w: "w \<in> set fake_db" "(c, e) \<in> set (char_ends (ws_end w) (ws_characteristics w))"
      and s: "wc_value_handle c < start" "start \<le> e" for w c e
  proof (rule fake_serves [OF f])
    have e: "start = 8" "e = 8" "wc_descriptors c = [(8, le_bytes 2 0x2902)]"
      using w s by (auto simp: fake_db_def fake_consts)
    let ?r = "fp_infos FIND_INFO_REQ 8 8"
    show "fp_handle (op_byte FIND_INFO_REQ # le_bytes 2 start @ le_bytes 2 e) f = (Inr (Some ?r), f)"
      using e unpack_pdu(3) [of 8 _ 8 "[]"]
      by (simp add: fp_handle_def range_of_def Let_def) (simp add: att_opcodes)
    show "page_of FIND_INFO_RSP (\<lambda>len. if len = 4 then 1 else 2)
        (map info_bytes (filter (\<lambda>d. start \<le> fst d) (wc_descriptors c))) ?r"
      using page_whole [of "[le_bytes 2 8 @ le_bytes 2 0x2902]" 4 FIND_INFO_RSP "\<lambda>len. if len = 4 then 1 else 2"]
      by (simp add: e fp_infos_def info_bytes_def fake_consts)
    show "opcode_of ?r \<in> {FIND_INFO_RSP, ERROR_RSP}"
      by (simp add: fp_infos_def)
  qed simp
qed

section \<open>Requests in a calm\<close>

text \<open>While the pump is off or the CCCD is not set, nothing but the response arrives.\<close>

definition fake_calm :: "fake \<Rightarrow> bool" where
  "fake_calm f \<longleftrightarrow> fake_ready f \<and> \<not> (fp_notify_task f \<and> fp_notify_enabled f)"

lemma fake_calm_schedule [simp]: "fake_calm (f\<lparr>fp_schedule := x\<rparr>) = fake_calm f"
  by (simp add: fake_calm_def)

lemma pump_round_calm: "\<not> (fp_notify_task f \<and> fp_notify_enabled f) \<Longrightarrow> pump_round f = []"
  by (auto simp: pump_round_def)

lemma calm_request:
  assumes "quiet s" "fake_calm f'" "fp_handle p (a_l2 s) = (Inr (Some r), f')"
    and "opcode_of r \<in> {op, ERROR_RSP}" "response_opcode op"
  shows "request fake_transport p op s
    = (decode_response op r, s\<lparr>a_l2 := f'\<lparr>fp_schedule := tl (fp_schedule f')\<rparr>\<rparr>)"
proof -
  let ?q = "f'\<lparr>fp_queue := [r]\<rparr>"
  have f': "fp_reader f'" "fp_queue f' = []" using assms(2) by (simp_all add: fake_calm_def)
  have s: "tsend fake_transport p (a_l2 s) = (Inr (), ?q)"
    using assms(3) f' by (simp add: fake_transport_def fake_send_def)
  have "pump_round ?q = []" using assms(2) by (intro pump_round_calm) (simp add: fake_calm_def)
  then have t: "trecv fake_transport ?q = ([OnData r], f'\<lparr>fp_schedule := tl (fp_schedule f')\<rparr>)"
    using f' by (simp add: fake_transport_def fake_recv_def split_beta Let_def)
  have d: "opcode_of r \<notin> {HANDLE_VALUE_NTF, HANDLE_VALUE_IND, EXCHANGE_MTU_REQ}" "opcode_of r \<noteq> - 1"
    using assms(4,5) by (auto simp: response_opcode_def att_opcodes)
  have "first_response op [OnData r] = Inr r"
    using d assms(4) by (auto simp: first_response_def map_filter_simps)
  moreover have "value_of (OnData r) = None" "mtu_of (OnData r) = None" "replies_of (OnData r) = []"
    using d by auto
  ultimately show ?thesis
    using request_full [OF assms(1) s t, of op] by (simp add: notify_entries_def map_filter_simps last_mtu_def)
qed

lemma range_response:
  assumes "(q, op) \<in> range_ops" "range_req q u a b = Inr p"
  shows "\<exists>r. fp_handle p f = (Inr (Some r), f) \<and> opcode_of r \<in> {op, ERROR_RSP} \<and> response_opcode op"
proof -
  obtain x y where p: "p = op_byte q # x @ y @ u" "to_le 2 a = Inr x" "to_le 2 b = Inr y"
    using assms(2) by (auto simp: range_req_def rbind_eq_Inr)
  have l: "length x = 2" "length y = 2" using p(2,3) to_le_Inr by blast+
  then obtain i j where r: "range_of p = Inr (i, j)"
    by (simp add: range_of_def unpack_le_def p(1))
  have g: "py_get p 0 = Inr (op_byte q)" by (simp add: p(1))
  have H: "fp_handle p f = (Inr (Some (fp_groups q i j)), f)" if "q = READ_BY_GROUP_TYPE_REQ"
    by (simp add: fp_handle_def g r that) (simp add: att_opcodes)
  have I: "fp_handle p f = (Inr (Some (fp_types q i j)), f)" if "q = READ_BY_TYPE_REQ"
    by (simp add: fp_handle_def g r that) (simp add: att_opcodes)
  have J: "fp_handle p f = (Inr (Some (fp_infos q i j)), f)" if "q = FIND_INFO_REQ"
    by (simp add: fp_handle_def g r that) (simp add: att_opcodes)
  have K: "opcode_of (fp_groups q i j) \<in> {READ_BY_GROUP_TYPE_RSP, ERROR_RSP}"
    "opcode_of (fp_types q i j) \<in> {READ_BY_TYPE_RSP, ERROR_RSP}"
    "opcode_of (fp_infos q i j) \<in> {FIND_INFO_RSP, ERROR_RSP}"
    by (simp_all add: fp_groups_def fp_types_def fp_infos_def Let_def)
  show ?thesis
    using assms(1) H I J K response_opcodes unfolding range_ops_def by blast
qed

text \<open>Discovery changes nothing but the schedule, which it consumes.\<close>

lemma discovery_calm:
  fixes s :: "(fake, 'h) att"
  assumes "quiet s" "fake_calm (a_l2 s)"
  shows "\<exists>x. discover fake_transport s = (Inr (map service_tree fake_db), s\<lparr>a_l2 := (a_l2 s)\<lparr>fp_schedule := x\<rparr>\<rparr>)"
proof -
  let ?Q = "\<lambda>s'. \<exists>x. s' = s\<lparr>a_l2 := (a_l2 s)\<lparr>fp_schedule := x\<rparr>\<rparr>"
  have "kept_by_ranges fake_transport ?Q"
    unfolding kept_by_ranges_def
  proof (intro allI impI)
    fix q op u a b p and s' :: "(fake, 'h) att"
    assume o: "(q, op) \<in> range_ops" "range_req q u a b = Inr p" and "?Q s'"
    then obtain x where s': "s' = s\<lparr>a_l2 := (a_l2 s)\<lparr>fp_schedule := x\<rparr>\<rparr>" by blast
    obtain r where "fp_handle p (a_l2 s') = (Inr (Some r), a_l2 s')" "opcode_of r \<in> {op, ERROR_RSP}"
      "response_opcode op" using range_response [OF o] by blast
    from calm_request [OF _ _ this] s' assms show "?Q (snd (request fake_transport p op s'))"
      by (auto simp: quiet_def)
  qed
  moreover have "?Q s" by (intro exI [of _ "fp_schedule (a_l2 s)"]) simp
  ultimately have "?Q (snd (discover fake_transport s))" by (rule discover_keeps)
  moreover have "fake_holds (fp_read_value (a_l2 s)) (a_l2 s)"
    using assms(2) by (simp add: fake_calm_def fake_holds_def)
  from fake_gatt.discover_database [OF assms(1) this]
  have "fst (discover fake_transport s) = Inr (map service_tree fake_db)" by auto
  ultimately show ?thesis by (metis prod.collapse)
qed

theorem discover_finds_database_witness:
  "\<exists>s'. discover fake_transport (att_init (fake_start_reader (fake_init 20 [(1, 0)])) :: (fake, nat) att)
      = (Inr (map service_tree fake_db), s') \<and> quiet s' \<and> fake_holds (pattern 20) (a_l2 s')"
proof (rule discover_finds_database [OF fake_gatt.gatt_server_axioms])
  let ?a = "att_init (fake_start_reader (fake_init 20 [(1, 0)])) :: (fake, nat) att"
  show "quiet ?a" by (rule quiet_init)
  show "fake_holds (pattern 20) (a_l2 ?a)"
    unfolding fake_holds_def fake_ready_def by (simp add: fake_start_reader_def fake_init_def att_init_def)
qed

end
