(* ===== verification/Bench_Events.thy ===== *)
theory Bench_Events
  imports ATT_Discovery Mgmt_Codec
begin

text \<open>
  What the benchmark stacks share (\<open>bench/stacks/base.py\<close>): the events they give out, the session
  record, and their generators.  All of the generators have the same loop, \<open>queue_loop\<close>: a callback
  puts events with their times into a queue, and the loop gives them out until the deadline.

  The schedule of a generator is a list of wake-ups of the event loop, each given by the time since
  the last one; in each the loop delivers what has been received (\<open>wake\<close>).  When the schedule is
  exhausted nothing more arrives, so the wait for the queue times out.  The time a request takes is
  not modelled: what arrives during one has the time of its end.  The wait for the queue is computed
  exactly where the code rounds it to a float.
\<close>

section \<open>Events and sessions\<close>

record advert_event =
  ae_t_ns :: int
  ae_address :: string
  ae_rssi :: "int option"
  ae_name :: "ustr option"

record notify_event =
  ne_t_ns :: int
  ne_value :: bytes

type_synonym char_table = "string \<rightharpoonup> int \<times> int option"

record ('t, 'h) session =
  ss_att :: "('t, 'h) att"
  ss_chars :: char_table

text \<open>An operation on the ATT client of a session.\<close>

definition in_session :: "(('t, 'h) att, 'a) sx \<Rightarrow> (('t, 'h) session, 'a) sx" where
  "in_session f h = (let (r, a) = f (ss_att h) in (r, h\<lparr>ss_att := a\<rparr>))"


section \<open>The loop of the generators\<close>

definition wait_limit :: "int \<Rightarrow> int \<Rightarrow> int" where
  "wait_limit deadline now = max (now + 1000000) deadline"

fun queue_loop ::
  "(int \<Rightarrow> 's \<Rightarrow> 'e list \<times> 's) \<Rightarrow> int \<Rightarrow> nat list \<Rightarrow> int \<Rightarrow> int \<Rightarrow> 'e list \<Rightarrow> 's \<Rightarrow> 'e list \<times> 's"
where
  "queue_loop wake deadline [] limit now queue s = ([], s)"
| "queue_loop wake deadline (d # ds) limit now queue s =
     (let now' = now + int d; (new, s') = wake now' s
      in case queue @ new of
           [] \<Rightarrow> if limit \<le> now' then ([], s') else queue_loop wake deadline ds limit now' [] s'
         | ev # rest \<Rightarrow>
             if queue = [] \<and> limit \<le> now' then ([], s')
             else
               (let (evs, s'') =
                      (if now' < deadline
                       then queue_loop wake deadline ds (wait_limit deadline now') now' rest s'
                       else ([], s'))
                in (ev # evs, s'')))"

text \<open>From the first test of the deadline on.\<close>

definition generate ::
  "(int \<Rightarrow> 's \<Rightarrow> 'e list \<times> 's) \<Rightarrow> int \<Rightarrow> nat list \<Rightarrow> int \<Rightarrow> 'e list \<Rightarrow> 's \<Rightarrow> 'e list \<times> 's" where
  "generate wake deadline ds now queue s =
     (if now < deadline then queue_loop wake deadline ds (wait_limit deadline now) now queue s
      else ([], s))"


text \<open>What every wake-up keeps, the generator keeps.\<close>

lemma queue_loop_keeps:
  assumes "\<And>now s. P s \<Longrightarrow> P (snd (wake now s))"
  shows "P s \<Longrightarrow> P (snd (queue_loop wake deadline ds limit now q s))"
proof (induction ds arbitrary: limit now q s)
  case (Cons d ds)
  obtain new s1 where w: "wake (now + int d) s = (new, s1)" by (cases "wake (now + int d) s")
  have "P s1" using assms [OF Cons.prems, of "now + int d"] w by simp
  then have "P (snd (queue_loop wake deadline ds l n r s1))" for l n r by (rule Cons.IH)
  with \<open>P s1\<close> show ?case by (simp add: w Let_def split_beta split: list.split)
qed simp

lemma queue_keeps:
  assumes "\<And>now s. P s \<Longrightarrow> P (snd (wake now s))" "generate wake deadline ds now q s = (evs, s')" "P s"
  shows "P s'"
proof -
  have "P (snd (generate wake deadline ds now q s))"
    using queue_loop_keeps [where P = P and wake = wake, OF assms(1,3)] assms(3) by (simp add: generate_def)
  with assms(2) show ?thesis by simp
qed


section \<open>The loop keeps the order\<close>

text \<open>The queue holds the oldest events not yet given out, with times up to now.\<close>

definition queue_ok :: "('e \<Rightarrow> int) \<Rightarrow> int \<Rightarrow> int \<Rightarrow> 'e list \<Rightarrow> bool" where
  "queue_ok time start now q \<longleftrightarrow> sorted (map time q) \<and> (\<forall>ev\<in>set q. start \<le> time ev \<and> time ev \<le> now)"

lemma queue_ok_append:
  assumes "queue_ok time start now q" "start \<le> now" "\<forall>ev\<in>set new. time ev = now + int d"
  shows "queue_ok time start (now + int d) (q @ new)"
proof -
  have "map time new = replicate (length new) (now + int d)"
    using assms(3) by (induction new) auto
  then show ?thesis
    using assms by (fastforce simp: queue_ok_def sorted_append)
qed

definition in_order :: "('e \<Rightarrow> int) \<Rightarrow> ('e \<Rightarrow> 'v) \<Rightarrow> int \<Rightarrow> int \<Rightarrow> 'v list \<Rightarrow> 'e list \<Rightarrow> bool" where
  "in_order time content start deadline vs evs \<longleftrightarrow>
     prefix (map content evs) vs \<and> sorted (map time evs)
     \<and> (\<forall>ev\<in>set evs. start \<le> time ev \<and> time ev < deadline + 1000000)"

lemma in_order_Nil [simp]: "in_order time content start deadline vs []"
  by (simp add: in_order_def)

lemma in_order_more: "in_order time content start deadline vs evs \<Longrightarrow> in_order time content start deadline (vs @ ws) evs"
  by (auto simp: in_order_def)

text \<open>A source of events: a wake-up stamps the events that have arrived with the present time, and the
  state keeps a log of the contents of all events.\<close>

locale event_source =
  fixes wake :: "int \<Rightarrow> 's \<Rightarrow> 'e list \<times> 's" and time :: "'e \<Rightarrow> int" and content :: "'e \<Rightarrow> 'v"
    and ok :: "'s \<Rightarrow> bool" and log :: "'s \<Rightarrow> 'v list"
  assumes wake_logs: "ok s \<Longrightarrow> wake now s = (evs, s') \<Longrightarrow>
    ok s' \<and> log s' = log s @ map content evs \<and> (\<forall>ev\<in>set evs. time ev = now)"
begin

lemma loop_in_order:
  assumes "ok s" "queue_ok time start now q" "start \<le> now" "limit \<le> deadline + 1000000"
    and "\<forall>ev\<in>set q. time ev < deadline + 1000000"
    and "queue_loop wake deadline ds limit now q s = (evs, s')"
  shows "ok s' \<and> (\<exists>vs. log s' = log s @ vs \<and> in_order time content start deadline (map content q @ vs) evs)"
  using assms
proof (induction ds arbitrary: start limit now q s evs s')
  case (Cons d ds)
  let ?n = "now + int d"
  obtain new s1 where w: "wake ?n s = (new, s1)" by (cases "wake ?n s")
  from wake_logs [OF Cons.prems(1) w] have s1: "ok s1" "log s1 = log s @ map content new"
    and new: "\<forall>ev\<in>set new. time ev = ?n" by auto
  have q: "queue_ok time start ?n (q @ new)" using queue_ok_append [OF Cons.prems(2,3) new] .
  have stop: ?case if "evs = []" "s' = s1" using that s1 by simp
  have go: ?case if "ok s'" "log s' = log s1 @ vs" "in_order time content start deadline (map content (q @ new) @ vs) evs"
    for vs using that s1 by (intro conjI exI [of _ "map content new @ vs"]) simp_all
  show ?case
  proof (cases "q @ new")
    case Nil
    then have n: "q = []" "new = []" by simp_all
    show ?thesis
    proof (cases "limit \<le> ?n")
      case True
      then show ?thesis using Cons.prems(6) w n by (intro stop) auto
    next
      case False
      then have "queue_loop wake deadline ds limit ?n [] s1 = (evs, s')"
        using Cons.prems(6) w n by simp
      from Cons.IH [OF s1(1) _ _ Cons.prems(4) _ this, of start] Cons.prems(3)
      obtain vs where "ok s'" "log s' = log s1 @ vs" "in_order time content start deadline vs evs"
        by (auto simp: queue_ok_def)
      then show ?thesis using n by (intro go [of vs]) simp_all
    qed
  next
    case (Cons ev rest)
    show ?thesis
    proof (cases "q = [] \<and> limit \<le> ?n")
      case True
      then show ?thesis using Cons.prems(6) w Cons by (intro stop) auto
    next
      case False
      obtain evs' where evs: "evs = ev # evs'"
        and r: "generate wake deadline ds ?n rest s1 = (evs', s')"
        using Cons.prems(6) w Cons False by (auto simp: generate_def Let_def split: prod.splits if_splits)
      have o: "queue_ok time (time ev) ?n rest" "start \<le> time ev" "time ev \<le> ?n"
        using q unfolding Cons by (auto simp: queue_ok_def)
      have lt: "time ev < deadline + 1000000"
      proof (cases q)
        case Nil
        then show ?thesis using False new Cons.prems(4) \<open>q @ new = ev # rest\<close> by auto
      next
        case (Cons x xs)
        then show ?thesis using \<open>q @ new = ev # rest\<close> Cons.prems(5) by simp
      qed
      have "\<exists>vs. ok s' \<and> log s' = log s1 @ vs \<and> in_order time content (time ev) deadline (map content rest @ vs) evs'"
      proof (cases "?n < deadline")
        case True
        then have "queue_loop wake deadline ds (wait_limit deadline ?n) ?n rest s1 = (evs', s')"
          using r by (simp add: generate_def)
        moreover have "\<forall>x\<in>set rest. time x < deadline + 1000000" using o(1) True by (auto simp: queue_ok_def)
        moreover have "wait_limit deadline ?n \<le> deadline + 1000000" using True by (simp add: wait_limit_def)
        ultimately show ?thesis using Cons.IH [OF s1(1) o(1,3)] by blast
      next
        case False
        then show ?thesis using r s1(1) by (auto simp: generate_def)
      qed
      then obtain vs where "ok s'" "log s' = log s1 @ vs"
        "in_order time content (time ev) deadline (map content rest @ vs) evs'" by blast
      then show ?thesis
        using \<open>q @ new = ev # rest\<close> o(2) lt evs by (intro go [of vs]) (auto simp: in_order_def)
    qed
  qed
qed simp

lemma generate_in_order:
  assumes "ok s" "\<forall>ev\<in>set q. time ev = now" "generate wake deadline ds now q s = (evs, s')"
  shows "ok s' \<and> (\<exists>vs. log s' = log s @ vs \<and> in_order time content now deadline (map content q @ vs) evs)"
proof (cases "now < deadline")
  case True
  have "map time q = replicate (length q) now" using assms(2) by (induction q) auto
  then have "queue_ok time now now q" using assms(2) by (simp add: queue_ok_def)
  then show ?thesis
    using loop_in_order [OF assms(1), of now now q "wait_limit deadline now" deadline ds evs s'] assms(2,3) True
    by (simp add: generate_def wait_limit_def)
qed (use assms in \<open>simp add: generate_def\<close>)

text \<open>A whole generator: its start has put \<open>q\<close> into the queue, and its end may add to the log.\<close>

lemma window_in_order:
  assumes "ok s1" "log s1 = l0 @ map content q" "\<forall>ev\<in>set q. time ev = now"
    and "generate wake deadline ds now q s1 = (evs, s2)" and "ok s2 \<Longrightarrow> \<exists>ws. l3 = log s2 @ ws"
  shows "ok s2 \<and> (\<exists>vs. l3 = l0 @ vs \<and> in_order time content now deadline vs evs)"
proof -
  from generate_in_order [OF assms(1,3,4)] obtain vs where
    vs: "ok s2" "log s2 = log s1 @ vs" "in_order time content now deadline (map content q @ vs) evs" by blast
  obtain ws where "l3 = log s2 @ ws" using assms(5) [OF vs(1)] by blast
  then have "l3 = l0 @ ((map content q @ vs) @ ws)" using vs(2) assms(2) by simp
  then show ?thesis using vs(1) in_order_more [OF vs(3)] by blast
qed

end

section \<open>Notifications\<close>

text \<open>The values with which the callback has been called, and those of the calls between two states of
  the client.\<close>

definition cb_log :: "'h \<Rightarrow> ('t, 'h) att \<Rightarrow> bytes list" where
  "cb_log cb a = map snd (filter (\<lambda>(h, v). h = cb) (a_notified a))"

definition stamp :: "int \<Rightarrow> bytes list \<Rightarrow> notify_event list" where
  "stamp now vs = map (\<lambda>v. \<lparr>ne_t_ns = now, ne_value = v\<rparr>) vs"

definition received :: "int \<Rightarrow> 'h \<Rightarrow> ('t, 'h) att \<Rightarrow> ('t, 'h) att \<Rightarrow> notify_event list" where
  "received now cb a a' = stamp now (drop (length (cb_log cb a)) (cb_log cb a'))"

definition notify_wake :: "'t transport \<Rightarrow> 'h \<Rightarrow> int \<Rightarrow> ('t, 'h) att \<Rightarrow> notify_event list \<times> ('t, 'h) att" where
  "notify_wake T cb now a = (let a' = att_idle T a in (received now cb a a', a'))"

definition notify_iter ::
  "'t transport \<Rightarrow> 'h \<Rightarrow> int \<Rightarrow> int \<Rightarrow> int \<Rightarrow> int \<Rightarrow> nat list \<Rightarrow> (('t, 'h) att, notify_event list) sx"
where
  "notify_iter T cb vh cccd duration now ds a =
     (let a1 = set_notify_handler vh cb a
      in case write_value T cccd [0x01, 0x00] a1 of
           (Inl e, a2) \<Rightarrow> (Inl e, a2)
         | (Inr _, a2) \<Rightarrow>
             (let (evs, a3) = generate (notify_wake T cb) (now + duration) ds now (received now cb a1 a2) a2;
                  (_, a4) = write_value T cccd [0x00, 0x00] a3
              in (Inr evs, remove_notify_handler vh a4)))"

text \<open>Nothing takes a delivered value back.\<close>

definition log_extends :: "('t, 'h) att \<Rightarrow> ('t, 'h) att \<Rightarrow> bool" where
  "log_extends a b \<longleftrightarrow> quiet b \<and> prefix (a_notified a) (a_notified b)"

lemma log_extends_idle: "quiet a \<Longrightarrow> log_extends a (att_idle T a)"
proof -
  assume q: "quiet a"
  obtain us t where t: "trecv T (a_l2 a) = (us, t)" by (cases "trecv T (a_l2 a)")
  have "a_tasks (a\<lparr>a_l2 := t\<rparr>) = []" using q by (simp add: quiet_def)
  from deliver_all_effects [OF this, of T us] q t deliver_all_idle [of "a\<lparr>a_l2 := t\<rparr>" T us] show ?thesis
    by (simp add: att_idle_def log_extends_def quiet_def)
qed

lemma log_extends_request: "quiet a \<Longrightarrow> log_extends a (snd (request T p op a))"
proof -
  assume q: "quiet a"
  obtain r t where s: "tsend T p (a_l2 a) = (r, t)" by (cases "tsend T p (a_l2 a)")
  obtain us t' where v: "trecv T t = (us, t')" by (cases "trecv T t")
  show ?thesis
  proof (cases r)
    case (Inl e)
    with s q show ?thesis
      by (simp add: request_def begin_request_def end_request_def log_extends_def quiet_def)
  next
    case (Inr u)
    with s have "tsend T p (a_l2 a) = (Inr (), t)" by simp
    from request_full [OF q this v] q show ?thesis by (simp add: log_extends_def quiet_def)
  qed
qed

lemma log_extends_write: "quiet a \<Longrightarrow> log_extends a (snd (write_value T h v a))"
  using log_extends_request [of a T _ WRITE_RSP]
  by (auto simp: write_value_def log_extends_def split: sum.split prod.split) (metis snd_conv)+

lemma cb_log_extends: "log_extends a b \<Longrightarrow> \<exists>vs. cb_log cb b = cb_log cb a @ vs"
  by (auto simp: log_extends_def prefix_def cb_log_def)

lemma cb_log_handlers [simp]:
  "cb_log cb (set_notify_handler h x a) = cb_log cb a" "cb_log cb (remove_notify_handler h a) = cb_log cb a"
  by (simp_all add: cb_log_def set_notify_handler_def remove_notify_handler_def)

lemma received_log:
  assumes "log_extends a b"
  shows "cb_log cb b = cb_log cb a @ map ne_value (received now cb a b)"
    and "\<forall>ev\<in>set (received now cb a b). ne_t_ns ev = now"
  using cb_log_extends [OF assms, of cb] by (auto simp: received_def stamp_def comp_def)

interpretation notifications: event_source "notify_wake T cb" ne_t_ns ne_value quiet "cb_log cb"
  for T :: "'t transport" and cb :: 'h
proof
  fix now evs and s s' :: "('t, 'h) att"
  assume "quiet s" and w: "notify_wake T cb now s = (evs, s')"
  then have x: "log_extends s s'" "evs = received now cb s s'"
    using log_extends_idle [of s T] by (auto simp: notify_wake_def Let_def)
  then show "quiet s' \<and> cb_log cb s' = cb_log cb s @ map ne_value evs \<and> (\<forall>ev\<in>set evs. ne_t_ns ev = now)"
    using received_log [OF x(1)] by (simp add: log_extends_def)
qed



end
