(* ===== verification/Bench_Micro.thy ===== *)
theory Bench_Micro
  imports Fake_Peripheral Bench_Events
begin

text \<open>
  \<open>bench/stacks/micro_fake.py\<close>: the stack that drives the ATT client over the in-memory peripheral.
  A session is the record \<open>session\<close> of theory \<open>Bench_Events\<close> with the peripheral as its transport.
\<close>

section \<open>The micro stack\<close>

definition first_handle :: "(gatt_descriptor \<Rightarrow> bool) \<Rightarrow> gatt_descriptor list \<Rightarrow> int option" where
  "first_handle P ds = map_option d_handle (find P ds)"

definition micro_chars :: "gatt_service list \<Rightarrow> char_table" where
  "micro_chars services =
     fold (\<lambda>ch m. m(c_uuid ch \<mapsto>
             (c_value_handle ch,
              first_handle (\<lambda>d. suffix ''2902-0000-1000-8000-00805f9b34fb'' (d_uuid d)) (c_descriptors ch))))
       (concat (map s_characteristics services)) Map.empty"

definition micro_setup :: "nat \<Rightarrow> int \<Rightarrow> (nat \<times> nat) list \<Rightarrow> (fake, 'h) session result" where
  "micro_setup payload_size notify_rate_hz schedule =
     (let peripheral = (fake_init payload_size schedule)\<lparr>fp_notify_payload := pattern payload_size\<rparr>;
          att0 = att_init (fake_start_reader peripheral);
          (r, att1) = sx_bind (exchange_mtu fake_transport PREFERRED_MTU) (\<lambda>_. discover fake_transport) att0
      in rbind r (\<lambda>services.
           Inr \<lparr>ss_att = att1\<lparr>a_l2 := start_notify_pump notify_rate_hz (a_l2 att1)\<rparr>,
                ss_chars = micro_chars services\<rparr>))"

definition micro_teardown :: "(fake, 'h) session \<Rightarrow> (fake, 'h) session" where
  "micro_teardown h = h\<lparr>ss_att := (ss_att h)\<lparr>a_l2 := fake_close (a_l2 (ss_att h))\<rparr>\<rparr>"

definition micro_vh :: "string \<Rightarrow> (fake, 'h) session \<Rightarrow> int result" where
  "micro_vh uuid h = (case ss_chars h uuid of None \<Rightarrow> Inl KeyError | Some (vh, _) \<Rightarrow> Inr vh)"

definition micro_cccd :: "string \<Rightarrow> (fake, 'h) session \<Rightarrow> int option result" where
  "micro_cccd uuid h = (case ss_chars h uuid of None \<Rightarrow> Inl KeyError | Some (_, cccd) \<Rightarrow> Inr cccd)"

definition micro_read :: "string \<Rightarrow> ((fake, 'h) session, bytes) sx" where
  "micro_read uuid h =
     (case micro_vh uuid h of
        Inl e \<Rightarrow> (Inl e, h) | Inr vh \<Rightarrow> in_session (read_value fake_transport vh) h)"

definition micro_write :: "string \<Rightarrow> bytes \<Rightarrow> ((fake, 'h) session, unit) sx" where
  "micro_write uuid data h =
     (case micro_vh uuid h of
        Inl e \<Rightarrow> (Inl e, h) | Inr vh \<Rightarrow> in_session (write_value fake_transport vh data) h)"

definition micro_notify ::
  "'h \<Rightarrow> string \<Rightarrow> int \<Rightarrow> int \<Rightarrow> nat list \<Rightarrow> ((fake, 'h) session, notify_event list) sx" where
  "micro_notify cb uuid duration now ds h =
     (case micro_cccd uuid h of
        Inl e \<Rightarrow> (Inl e, h)
      | Inr None \<Rightarrow> (Inl RuntimeError, h)
      | Inr (Some cccd) \<Rightarrow>
          (case micro_vh uuid h of
             Inl e \<Rightarrow> (Inl e, h)
           | Inr vh \<Rightarrow> in_session (notify_iter fake_transport cb vh cccd duration now ds) h))"

text \<open>\<open>scan_iter\<close>: synthetic adverts.  A turn of the loop is given by its two readings of the clock;
  the generator ends with the turn whose first reading is past the deadline.\<close>

fun micro_scan :: "int \<Rightarrow> (int \<times> int) list \<Rightarrow> advert_event list" where
  "micro_scan deadline [] = []"
| "micro_scan deadline ((t1, t2) # ts) =
     (if t1 < deadline
      then \<lparr>ae_t_ns = t2, ae_address = ''00:00:00:00:00:01'', ae_rssi = Some (- 50),
            ae_name = Some (map (\<lambda>c. int (of_char c)) ''fake'')\<rparr> # micro_scan deadline ts
      else [])"

section \<open>A micro session\<close>

definition MICRO_READ :: string where "MICRO_READ = ''0000fbe1-0000-1000-8000-00805f9b34fb''"
definition MICRO_WRITE :: string where "MICRO_WRITE = ''0000fbe2-0000-1000-8000-00805f9b34fb''"
definition MICRO_NOTIFY :: string where "MICRO_NOTIFY = ''0000fbe3-0000-1000-8000-00805f9b34fb''"

lemmas micro_uuids = MICRO_READ_def MICRO_WRITE_def MICRO_NOTIFY_def

lemma micro_uuid_texts:
  "uuid_text (le_bytes 2 CHR_READ_UUID16) = MICRO_READ"
  "uuid_text (le_bytes 2 CHR_WRITE_UUID16) = MICRO_WRITE"
  "uuid_text (le_bytes 2 CHR_NOTIFY_UUID16) = MICRO_NOTIFY"
  "uuid_text (le_bytes 2 CCCD_UUID16) = ''00002902-0000-1000-8000-00805f9b34fb''"
  by code_simp+

lemma micro_chars_fake:
  "micro_chars (map service_tree fake_db) =
     [MICRO_READ \<mapsto> (H_READ_VAL, None), MICRO_WRITE \<mapsto> (H_WRITE_VAL, None),
      MICRO_NOTIFY \<mapsto> (H_NOTIFY_VAL, Some H_NOTIFY_CCCD)]"
  by (simp add: micro_chars_def service_tree_def fake_db_def char_tree_def first_handle_def
      micro_uuid_texts suffix_def)

lemma mtu_fake:
  fixes s :: "(fake, 'h) att"
  assumes "quiet s" "fake_calm (a_l2 s)"
  shows "exchange_mtu fake_transport PREFERRED_MTU s = (Inr 247, s\<lparr>a_peer_initiated_mtu := False, a_mtu := 247,
    a_l2 := (a_l2 s)\<lparr>fp_schedule := tl (fp_schedule (a_l2 s))\<rparr>\<rparr>)"
proof -
  let ?s = "s\<lparr>a_peer_initiated_mtu := False\<rparr>" and ?r = "op_byte EXCHANGE_MTU_RSP # le_bytes 2 247"
  have l: "to_le 2 PREFERRED_MTU = Inr (le_bytes 2 247)" by (simp add: to_le_def att_mtus)
  have "quiet ?s" using assms(1) by (simp add: quiet_def)
  moreover have "fp_handle (op_byte EXCHANGE_MTU_REQ # le_bytes 2 247) (a_l2 ?s) = (Inr (Some ?r), a_l2 ?s)"
    by (simp add: fp_handle_def) (simp add: att_opcodes)
  moreover have "opcode_of ?r \<in> {EXCHANGE_MTU_RSP, ERROR_RSP}" "response_opcode EXCHANGE_MTU_RSP"
    by (simp_all add: response_opcode_def att_opcodes)
  ultimately have "request fake_transport (op_byte EXCHANGE_MTU_REQ # le_bytes 2 247) EXCHANGE_MTU_RSP ?s
      = (decode_response EXCHANGE_MTU_RSP ?r, ?s\<lparr>a_l2 := (a_l2 s)\<lparr>fp_schedule := tl (fp_schedule (a_l2 s))\<rparr>\<rparr>)"
    using assms(2) calm_request [of ?s "a_l2 ?s"] by simp
  moreover have "decode_response EXCHANGE_MTU_RSP ?r = Inr ?r"
    by (simp add: decode_response_def att_opcodes)
  moreover have "from_le (slice 1 3 ?r) = 247" by (simp add: slice_def numeral_3_eq_3)
  ultimately show ?thesis by (simp add: exchange_mtu_def l Let_def) (simp add: att_mtus)
qed

text \<open>The session that setting up gives: a connected client with the MTU of the peripheral, the table
  of its three characteristics, and the pump running but silent.\<close>

definition micro_start :: "nat \<Rightarrow> int \<Rightarrow> (nat \<times> nat) list \<Rightarrow> (fake, 'h) session" where
  "micro_start n rate x =
     \<lparr>ss_att = (att_init ((fake_start_reader (fake_init n x))\<lparr>fp_notify_rate_hz := rate, fp_notify_task := True\<rparr>))
        \<lparr>a_mtu := 247\<rparr>,
      ss_chars = [MICRO_READ \<mapsto> (H_READ_VAL, None), MICRO_WRITE \<mapsto> (H_WRITE_VAL, None),
        MICRO_NOTIFY \<mapsto> (H_NOTIFY_VAL, Some H_NOTIFY_CCCD)]\<rparr>"

lemma micro_setup_start:
  "\<exists>x. micro_setup n rate sched = Inr (micro_start n rate x :: (fake, 'h) session)"
proof -
  let ?f = "fake_start_reader (fake_init n sched)"
  have p: "(fake_init n sched)\<lparr>fp_notify_payload := pattern n\<rparr> = fake_init n sched"
    by (simp add: fake_init_def)
  have c: "fake_calm ?f" "fp_schedule ?f = sched"
    by (simp_all add: fake_calm_def fake_ready_def fake_start_reader_def fake_init_def)
  let ?a1 = "(att_init (?f\<lparr>fp_schedule := tl sched\<rparr>))\<lparr>a_mtu := 247\<rparr> :: (fake, 'h) att"
  have m: "exchange_mtu fake_transport PREFERRED_MTU (att_init ?f) = (Inr 247, ?a1)"
    using mtu_fake [OF quiet_init, of ?f] c by (simp add: att_init_def)
  have "quiet ?a1" "fake_calm (a_l2 ?a1)" using c by (simp_all add: quiet_def att_init_def)
  from discovery_calm [OF this] obtain x where
    d: "discover fake_transport ?a1 = (Inr (map service_tree fake_db), ?a1\<lparr>a_l2 := ?f\<lparr>fp_schedule := x\<rparr>\<rparr>)"
    by (auto simp: att_init_def)
  have b: "sx_bind (exchange_mtu fake_transport PREFERRED_MTU) (\<lambda>_. discover fake_transport) (att_init ?f :: (fake, 'h) att)
      = (Inr (map service_tree fake_db), ?a1\<lparr>a_l2 := ?f\<lparr>fp_schedule := x\<rparr>\<rparr>)"
    by (simp only: sx_bind_def m d prod.case sum.case)
  have "micro_setup n rate sched = Inr (micro_start n rate x :: (fake, 'h) session)"
    unfolding micro_setup_def Let_def p b by (simp add: micro_chars_fake micro_start_def start_notify_pump_def)
      (simp add: att_init_def fake_start_reader_def fake_init_def)
  then show ?thesis by blast
qed

text \<open>What holds of a session that is not subscribed: nothing but responses arrives.\<close>

definition micro_ok :: "nat \<Rightarrow> (fake, 'h) session \<Rightarrow> bool" where
  "micro_ok n h \<longleftrightarrow> quiet (ss_att h) \<and> fake_calm (a_l2 (ss_att h)) \<and> a_mtu (ss_att h) = 247
     \<and> fp_read_value (a_l2 (ss_att h)) = pattern n
     \<and> ss_chars h = [MICRO_READ \<mapsto> (H_READ_VAL, None), MICRO_WRITE \<mapsto> (H_WRITE_VAL, None),
        MICRO_NOTIFY \<mapsto> (H_NOTIFY_VAL, Some H_NOTIFY_CCCD)]"

lemma micro_start_ok: "micro_ok n (micro_start n rate x)"
  unfolding micro_ok_def fake_calm_def fake_ready_def
  by (simp add: micro_start_def att_init_def quiet_def fake_start_reader_def fake_init_def)

lemma H_bytes: "to_le 2 H_READ_VAL = Inr (le_bytes 2 3)" "to_le 2 H_WRITE_VAL = Inr (le_bytes 2 5)"
  "to_le 2 H_NOTIFY_CCCD = Inr (le_bytes 2 8)"
  by (simp_all add: to_le_def fake_consts)

text \<open>A read of the characteristic in a calm, from its first PDU on.\<close>

lemma fake_read_first:
  assumes "quiet s" "fake_calm (a_l2 s)"
  shows "request fake_transport (op_byte READ_REQ # le_bytes 2 3) READ_RSP s
    = (Inr (op_byte READ_RSP # fp_read_value (a_l2 s)), s\<lparr>a_l2 := (a_l2 s)\<lparr>fp_schedule := tl (fp_schedule (a_l2 s))\<rparr>\<rparr>)"
proof -
  let ?r = "op_byte READ_RSP # fp_read_value (a_l2 s)"
  have "unpack_le 2 1 (op_byte READ_REQ # le_bytes 2 3) = Inr 3" using unpack_pdu(1) [of 3 _ "[]"] by simp
  then have "fp_handle (op_byte READ_REQ # le_bytes 2 3) (a_l2 s) = (Inr (Some ?r), a_l2 s)"
    by (simp add: fp_handle_def Let_def fp_read_def fake_consts) (simp add: att_opcodes)
  from calm_request [OF assms this] show ?thesis by simp
qed

lemma fake_blob_refused:
  assumes "quiet s" "fake_calm (a_l2 s)" "n < 65536"
  shows "fst (read_blob fake_transport H_READ_VAL n s) = Inl (ATTError READ_BLOB_REQ 0 ATT_ERR_INVALID_HANDLE)"
proof -
  let ?p = "op_byte READ_BLOB_REQ # le_bytes 2 3 @ le_bytes 2 (int n)"
  let ?r = "fp_err READ_BLOB_REQ 0 ATT_ERR_INVALID_HANDLE"
  have b: "to_le 2 (int n) = Inr (le_bytes 2 (int n))" using assms(3) by (simp add: to_le_def)
  have "fp_handle ?p (a_l2 s) = (Inr (Some ?r), a_l2 s)"
    by (simp add: fp_handle_def Let_def) (simp add: att_opcodes)
  from calm_request [OF assms(1,2) this, of READ_BLOB_RSP]
  have "fst (request fake_transport ?p READ_BLOB_RSP s) = decode_response READ_BLOB_RSP ?r" by simp
  also have "\<dots> = Inl (ATTError READ_BLOB_REQ 0 ATT_ERR_INVALID_HANDLE)"
    by (rule fp_err_decode) (simp_all add: att_opcodes att_errors)
  finally show ?thesis
    by (cases "request fake_transport ?p READ_BLOB_RSP s") (simp add: read_blob_def H_bytes b att_errors)
qed

text \<open>Writes, as the peripheral handles them.\<close>

lemma fake_write_handled:
  assumes "0 \<le> h" "h \<le> 0xFFFF" "fp_write WRITE_REQ h d f = ([op_byte WRITE_RSP], f')"
  shows "fp_handle (op_byte WRITE_REQ # le_bytes 2 h @ d) f = (Inr (Some [op_byte WRITE_RSP]), f')"
proof -
  have u: "unpack_le 2 1 (op_byte WRITE_REQ # le_bytes 2 h @ d) = Inr h"
    using assms(1,2) by (rule unpack_pdu(1))
  have d: "drop 3 (op_byte WRITE_REQ # le_bytes 2 h @ d) = d" by (simp add: numeral_3_eq_3)
  have "(if WRITE_REQ = EXCHANGE_MTU_REQ then x1 else if WRITE_REQ = READ_BY_GROUP_TYPE_REQ then x2
    else if WRITE_REQ = READ_BY_TYPE_REQ then x3 else if WRITE_REQ = FIND_INFO_REQ then x4
    else if WRITE_REQ = READ_REQ then x5 else if WRITE_REQ = WRITE_REQ then x6 else x7) = x6"
    for x1 x2 x3 x4 x5 x6 x7 :: 'b by (simp add: att_opcodes)
  then show ?thesis
    unfolding fp_handle_def u d assms(3) Let_def py_get_simps request_op sum.case prod.case .
qed

lemma fp_writes_to:
  "fp_write op 5 d f = ([op_byte WRITE_RSP], f\<lparr>fp_last_written := Some d, fp_writes := fp_writes f @ [(5, d)]\<rparr>)"
  "fp_write op 8 d f = ([op_byte WRITE_RSP], f\<lparr>fp_notify_enabled := (take 2 d = [1, 0])\<rparr>)"
  unfolding fp_write_def H_NOTIFY_CCCD_def H_WRITE_VAL_def by simp_all

lemma write_rsp_ok: "decode_response WRITE_RSP [op_byte WRITE_RSP] = Inr [op_byte WRITE_RSP]"
  by (simp add: decode_response_def att_opcodes)

lemma micro_handles:
  assumes "micro_ok n h"
  shows "micro_vh MICRO_READ h = Inr H_READ_VAL" "micro_vh MICRO_WRITE h = Inr H_WRITE_VAL"
    "micro_vh MICRO_NOTIFY h = Inr H_NOTIFY_VAL" "micro_cccd MICRO_NOTIFY h = Inr (Some H_NOTIFY_CCCD)"
  using assms by (simp_all add: micro_vh_def micro_cccd_def micro_ok_def micro_uuids)

lemma micro_read_ok:
  fixes h :: "(fake, 'h) session"
  assumes "micro_ok n h"
  shows "fst (micro_read MICRO_READ h) =
        (if n \<le> 245 then Inr (pattern n)
         else if n < 65536 then Inl (ATTError READ_BLOB_REQ 0 ATT_ERR_INVALID_HANDLE)
         else Inl OverflowError)"
    and "n \<le> 245 \<Longrightarrow> micro_ok n (snd (micro_read MICRO_READ h))"
proof -
  let ?s = "ss_att h"
  let ?s1 = "?s\<lparr>a_l2 := (a_l2 ?s)\<lparr>fp_schedule := tl (fp_schedule (a_l2 ?s))\<rparr>\<rparr>"
  have calm: "quiet ?s" "fake_calm (a_l2 ?s)" "fp_read_value (a_l2 ?s) = pattern n" "a_mtu ?s = 247"
    using assms by (simp_all add: micro_ok_def)
  have len: "length (pattern n) = n" by (simp add: pattern_def)
  have s1: "quiet ?s1" "fake_calm (a_l2 ?s1)" using calm(1,2) by (simp_all add: quiet_def)
  have r: "read_value fake_transport H_READ_VAL ?s = read_loop fake_transport H_READ_VAL 247 (pattern n) ?s1"
    using fake_read_first [OF calm(1,2)] calm(3,4) by (simp add: read_value_def H_bytes)
  have small: "read_loop fake_transport H_READ_VAL 247 (pattern n) ?s1 = (Inr (pattern n), ?s1)" if "n \<le> 245"
    using that by (simp add: read_loop.simps len)
  have "fst (read_loop fake_transport H_READ_VAL 247 (pattern n) ?s1) = (if n < 65536
      then Inl (ATTError READ_BLOB_REQ 0 ATT_ERR_INVALID_HANDLE) else Inl OverflowError)" if "\<not> n \<le> 245"
  proof -
    have "fst (read_blob fake_transport H_READ_VAL n ?s1) = (if n < 65536
        then Inl (ATTError READ_BLOB_REQ 0 ATT_ERR_INVALID_HANDLE) else Inl OverflowError)"
    proof (cases "n < 65536")
      case True
      then show ?thesis using fake_blob_refused [OF s1 True] by (simp only: if_True)
    next
      case False
      then have "to_le 2 (int n) = Inl OverflowError" by (simp add: to_le_def)
      then show ?thesis using False by (simp add: read_blob_def H_bytes)
    qed
    moreover obtain x s2 where "read_blob fake_transport H_READ_VAL n ?s1 = (x, s2)" by fastforce
    ultimately show ?thesis using that by (subst read_loop.simps) (simp add: len)
  qed
  with r small show "fst (micro_read MICRO_READ h) =
        (if n \<le> 245 then Inr (pattern n)
         else if n < 65536 then Inl (ATTError READ_BLOB_REQ 0 ATT_ERR_INVALID_HANDLE)
         else Inl OverflowError)"
    by (simp add: micro_read_def micro_handles [OF assms] in_session_def split_beta)
  show "micro_ok n (snd (micro_read MICRO_READ h))" if "n \<le> 245"
    using small [OF that] r assms s1
    by (simp add: micro_read_def micro_handles [OF assms] in_session_def micro_ok_def)
qed

lemma micro_write_ok:
  fixes h :: "(fake, 'h) session"
  assumes "micro_ok n h"
  shows "fst (micro_write MICRO_WRITE d h) = Inr ()"
    and "fp_last_written (a_l2 (ss_att (snd (micro_write MICRO_WRITE d h)))) = Some d"
    and "micro_ok n (snd (micro_write MICRO_WRITE d h))"
proof -
  let ?s = "ss_att h"
  have calm: "quiet ?s" "fake_calm (a_l2 ?s)" using assms by (simp_all add: micro_ok_def)
  let ?f = "(a_l2 ?s)\<lparr>fp_last_written := Some d, fp_writes := fp_writes (a_l2 ?s) @ [(5, d)]\<rparr>"
  let ?s' = "?s\<lparr>a_l2 := ?f\<lparr>fp_schedule := tl (fp_schedule (a_l2 ?s))\<rparr>\<rparr>"
  have f: "fp_handle (op_byte WRITE_REQ # le_bytes 2 5 @ d) (a_l2 ?s) = (Inr (Some [op_byte WRITE_RSP]), ?f)"
    by (rule fake_write_handled [OF _ _ fp_writes_to(1)]) simp_all
  have c: "fake_calm ?f" using calm(2) unfolding fake_calm_def fake_ready_def by simp
  have o: "opcode_of [op_byte WRITE_RSP] \<in> {WRITE_RSP, ERROR_RSP}" by (simp add: opcode_of_def att_opcodes)
  have "write_value fake_transport H_WRITE_VAL d ?s = (Inr (), ?s')"
    unfolding write_value_def H_bytes sum.case Let_def calm_request [OF calm(1) c f o response_opcodes(3)]
      write_rsp_ok by simp
  then have w: "micro_write MICRO_WRITE d h = (Inr (), h\<lparr>ss_att := ?s'\<rparr>)"
    by (simp add: micro_write_def micro_handles [OF assms] in_session_def)
  show "fst (micro_write MICRO_WRITE d h) = Inr ()"
    "fp_last_written (a_l2 (ss_att (snd (micro_write MICRO_WRITE d h)))) = Some d"
    by (simp_all add: w)
  show "micro_ok n (snd (micro_write MICRO_WRITE d h))"
    using assms c by (simp add: w micro_ok_def quiet_def)
qed

text \<open>C29.  A session of the micro stack: setting up always succeeds; a read returns the pattern the
  peripheral holds when it fits one PDU and otherwise fails with the error of the Read Blob request
  that the peripheral does not support; a write of any value arrives unchanged.\<close>

theorem micro_session:
  "\<exists>h :: (fake, 'h) session. micro_setup n rate sched = Inr h
    \<and> fst (micro_read MICRO_READ h) =
        (if n \<le> 245 then Inr (pattern n)
         else if n < 65536 then Inl (ATTError READ_BLOB_REQ 0 ATT_ERR_INVALID_HANDLE)
         else Inl OverflowError)
    \<and> fst (micro_write MICRO_WRITE d h) = Inr ()
    \<and> fp_last_written (a_l2 (ss_att (snd (micro_write MICRO_WRITE d h)))) = Some d"
proof -
  obtain x where x: "micro_setup n rate sched = Inr (micro_start n rate x :: (fake, 'h) session)"
    using micro_setup_start by blast
  have o: "micro_ok n (micro_start n rate x :: (fake, 'h) session)" by (rule micro_start_ok)
  show ?thesis
    using x micro_read_ok(1) [OF o] micro_write_ok(1,2) [OF o, of d] by (intro exI conjI)
qed

end
