(* ===== verification/Client_Fake.thy ===== *)
theory Client_Fake
  imports Client Bench_Micro
begin

text \<open>
  The client over the in-memory peripheral: the properties of theory \<open>Client\<close> that assume a peer,
  applied to \<open>FakePeripheral\<close>.  The client \<open>fake_client\<close> has exchanged the MTU with it.
\<close>

definition fake_client :: "nat \<Rightarrow> (fake, nat) client" where
  "fake_client n = (demo_client (fake_start_reader (fake_init n [])) True)
     \<lparr>cl_att := Some ((att_init (fake_start_reader (fake_init n [])))\<lparr>a_mtu := 247\<rparr>)\<rparr>"

lemma fake_client_att:
  "\<exists>a. cl_att (fake_client n) = Some a \<and> quiet a \<and> fake_calm (a_l2 a) \<and> a_mtu a = 247
     \<and> fp_read_value (a_l2 a) = pattern n \<and> a_disconnects a = []"
  unfolding fake_client_def fake_calm_def fake_ready_def
  by (simp add: att_init_def quiet_def fake_start_reader_def fake_init_def)

text \<open>Discovery by that client.\<close>

lemma fake_client_discovers:
  assumes "cl_att (fake_client n) = Some a" "discover_services fake_transport (fake_client n) = (r, c')"
    "cl_att c' = Some a'"
  shows "cl_connected c' \<and> a_mtu a' = 247"
proof -
  have a: "quiet a" "fake_calm (a_l2 a)" "a_mtu a = 247" using fake_client_att [of n] assms(1) by auto
  from discovery_calm [OF a(1,2)] obtain x where
    "discover fake_transport a = (Inr (map service_tree fake_db), a\<lparr>a_l2 := (a_l2 a)\<lparr>fp_schedule := x\<rparr>\<rparr>)"
    by blast
  with assms a(3) show ?thesis
    by (auto simp: discover_services_def sx_bind_def on_att_def fake_client_def demo_client_def)
qed

text \<open>The first characteristic of the peripheral is read by the handle of its declaration.\<close>

theorem discovered_characteristic_read_witness:
  "\<exists>c'. discover_services fake_transport (fake_client 20) = (Inr (), c')
    \<and> fst (read_gatt_char fake_transport (SpecOther (SpecInt H_READ_DECL)) c') = Inr (pattern 20)"
proof -
  let ?w = "hd fake_db" and ?ch = "hd (ws_characteristics (hd fake_db))"
  obtain a where a: "cl_att (fake_client 20) = Some a" "quiet a" "fake_calm (a_l2 a)"
    "fp_read_value (a_l2 a) = pattern 20"
    using fake_client_att by blast
  have h: "fake_holds (pattern (min 20 245)) (a_l2 a)"
    using a(3,4) by (simp add: fake_holds_def fake_calm_def)
  have w: "?w \<in> set fake_db" "wc_value_handle ?ch = H_READ_VAL" "wc_decl ?ch = H_READ_DECL"
    by (simp_all add: fake_db_def)
  have e: "(?ch, H_WRITE_DECL - 1) \<in> set (char_ends (ws_end ?w) (ws_characteristics ?w))"
    by (simp add: fake_db_def)
  have v: "value_server fake_transport (fake_holds (pattern (min 20 245))) (wc_value_handle ?ch)
      (pattern (min 20 245)) 247"
    using fake_value.value_server_axioms [of 20] w(2) by simp
  from discovered_characteristic_read [OF fake_gatt.gatt_server_axioms w(1) e v a(1,2) h] obtain c' a' where
    d: "discover_services fake_transport (fake_client 20) = (Inr (), c')" "cl_att c' = Some a'"
      "cl_connected c' \<and> a_mtu a' = 247 \<longrightarrow>
        fst (read_gatt_char fake_transport (SpecOther (SpecInt (wc_decl ?ch))) c') = Inr (pattern (min 20 245))"
    by blast
  with fake_client_discovers [OF a(1) d(1,2)] w(3) show ?thesis by auto
qed


text \<open>The notify characteristic of the peripheral and a client of a peripheral whose pump is running:
  it does three rounds between the start of the subscription and the pause of the owner.\<close>

definition notify_char :: bleak_characteristic where
  "notify_char = \<lparr>bc_handle = 6, bc_value_handle = 7, bc_uuid = ''0000fbe3-0000-1000-8000-00805f9b34fb'',
     bc_properties = [''notify''], bc_service_uuid = ''0000fbe0-0000-1000-8000-00805f9b34fb'',
     bc_descriptors = [\<lparr>bd_handle = 8, bd_uuid = CCCD_UUID, bd_characteristic_uuid = []\<rparr>]\<rparr>"

definition pumping :: "bool \<Rightarrow> (nat \<times> nat) list \<Rightarrow> fake" where
  "pumping b xs = (fake_init 2 xs)
     \<lparr>fp_reader := True, fp_notify_rate_hz := 50, fp_notify_task := True, fp_notify_enabled := b\<rparr>"

lemma pumping_subscribe:
  "fake_send (op_byte WRITE_REQ # le_bytes 2 8 @ [1, 0]) (pumping False xs) =
     (Inr (), (pumping True xs)\<lparr>fp_queue := [[op_byte WRITE_RSP]]\<rparr>)"
  "fake_recv ((pumping True ((0, 0) # xs))\<lparr>fp_queue := [[op_byte WRITE_RSP]]\<rparr>) =
     ([OnData [op_byte WRITE_RSP]], pumping True xs)"
  "fake_recv (pumping True ((2, 1) # xs)) =
     (map (\<lambda>v. OnData (op_byte HANDLE_VALUE_NTF # le_bytes 2 7 @ v)) (replicate 3 (pattern 2)), pumping True xs)"
proof -
  have "fp_handle (op_byte WRITE_REQ # le_bytes 2 8 @ [1, 0]) (pumping False xs) =
      (Inr (Some [op_byte WRITE_RSP]), pumping True xs)"
    by (rule fake_write_handled) (simp_all add: fp_writes_to pumping_def)
  then show "fake_send (op_byte WRITE_REQ # le_bytes 2 8 @ [1, 0]) (pumping False xs) =
     (Inr (), (pumping True xs)\<lparr>fp_queue := [[op_byte WRITE_RSP]]\<rparr>)"
    by (simp add: fake_send_def pumping_def fake_init_def)
  show "fake_recv ((pumping True ((0, 0) # xs))\<lparr>fp_queue := [[op_byte WRITE_RSP]]\<rparr>) =
     ([OnData [op_byte WRITE_RSP]], pumping True xs)"
    by (simp add: fake_recv_def pumping_def fake_init_def)
  show "fake_recv (pumping True ((2, 1) # xs)) =
     (map (\<lambda>v. OnData (op_byte HANDLE_VALUE_NTF # le_bytes 2 7 @ v)) (replicate 3 (pattern 2)), pumping True xs)"
    by (simp add: fake_recv_def pumping_def fake_init_def pump_round_def H_NOTIFY_VAL_def numeral_eq_Suc)
qed


end
