(* ===== verification/Bench_Raw.thy ===== *)
theory Bench_Raw
  imports Connect Bench_Events
begin

text \<open>
  \<open>bench/stacks/raw_l2cap.py\<close>: the stack over the package's sockets, without the client and scanner
  classes.  The world is the record \<open>net\<close> of theory \<open>Connect\<close>; the attempts to connect are the same
  loop there.
\<close>

definition raw_stack_new :: "hci_env \<Rightarrow> string option \<Rightarrow> int result" where
  "raw_stack_new env adapter = adapter_index env adapter"


section \<open>Scanning\<close>

text \<open>The queue that \<open>on_found\<close> fills, without the times, and the events made of a part of it.\<close>

record raw_scan =
  rs_index :: int
  rs_found :: "device_found list"

definition raw_found :: "int \<Rightarrow> device_found \<Rightarrow> (raw_scan, unit) sx" where
  "raw_found index df s =
     (Inr (), if index \<noteq> rs_index s then s
              else if df_address_type df \<notin> {1, 2} then s
              else s\<lparr>rs_found := rs_found s @ [df]\<rparr>)"

abbreviation raw_run :: "unit \<Rightarrow> int \<Rightarrow> device_found \<Rightarrow> (raw_scan, unit) sx" where
  "raw_run \<equiv> \<lambda>_. raw_found"

definition raw_event :: "int \<Rightarrow> device_found \<Rightarrow> advert_event" where
  "raw_event now df =
     \<lparr>ae_t_ns = now, ae_address = df_address df, ae_rssi = Some (df_rssi df), ae_name = eir_name (df_eir df)\<rparr>"

definition raw_new :: "int \<Rightarrow> raw_scan \<Rightarrow> raw_scan \<Rightarrow> advert_event list" where
  "raw_new now s s' = map (raw_event now) (drop (length (rs_found s)) (rs_found s'))"

definition raw_wake :: "'q peer \<Rightarrow> int \<Rightarrow> unit mgmt \<times> raw_scan \<times> 'q
    \<Rightarrow> advert_event list \<times> (unit mgmt \<times> raw_scan \<times> 'q)" where
  "raw_wake Q now st =
     (case st of (m, s, q) \<Rightarrow>
        let (rs, q') = peer_recv Q q; (m', s') = mgmt_pump raw_run rs (m, s)
        in (raw_new now s s', (m', s', q')))"

text \<open>The events given out, how the generator ends, and the socket.  When \<open>start_discovery\<close> raises,
  the socket has not been closed.\<close>

definition raw_scan_iter ::
  "mgmt_kernel \<Rightarrow> 'q peer \<Rightarrow> int \<Rightarrow> int \<Rightarrow> int \<Rightarrow> nat list \<Rightarrow> 'q
   \<Rightarrow> advert_event list \<times> unit result \<times> (unit mgmt \<times> raw_scan \<times> 'q) option" where
  "raw_scan_iter k Q index duration now ds q =
     (case mgmt_open k of
        Inl e \<Rightarrow> ([], Inl e, None)
      | Inr m \<Rightarrow>
          let s0 = \<lparr>rs_index = index, rs_found = []\<rparr>
          in case start_discovery Q raw_run index (add_device_found_handler () m, s0, q) of
               (Inl e, st) \<Rightarrow> ([], Inl e, Some st)
             | (Inr _, (m1, s1, q1)) \<Rightarrow>
                 (let (evs, st2) = generate (raw_wake Q) (now + duration) ds now (raw_new now s0 s1) (m1, s1, q1);
                      (r, (m3, s3, q3)) = stop_discovery Q raw_run index st2
                  in (evs, r, Some (mgmt_close m3, s3, q3))))"


section \<open>Setting up a session\<close>

definition RAW_TIMEOUT :: int where "RAW_TIMEOUT = 10000000000"
definition RAW_PRESCAN_STEPS :: nat where "RAW_PRESCAN_STEPS = 25"

text \<open>The scan before the connection.  \<open>seen_type\<close> is read after the socket has been closed, so
  reports that arrive while discovery is being stopped count.\<close>

definition raw_prescan :: "mgmt_kernel \<Rightarrow> 'q peer \<Rightarrow> int \<Rightarrow> string \<Rightarrow> ('q, int option) sx" where
  "raw_prescan k Q index target q =
     (case mgmt_open k of
        Inl e \<Rightarrow> (Inl e, q)
      | Inr m \<Rightarrow>
          (let s = \<lparr>ps_index = index, ps_target = py_upper target, ps_seen = None\<rparr>;
               (r, st1) = start_discovery Q prescan_run index (add_device_found_handler () m, s, q);
               st2 = (case r of Inl e \<Rightarrow> st1 | Inr _ \<Rightarrow> snd (prescan_wait Q RAW_PRESCAN_STEPS st1));
               (r2, (m3, s3, q3)) = stop_discovery Q prescan_run index st2
           in (rbind r2 (\<lambda>_. rbind r (\<lambda>_. Inr (ps_seen s3))), q3)))"

definition raw_peer_type :: "int option \<Rightarrow> int \<Rightarrow> int option" where
  "raw_peer_type seen address_type =
     (if seen \<in> {Some BDADDR_LE_PUBLIC, Some BDADDR_LE_RANDOM} then seen else Some address_type)"

text \<open>The table of characteristics.\<close>

fun raw_cccd :: "gatt_descriptor list \<Rightarrow> int option result" where
  "raw_cccd [] = Inr None"
| "raw_cccd (d # ds) =
     rbind (normalize_uuid_str (d_uuid d)) (\<lambda>u.
     rbind (normalize_uuid_str CCCD_UUID) (\<lambda>v. if u = v then Inr (Some (d_handle d)) else raw_cccd ds))"

fun raw_chars_from :: "gatt_characteristic list \<Rightarrow> char_table \<Rightarrow> char_table result" where
  "raw_chars_from [] m = Inr m"
| "raw_chars_from (ch # cs) m =
     rbind (raw_cccd (c_descriptors ch)) (\<lambda>cccd.
     rbind (normalize_uuid_str (c_uuid ch)) (\<lambda>u. raw_chars_from cs (m(u \<mapsto> (c_value_handle ch, cccd)))))"

definition raw_chars :: "gatt_service list \<Rightarrow> char_table result" where
  "raw_chars services = raw_chars_from (concat (map s_characteristics services)) Map.empty"

text \<open>\<open>setup_gatt\<close>: the session or what is raised, and the ATT client that has been made.\<close>

definition raw_setup ::
  "('w, 'p, 'q) net \<Rightarrow> int \<Rightarrow> string \<Rightarrow> int \<Rightarrow> int \<Rightarrow> 'w
   \<Rightarrow> (l2 \<times> 'p, 'h) session result \<times> (l2 \<times> 'p, 'h) att option" where
  "raw_setup N index target address_type now w =
     (case adapter_address (n_hci N) index of
        Inl e \<Rightarrow> (Inl e, None)
      | Inr src \<Rightarrow>
          let ((k, elapsed, q), w1) = n_prescan N w
          in case fst (raw_prescan k (n_mgmt N) index target q) of
               Inl e \<Rightarrow> (Inl e, None)
             | Inr seen \<Rightarrow>
                 let now1 = now + int elapsed
                 in case fst (connect_loop N target src (now1 + RAW_TIMEOUT) (raw_peer_type seen address_type)
                        \<lparr>t_now = now1, t_world = w1, t_last_exc = None, t_transient = False\<rparr>) of
                      Inl e \<Rightarrow> (Inl e, None)
                    | Inr None \<Rightarrow> (Inl RuntimeError, None)
                    | Inr (Some (t, _)) \<Rightarrow>
                        let (r, att) = sx_bind (exchange_mtu (l2_transport (n_l2 N)) PREFERRED_MTU)
                              (\<lambda>_. discover (l2_transport (n_l2 N))) (att_init (l2_start_reader True (fst t), snd t))
                        in (rbind r (\<lambda>services. rbind (raw_chars services) (\<lambda>chars.
                              Inr \<lparr>ss_att = att, ss_chars = chars\<rparr>)), Some att))"


section \<open>Using a session\<close>

definition raw_teardown :: "'t transport \<Rightarrow> ('t, 'h) session \<Rightarrow> ('t, 'h) session" where
  "raw_teardown T h = h\<lparr>ss_att := att_close T (ss_att h)\<rparr>"

definition raw_resolve :: "string \<Rightarrow> ('t, 'h) session \<Rightarrow> (int \<times> int option) result" where
  "raw_resolve uuid h =
     rbind (normalize_uuid_str uuid) (\<lambda>norm.
       case ss_chars h norm of None \<Rightarrow> Inl KeyError | Some ch \<Rightarrow> Inr ch)"

definition raw_read :: "'t transport \<Rightarrow> string \<Rightarrow> (('t, 'h) session, bytes) sx" where
  "raw_read T uuid h =
     (case raw_resolve uuid h of
        Inl e \<Rightarrow> (Inl e, h) | Inr (vh, _) \<Rightarrow> in_session (read_value T vh) h)"

definition raw_write :: "'t transport \<Rightarrow> string \<Rightarrow> bytes \<Rightarrow> (('t, 'h) session, unit) sx" where
  "raw_write T uuid data h =
     (case raw_resolve uuid h of
        Inl e \<Rightarrow> (Inl e, h) | Inr (vh, _) \<Rightarrow> in_session (write_value T vh data) h)"

definition raw_notify ::
  "'t transport \<Rightarrow> 'h \<Rightarrow> string \<Rightarrow> int \<Rightarrow> int \<Rightarrow> nat list \<Rightarrow> (('t, 'h) session, notify_event list) sx" where
  "raw_notify T cb uuid duration now ds h =
     (case raw_resolve uuid h of
        Inl e \<Rightarrow> (Inl e, h)
      | Inr (_, None) \<Rightarrow> (Inl RuntimeError, h)
      | Inr (vh, Some cccd) \<Rightarrow> in_session (notify_iter T cb vh cccd duration now ds) h)"

section \<open>The scan gives out what was found\<close>

text \<open>A batch of packets adds the reports of the adapter's low-energy devices, in order.\<close>

lemma raw_reports:
  "reports raw_run [u] rs s = s\<lparr>rs_found := rs_found s @
     map snd (filter (\<lambda>x. fst x = rs_index s \<and> df_address_type (snd x) \<in> {1, 2}) (List.map_filter found_of rs))\<rparr>"
proof -
  have "fold (\<lambda>(index, df) s. snd (run_handlers raw_run [u] index df s)) xs s = s\<lparr>rs_found := rs_found s @
     map snd (filter (\<lambda>x. fst x = rs_index s \<and> df_address_type (snd x) \<in> {1, 2}) xs)\<rparr>" for xs
    by (induction xs arbitrary: s) (auto simp: raw_found_def sx_bind_def)
  then show ?thesis by (simp add: reports_def)
qed

text \<open>Whatever is done with the socket, the log grows by such reports only.\<close>

definition raw_grown :: "raw_scan \<Rightarrow> raw_scan \<Rightarrow> bool" where
  "raw_grown s s' \<longleftrightarrow> rs_index s' = rs_index s
     \<and> (\<exists>dfs. rs_found s' = rs_found s @ dfs \<and> list_all (\<lambda>df. df_address_type df \<in> {1, 2}) dfs)"

lemma raw_grown_refl [simp]: "raw_grown s s"
  by (simp add: raw_grown_def)

interpretation raw_owner: mgmt_owner raw_run "raw_grown s0" for s0 :: raw_scan
proof
  fix s :: raw_scan and h :: unit and index df
  assume "raw_grown s0 s"
  then obtain dfs where "rs_index s = rs_index s0" "rs_found s = rs_found s0 @ dfs"
    "list_all (\<lambda>df. df_address_type df \<in> {1, 2}) dfs" by (auto simp: raw_grown_def)
  then show "raw_grown s0 (snd (raw_found index df s))"
    by (auto simp: raw_found_def raw_grown_def intro: exI [of _ "dfs @ [df]"])
qed

lemma raw_command_grown:
  assumes "mgmt_command Q raw_run op index params (m, s, q) = (r, (m', s', q'))"
  shows "raw_grown s s'"
  using raw_owner.command_ok [OF raw_grown_refl assms] .

lemma raw_discovery_grown:
  "start_discovery Q raw_run index (m, s, q) = (r, (m', s', q')) \<Longrightarrow> raw_grown s s'"
  "stop_discovery Q raw_run index (m, s, q) = (r', (m', s', q')) \<Longrightarrow> raw_grown s s'"
  by (auto simp: start_discovery_def stop_discovery_def sx_bind_def dest: raw_command_grown
      split: prod.splits sum.splits)

definition advert_content :: "advert_event \<Rightarrow> string \<times> int option \<times> ustr option" where
  "advert_content ev = (ae_address ev, ae_rssi ev, ae_name ev)"

definition found_content :: "device_found \<Rightarrow> string \<times> int option \<times> ustr option" where
  "found_content df = (df_address df, Some (df_rssi df), eir_name (df_eir df))"

lemma raw_new_log:
  assumes "raw_grown s s'"
  shows "map found_content (rs_found s') = map found_content (rs_found s) @ map advert_content (raw_new now s s')"
    and "\<forall>ev\<in>set (raw_new now s s'). ae_t_ns ev = now"
  using assms by (auto simp: raw_grown_def raw_new_def raw_event_def advert_content_def found_content_def comp_def)

interpretation adverts: event_source "raw_wake Q" ae_t_ns advert_content "\<lambda>st. raw_grown s0 (fst (snd st))"
    "\<lambda>st. map found_content (rs_found (fst (snd st)))"
  for Q :: "'q peer" and s0 :: raw_scan
proof
  fix now evs and st st' :: "unit mgmt \<times> raw_scan \<times> 'q"
  assume g: "raw_grown s0 (fst (snd st))" and w: "raw_wake Q now st = (evs, st')"
  obtain m s q where st: "st = (m, s, q)" by (cases st) auto
  obtain rs q' where r: "peer_recv Q q = (rs, q')" by (cases "peer_recv Q q")
  obtain m' s' where p: "mgmt_pump raw_run rs (m, s) = (m', s')" by (cases "mgmt_pump raw_run rs (m, s)")
  have st': "evs = raw_new now s s'" "st' = (m', s', q')" using w r p by (auto simp: st raw_wake_def)
  have "raw_grown s s'" using raw_owner.pump_ok [of s s rs m] p by simp
  from raw_new_log [OF this] show "raw_grown s0 (fst (snd st')) \<and> map found_content (rs_found (fst (snd st'))) =
      map found_content (rs_found (fst (snd st))) @ map advert_content evs \<and> (\<forall>ev\<in>set evs. ae_t_ns ev = now)"
    using raw_owner.pump_ok [of s0 s rs m] g p by (simp add: st st')
qed



text \<open>A kernel that answers every command at once and reports one device before the answer to the
  start, and one in the first wait.\<close>

definition found_packet :: "int \<Rightarrow> bytes" where
  "found_packet t = [0x12, 0, 0, 0, 17, 0, 0xE3, 0xE2, 0xE1, 0x8C, 0x47, 0xC8, op_byte t, 0xC4, 0, 0, 0, 0,
     3, 0, 2, 0x09, 0x41]"

definition done_packet :: "int \<Rightarrow> bytes" where
  "done_packet op = [0x01, 0, 0, 0, 3, 0, op_byte op, 0, 0]"

definition script_peer :: "recv_outcome list list peer" where
  "script_peer = \<lparr>peer_send = (\<lambda>_ p. ((0, None), p)),
     peer_recv = (\<lambda>p. case p of [] \<Rightarrow> ([], []) | rs # ps \<Rightarrow> (rs, ps))\<rparr>"

definition scan_script :: "recv_outcome list list" where
  "scan_script = [[RecvData (found_packet 1), RecvData (done_packet 0x23)], [RecvData (found_packet 0)],
     [RecvData (found_packet 2)], [RecvData (done_packet 0x24)]]"

lemma scan_script_run:
  "case raw_scan_iter \<lparr>mk_socket = None, mk_bind = 0\<rparr> script_peer 0 1000 0 [300, 400] scan_script of
     (evs, r, Some (m, s, q)) \<Rightarrow> map ae_t_ns evs = [0, 700] \<and> r = Inr () \<and> mg_closed m
   | _ \<Rightarrow> False"
  by code_simp



section \<open>A failed set-up\<close>

text \<open>When the MTU exchange or the discovery raises in \<open>setup_gatt\<close>, the connected socket stays open
  and registered with the event loop, and the caller has no handle to close it with.  (The client's
  \<open>connect\<close> disconnects in that case.)\<close>

definition stuck_net :: "(unit, unit, recv_outcome list list) net" where
  "stuck_net =
     \<lparr>n_hci = \<lparr>hci_socket_ok = False, hci_ioctl = (\<lambda>_. None), sysfs_names = None, sysfs_address = (\<lambda>_. None)\<rparr>,
      n_attempt = (\<lambda>rem w. ((\<lparr>k_socket = None, k_bind = (\<lambda>_. 0), k_connect = (\<lambda>_. 0), k_wait = None\<rparr>, 5, ()), w)),
      n_sleep = (\<lambda>w. (0, w)),
      n_prescan = (\<lambda>w. ((\<lparr>mk_socket = None, mk_bind = 0\<rparr>, 7,
        [[RecvData (done_packet 0x23)], [RecvData (found_packet 2)], [RecvData (done_packet 0x24)]]), w)),
      n_l2 = \<lparr>peer_send = (\<lambda>_ p. ((0, None), p)), peer_recv = (\<lambda>p. ([], p))\<rparr>, n_mgmt = script_peer\<rparr>"

theorem raw_setup_leaks:
  "case raw_setup stuck_net 0 demo_mac 1 0 () :: (l2 \<times> unit, nat) session result \<times> (l2 \<times> unit, nat) att option of
     (Inl e, Some a) \<Rightarrow> e = TimeoutError \<and> \<not> l2_closed (fst (a_l2 a)) \<and> l2_reader (fst (a_l2 a))
   | _ \<Rightarrow> False"
  by code_simp

end
