(* ===== verification/Bench_Lib.thy ===== *)
theory Bench_Lib
  imports Bench_Raw Scanner
begin

text \<open>
  \<open>bench/stacks/lib_bluek.py\<close>: the stack over \<open>BleakScanner\<close> and \<open>BleakClient\<close>, and its agreement
  with the raw stack.  A session is a connected client.
\<close>

section \<open>Scanning\<close>

fun lib_event :: "int \<Rightarrow> ble_device \<times> adv_data \<Rightarrow> advert_event" where
  "lib_event now (dev, adv) =
     \<lparr>ae_t_ns = now, ae_address = ble_address dev, ae_rssi = Some (adv_rssi adv),
      ae_name = (case adv_local_name adv of Some (c # cs) \<Rightarrow> Some (c # cs) | _ \<Rightarrow> ble_name dev)\<rparr>"

definition lib_new :: "int \<Rightarrow> scanner \<Rightarrow> scanner \<Rightarrow> advert_event list" where
  "lib_new now s s' = map (lib_event now) (drop (length (scn_detected s)) (scn_detected s'))"

definition lib_wake :: "'p peer \<Rightarrow> int \<Rightarrow> 'p scan_state \<Rightarrow> advert_event list \<times> 'p scan_state" where
  "lib_wake P now st = (let st' = scanner_wait P st in (lib_new now (fst (snd st)) (fst (snd st')), st'))"

definition lib_scan_iter ::
  "hci_env \<Rightarrow> string option \<Rightarrow> mgmt_kernel \<Rightarrow> 'p peer \<Rightarrow> int \<Rightarrow> int \<Rightarrow> nat list \<Rightarrow> 'p
   \<Rightarrow> advert_event list \<times> unit result \<times> 'p scan_state option" where
  "lib_scan_iter env adapter k P duration now ds p =
     (case scanner_new env adapter True of
        Inl e \<Rightarrow> ([], Inl e, None)
      | Inr s \<Rightarrow>
          (case scanner_start k P (None, s, p) of
             (Inl e, st) \<Rightarrow> ([], Inl e, Some st)
           | (Inr _, st1) \<Rightarrow>
               (let (evs, st2) = generate (lib_wake P) (now + duration) ds now (lib_new now s (fst (snd st1))) st1;
                    (r, st3) = scanner_stop P st2
                in (evs, r, Some st3))))"


section \<open>Sessions\<close>

definition LIB_TIMEOUT :: int where "LIB_TIMEOUT = 10000000000"

definition lib_setup ::
  "('w, 'p, 'q) net \<Rightarrow> string option \<Rightarrow> string \<Rightarrow> int \<Rightarrow> 'w \<Rightarrow> (l2 \<times> 'p, 'cb) client result" where
  "lib_setup N adapter target now w =
     rbind (client_new (n_hci N) target None False adapter) (\<lambda>c.
       case client_connect N LIB_TIMEOUT (c, now, w) of
         (Inl e, _) \<Rightarrow> Inl e
       | (Inr _, (c', _)) \<Rightarrow> Inr c')"

definition lib_teardown :: "'t transport \<Rightarrow> ('t, 'cb) client \<Rightarrow> ('t, 'cb) client" where
  "lib_teardown T c = snd (client_disconnect T c)"

definition lib_read :: "'t transport \<Rightarrow> string \<Rightarrow> (('t, 'cb) client, bytes) sx" where
  "lib_read T uuid = read_gatt_char T (SpecOther (SpecStr uuid))"

definition lib_write :: "'t transport \<Rightarrow> string \<Rightarrow> bytes \<Rightarrow> (('t, 'cb) client, unit) sx" where
  "lib_write T uuid data = write_gatt_char T (SpecOther (SpecStr uuid)) data True"

text \<open>The values with which the callback has been called.\<close>

definition lib_log :: "'cb \<Rightarrow> ('t, 'cb) client \<Rightarrow> bytes list" where
  "lib_log cb c =
     (case cl_att c of
        None \<Rightarrow> []
      | Some a \<Rightarrow> map snd (filter (\<lambda>((ch, k), v). k = cb) (a_notified a)))"

definition lib_received :: "int \<Rightarrow> 'cb \<Rightarrow> ('t, 'cb) client \<Rightarrow> ('t, 'cb) client \<Rightarrow> notify_event list" where
  "lib_received now cb c c' = stamp now (drop (length (lib_log cb c)) (lib_log cb c'))"

definition lib_notify_wake ::
  "'t transport \<Rightarrow> 'cb \<Rightarrow> int \<Rightarrow> ('t, 'cb) client \<Rightarrow> notify_event list \<times> ('t, 'cb) client" where
  "lib_notify_wake T cb now c = (let c' = client_idle T c in (lib_received now cb c c', c'))"

text \<open>The events given out, how the generator ends, and the client.\<close>

definition lib_notify ::
  "'t transport \<Rightarrow> 'cb \<Rightarrow> string \<Rightarrow> int \<Rightarrow> int \<Rightarrow> nat list \<Rightarrow> ('t, 'cb) client
   \<Rightarrow> notify_event list \<times> unit result \<times> ('t, 'cb) client" where
  "lib_notify T cb uuid duration now ds c =
     (case start_notify T (SpecOther (SpecStr uuid)) cb c of
        (Inl e, c1) \<Rightarrow> ([], Inl e, c1)
      | (Inr _, c1) \<Rightarrow>
          (let (evs, c2) = generate (lib_notify_wake T cb) (now + duration) ds now (lib_received now cb c c1) c1;
               (r, c3) = stop_notify T (SpecOther (SpecStr uuid)) c2
           in (evs, r, c3)))"


section \<open>The scan gives out what was detected\<close>

definition lib_content :: "ble_device \<times> adv_data \<Rightarrow> string \<times> int option \<times> ustr option" where
  "lib_content x = advert_content (lib_event 0 x)"

lemma lib_new_log:
  assumes "prefix (scn_detected s) (scn_detected s')"
  shows "map lib_content (scn_detected s') = map lib_content (scn_detected s) @ map advert_content (lib_new now s s')"
    and "\<forall>ev\<in>set (lib_new now s s'). ae_t_ns ev = now"
  using assms by (auto simp: prefix_def lib_new_def lib_content_def advert_content_def)

interpretation lib_adverts: event_source "lib_wake P" ae_t_ns advert_content "\<lambda>st. scn_running (fst (snd st))"
    "\<lambda>st. map lib_content (scn_detected (fst (snd st)))"
  for P :: "'p peer"
proof
  fix now evs and st st' :: "'p scan_state"
  assume g: "scn_running (fst (snd st))" and w: "lib_wake P now st = (evs, st')"
  obtain mo s p where st: "st = (mo, s, p)" by (cases st) auto
  have k: "scn_running (fst (snd st')) \<and> prefix (scn_detected s) (scn_detected (fst (snd st')))"
  proof (cases mo)
    case None
    then show ?thesis using g w by (auto simp: st lib_wake_def scanner_wait_def)
  next
    case (Some m)
    obtain rs p' where "peer_recv P p = (rs, p')" by (cases "peer_recv P p")
    moreover obtain m' s' where m: "mgmt_pump scan_run rs (m, s) = (m', s')" by (cases "mgmt_pump scan_run rs (m, s)")
    ultimately have "st' = (Some m', s', p')" using w Some by (auto simp: st lib_wake_def scanner_wait_def Let_def)
    then show ?thesis using scanner_busy.pump_ok [of s rs m] scanner_grows.pump_ok [of s s rs m] g m by (simp add: st)
  qed
  moreover have "evs = lib_new now s (fst (snd st'))" using w by (auto simp: st lib_wake_def Let_def)
  ultimately show "scn_running (fst (snd st')) \<and> map lib_content (scn_detected (fst (snd st'))) =
      map lib_content (scn_detected (fst (snd st))) @ map advert_content evs \<and> (\<forall>ev\<in>set evs. ae_t_ns ev = now)"
    using lib_new_log [of s "fst (snd st')" now] by (simp add: st)
qed

lemma start_discovery_grows:
  "start_discovery P scan_run i (m, s, p) = (r, (m', s', p')) \<Longrightarrow> prefix (scn_detected s) (scn_detected s')"
  using scanner_grows.command_ok [of s s P]
  by (auto simp: start_discovery_def sx_bind_def split: prod.splits sum.splits)

lemma scanner_stop_effects:
  assumes "scanner_stop P (mo, s, p) = (r, (mo', s', p'))"
  shows "prefix (scn_detected s) (scn_detected s') \<and> \<not> scn_running s' \<and> (scn_running s \<longrightarrow> mo' = None)"
proof (cases "scn_running s \<and> mo \<noteq> None")
  case True
  then obtain m where m: "mo = Some m" by blast
  let ?s = "s\<lparr>scn_running := False\<rparr>"
  obtain r1 m1 s1 p1 where d: "stop_discovery P scan_run (scn_index s) (m, ?s, p) = (r1, (m1, s1, p1))"
    by (cases "stop_discovery P scan_run (scn_index s) (m, ?s, p)") auto
  have "\<not> scn_running s1 \<and> prefix (scn_detected ?s) (scn_detected s1)"
    using d scanner_idle.command_ok [of ?s P] scanner_grows.command_ok [of ?s ?s P]
    by (auto simp: stop_discovery_def split: prod.splits sum.splits)
  moreover have "s' = s1" "mo' = None" using assms True m d by (auto simp: scanner_stop_def)
  ultimately show ?thesis by simp
next
  case False
  then show ?thesis using assms by (auto simp: scanner_stop_def split: option.splits if_splits)
qed

text \<open>The scan of the stack over \<open>BleakScanner\<close> gives out, in order and with times in the measuring
  window, what the scanner reported to its callback, none lost, repeated or reordered among those it
  gives out; at its end the scanner is stopped and its socket dropped, unless the start failed.\<close>

theorem lib_scan_in_order:
  assumes "lib_scan_iter env adapter k P duration now ds p = (evs, r, Some (mo, s, p'))"
  shows "in_order ae_t_ns advert_content now (now + duration) (map lib_content (scn_detected s)) evs
    \<and> \<not> scn_running s \<and> (mo = None \<or> (evs = [] \<and> (\<exists>e. r = Inl e)))"
proof -
  obtain i where s0: "scanner_new env adapter True = Inr (fresh_scanner i True)"
    using assms by (auto simp: lib_scan_iter_def scanner_new_def rbind_def split: sum.splits)
  let ?s0 = "fresh_scanner i True"
  obtain r1 mo1 s1 p1 where d: "scanner_start k P (None, ?s0, p) = (r1, (mo1, s1, p1))"
    by (cases "scanner_start k P (None, ?s0, p)") auto
  have s1: "prefix (scn_detected ?s0) (scn_detected s1)" "scn_running s1 \<longleftrightarrow> (\<exists>u. r1 = Inr u)"
    using start_runs [OF d] by (simp_all add: fresh_scanner_def)
  show ?thesis
  proof (cases r1)
    case (Inl e)
    then show ?thesis using assms s0 d s1 by (auto simp: lib_scan_iter_def)
  next
    case (Inr u)
    let ?q = "lib_new now ?s0 s1"
    obtain evs' mo2 s2 p2 where g: "generate (lib_wake P) (now + duration) ds now ?q (mo1, s1, p1) = (evs', (mo2, s2, p2))"
      by (cases "generate (lib_wake P) (now + duration) ds now ?q (mo1, s1, p1)") auto
    obtain r3 mo3 s3 p3 where t: "scanner_stop P (mo2, s2, p2) = (r3, (mo3, s3, p3))"
      by (cases "scanner_stop P (mo2, s2, p2)") auto
    have e: "evs = evs'" "mo = mo3" "s = s3" using assms s0 d Inr g t by (auto simp: lib_scan_iter_def)
    note s3 = scanner_stop_effects [OF t]
    have "scn_running (fst (snd (mo2, s2, p2))) \<and> (\<exists>vs. map lib_content (scn_detected s3) = [] @ vs
        \<and> in_order ae_t_ns advert_content now (now + duration) vs evs')"
      by (rule lib_adverts.window_in_order [OF _ _ _ g])
        (use s1(2) Inr lib_new_log [OF s1(1), of now] lib_new_log(1) [of s2 s3 now] s3 in \<open>simp_all add: fresh_scanner_def\<close>)
    then show ?thesis using s3 e by auto
  qed
qed


section \<open>Both stacks reach the same handles\<close>

text \<open>What the two tables need to agree: canonical UUIDs, as discovery makes them, and no two
  characteristics with one UUID.\<close>

definition char_uuids_ok :: "gatt_characteristic list \<Rightarrow> bool" where
  "char_uuids_ok cs \<longleftrightarrow> distinct (map c_uuid cs) \<and>
     list_all (\<lambda>ch. normalize_uuid_str (c_uuid ch) = Inr (c_uuid ch)
       \<and> list_all (\<lambda>d. normalize_uuid_str (d_uuid d) = Inr (d_uuid d)) (c_descriptors ch)) cs"

lemma cccd_canonical: "normalize_uuid_str CCCD_UUID = Inr CCCD_UUID"
  by code_simp

definition cccd_of :: "gatt_characteristic \<Rightarrow> int option" where
  "cccd_of ch = map_option d_handle (find (\<lambda>d. d_uuid d = CCCD_UUID) (c_descriptors ch))"

lemma raw_cccd_find:
  "list_all (\<lambda>d. normalize_uuid_str (d_uuid d) = Inr (d_uuid d)) ds \<Longrightarrow>
   raw_cccd ds = Inr (map_option d_handle (find (\<lambda>d. d_uuid d = CCCD_UUID) ds))"
  by (induction ds) (simp_all add: cccd_canonical)

lemma raw_chars_from_table:
  "char_uuids_ok cs \<Longrightarrow>
   raw_chars_from cs m = Inr (m ++ map_of (map (\<lambda>ch. (c_uuid ch, c_value_handle ch, cccd_of ch)) cs))"
proof (induction cs arbitrary: m)
  case (Cons ch cs)
  let ?m2 = "map_of (map (\<lambda>ch. (c_uuid ch, c_value_handle ch, cccd_of ch)) cs)"
  have "c_uuid ch \<notin> dom ?m2"
    using Cons.prems by (auto simp: char_uuids_ok_def dom_map_of_conv_image_fst)
  then have "m(c_uuid ch \<mapsto> x) ++ ?m2 = (m ++ ?m2)(c_uuid ch \<mapsto> x)" for x
    by (rule map_add_upd_left)
  moreover have "raw_cccd (c_descriptors ch) = Inr (cccd_of ch)"
    using Cons.prems by (simp add: char_uuids_ok_def raw_cccd_find cccd_of_def)
  moreover have "char_uuids_ok cs" "normalize_uuid_str (c_uuid ch) = Inr (c_uuid ch)"
    using Cons.prems by (simp_all add: char_uuids_ok_def)
  ultimately show ?case using Cons.IH by (simp add: map_add_def fun_eq_iff split: option.split)
qed simp

lemma find_map_of: "map_of (map (\<lambda>x. (f x, g x)) xs) k = map_option g (find (\<lambda>x. f x = k) xs)"
  by (induction xs) auto

lemma raw_chars_find:
  assumes "char_uuids_ok (concat (map s_characteristics services))" "raw_chars services = Inr tbl"
  shows "tbl u = map_option (\<lambda>ch. (c_value_handle ch, cccd_of ch))
    (find (\<lambda>ch. c_uuid ch = u) (concat (map s_characteristics services)))"
proof -
  have "tbl = map_of (map (\<lambda>ch. (c_uuid ch, c_value_handle ch, cccd_of ch)) (concat (map s_characteristics services)))"
    using assms raw_chars_from_table [of "concat (map s_characteristics services)" Map.empty]
    by (simp add: raw_chars_def)
  then show ?thesis by (simp only: find_map_of)
qed

text \<open>What the client makes of the characteristics.\<close>

definition wraps :: "gatt_characteristic \<Rightarrow> bleak_characteristic \<Rightarrow> bool" where
  "wraps ch b \<longleftrightarrow> bc_uuid b = c_uuid ch \<and> bc_value_handle b = c_value_handle ch
     \<and> map_option bd_handle (char_get_descriptor (SpecStr CCCD_UUID) b) = cccd_of ch"

lemma find_map: "find P (map f xs) = map_option f (find (P \<circ> f) xs)"
  by (induction xs) auto

lemma wraps_new: "wraps ch (bleak_gatt_characteristic u ch)"
  by (simp add: wraps_def bleak_gatt_characteristic_def char_get_descriptor_def find_map cccd_of_def
      comp_def bleak_gatt_descriptor_def option.map_comp)

lemma wraps_all: "list_all2 wraps (concat (map s_characteristics ss)) (all_chars (map bleak_gatt_service ss))"
proof (induction ss)
  case (Cons s ss)
  have "list_all2 wraps (s_characteristics s) (bs_characteristics (bleak_gatt_service s))"
    by (simp add: bleak_gatt_service_def list_all2_map2 list_all2_same wraps_new)
  with Cons show ?case by (simp add: all_chars_def list_all2_appendI)
qed (simp add: all_chars_def)

lemma find_wraps:
  "list_all2 wraps cs bs \<Longrightarrow> rel_option wraps (find (\<lambda>ch. c_uuid ch = u) cs) (find (\<lambda>b. bc_uuid b = u) bs)"
  by (induction rule: list_all2_induct) (auto simp: wraps_def)

lemma normalize_uuid_str_idem: "normalize_uuid_str u = Inr v \<Longrightarrow> normalize_uuid_str v = Inr v"
  by (erule normalize_uuid_strE) (simp add: normalize_uuid_strI)

lemma resolve_discovered:
  assumes "normalize_uuid_str u = Inr v" "cl_services c = service_collection (map bleak_gatt_service services)"
  shows "case find (\<lambda>ch. c_uuid ch = v) (concat (map s_characteristics services)) of
      None \<Rightarrow> resolve_char (SpecOther (SpecStr u)) c = Inl (BleakCharacteristicNotFoundError (SpecStr u))
    | Some ch \<Rightarrow> \<exists>b. resolve_char (SpecOther (SpecStr u)) c = Inr b \<and> wraps ch b"
proof -
  have "resolve_char (SpecOther (SpecStr u)) c =
      (case find (\<lambda>b. bc_uuid b = v) (all_chars (map bleak_gatt_service services)) of
         None \<Rightarrow> Inl (BleakCharacteristicNotFoundError (SpecStr u)) | Some b \<Rightarrow> Inr b)"
    using assms normalize_uuid_str_idem [of u v] by (simp add: resolve_char_def get_characteristic_def collection_fold fold_index_char)
  with find_wraps [OF wraps_all, of v services] show ?thesis
    by (auto split: option.splits elim: option.rel_cases)
qed



text \<open>A service with one characteristic that can be subscribed to.\<close>

definition lib_demo :: "gatt_service list" where
  "lib_demo = [\<lparr>s_handle = 1, s_end_handle = 4, s_uuid = ''0000ffe0-0000-1000-8000-00805f9b34fb'',
     s_characteristics = [\<lparr>c_handle = 2, c_value_handle = 3,
       c_uuid = ''0000ffe1-0000-1000-8000-00805f9b34fb'', c_properties = 0x1A, c_end_handle = 4,
       c_descriptors = [\<lparr>d_handle = 4, d_uuid = CCCD_UUID\<rparr>]\<rparr>]\<rparr>]"

lemma lib_demo_ok: "char_uuids_ok (concat (map s_characteristics lib_demo))"
proof -
  have "normalize_uuid_str ''0000ffe1-0000-1000-8000-00805f9b34fb'' = Inr ''0000ffe1-0000-1000-8000-00805f9b34fb''"
    by code_simp
  then show ?thesis by (simp add: char_uuids_ok_def lib_demo_def cccd_canonical)
qed

definition demo_session :: "(upcall list, bleak_characteristic \<times> nat) session" where
  "demo_session = \<lparr>ss_att = att_init [OnData [0x0B, 42]],
     ss_chars = [''0000ffe1-0000-1000-8000-00805f9b34fb'' \<mapsto> (3, Some 4)]\<rparr>"

definition demo_discovered :: "(upcall list, nat) client" where
  "demo_discovered = (demo_client [] True)\<lparr>cl_att := Some (att_init [OnData [0x0B, 42]]),
     cl_services := service_collection (map bleak_gatt_service lib_demo)\<rparr>"


text \<open>With two characteristics of one UUID they differ: the table keeps the last, the client the first.\<close>

theorem duplicate_uuid_differs:
  fixes ch ch' :: gatt_characteristic
  assumes "c_uuid ch = u" "c_uuid ch' = u" "normalize_uuid_str u = Inr u"
    and "c_descriptors ch = []" "c_descriptors ch' = []"
  shows "\<exists>tbl b. raw_chars [\<lparr>s_handle = 1, s_end_handle = 9, s_uuid = su, s_characteristics = [ch, ch']\<rparr>] = Inr tbl
    \<and> map_option fst (tbl u) = Some (c_value_handle ch')
    \<and> get_characteristic (SpecStr u) (service_collection (map bleak_gatt_service
        [\<lparr>s_handle = 1, s_end_handle = 9, s_uuid = su, s_characteristics = [ch, ch']\<rparr>])) = Inr (Some b)
    \<and> bc_value_handle b = c_value_handle ch"
  using assms by (simp add: raw_chars_def get_characteristic_def collection_fold all_chars_def
      bleak_gatt_service_def bleak_gatt_characteristic_def index_char_def)

end
