(* ===== verification/Bench_Stats.thy ===== *)
theory Bench_Stats
  imports Prelude "HOL-Library.Multiset"
begin

text \<open>
  The statistics of the benchmarks: \<open>bench/measure/clock.py\<close> (percentiles and summaries) and
  \<open>bench/measure/recorder.py\<close> (latencies and event rates).  Samples are integers (nanoseconds).

  Two places compute with floats, so their arithmetic is written out: a positive double is a pair
  \<open>(m, k)\<close> that stands for \<open>m / 2^k\<close>, and \<open>/\<close> and \<open>*\<close> round to 53 significant bits, ties to even.
  Subnormal and overflowing results do not occur (the operands are counts and times).  A result of
  \<open>round(x, 3)\<close> is given by the number of thousandths it is the nearest double of.
\<close>

section \<open>Doubles\<close>

fun bit_len :: "nat \<Rightarrow> nat" where
  "bit_len n = (if n = 0 then 0 else Suc (bit_len (n div 2)))"

declare bit_len.simps [simp del]

text \<open>The integer nearest to \<open>a / b\<close>, the even one of two.\<close>

definition half_even :: "nat \<Rightarrow> nat \<Rightarrow> nat" where
  "half_even a b =
     (let q = a div b; r = a mod b
      in if b < 2 * r \<or> (2 * r = b \<and> odd q) then Suc q else q)"

text \<open>A positive integer rounded to 53 bits.\<close>

definition dbl_round :: "nat \<Rightarrow> nat" where
  "dbl_round x = (let s = bit_len x - 53 in half_even x (2 ^ s) * 2 ^ s)"

text \<open>The double nearest to \<open>a / b\<close>.\<close>

definition dbl_quot :: "nat \<Rightarrow> nat \<Rightarrow> nat \<times> nat" where
  "dbl_quot a b =
     (let k0 = 53 + bit_len b - bit_len a;
          k = (if a * 2 ^ k0 div b \<ge> 2 ^ 53 then k0 - 1 else k0);
          s = bit_len (a * 2 ^ k div b) - 53
      in (half_even (a * 2 ^ k) (b * 2 ^ s) * 2 ^ s, k))"

text \<open>\<open>int((p / 100.0) * n)\<close>.\<close>

definition scaled_index :: "nat \<Rightarrow> nat \<Rightarrow> nat" where
  "scaled_index p n = (let (m, k) = dbl_quot p 100 in dbl_round (m * n) div 2 ^ k)"

text \<open>\<open>round(x, 3)\<close>, in thousandths.\<close>

definition round3 :: "nat \<times> nat \<Rightarrow> nat" where
  "round3 d = half_even (fst d * 1000) (2 ^ snd d)"


section \<open>Percentiles and summaries\<close>

definition percentile :: "int list \<Rightarrow> int \<Rightarrow> int" where
  "percentile samples p =
     (if samples = [] then 0
      else if p \<le> 0 then Min (set samples)
      else if p \<ge> 100 then Max (set samples)
      else
        let s = sort samples;
            rank = max 0 (min (int (length s) - 1)
                     (int (scaled_index (nat p) (length s)) - (if p = 100 then 1 else 0)))
        in s ! nat rank)"

record summary =
  su_n :: int
  su_min :: int
  su_p50 :: int
  su_p95 :: int
  su_p99 :: int
  su_max :: int
  su_mean :: int

definition summarize :: "int list \<Rightarrow> summary" where
  "summarize samples =
     (if samples = [] then
        \<lparr>su_n = 0, su_min = 0, su_p50 = 0, su_p95 = 0, su_p99 = 0, su_max = 0, su_mean = 0\<rparr>
      else
        \<lparr>su_n = int (length samples), su_min = Min (set samples),
         su_p50 = percentile samples 50, su_p95 = percentile samples 95,
         su_p99 = percentile samples 99, su_max = Max (set samples),
         su_mean = sum_list samples div int (length samples)\<rparr>)"


section \<open>Recorders\<close>

record latency_recorder =
  lr_name :: string
  lr_samples :: "int list"

definition latency_init :: "string \<Rightarrow> latency_recorder" where
  "latency_init name = \<lparr>lr_name = name, lr_samples = []\<rparr>"

definition latency_record :: "int \<Rightarrow> int \<Rightarrow> latency_recorder \<Rightarrow> latency_recorder" where
  "latency_record t_start t_end r = r\<lparr>lr_samples := lr_samples r @ [t_end - t_start]\<rparr>"

definition latency_add :: "int \<Rightarrow> latency_recorder \<Rightarrow> latency_recorder" where
  "latency_add latency r = r\<lparr>lr_samples := lr_samples r @ [latency]\<rparr>"

definition latency_dict :: "latency_recorder \<Rightarrow> string \<times> summary \<times> int list" where
  "latency_dict r = (lr_name r, summarize (lr_samples r), lr_samples r)"

record rate_recorder =
  er_name :: string
  er_timestamps :: "int list"

record rate_dict =
  rd_name :: string
  rd_count :: int
  rd_duration :: int
  rd_rate_milli :: nat
  rd_inter_arrival :: summary

definition rate_init :: "string \<Rightarrow> rate_recorder" where
  "rate_init name = \<lparr>er_name = name, er_timestamps = []\<rparr>"

definition rate_record :: "int \<Rightarrow> rate_recorder \<Rightarrow> rate_recorder" where
  "rate_record t r = r\<lparr>er_timestamps := er_timestamps r @ [t]\<rparr>"

definition intervals :: "int list \<Rightarrow> int list" where
  "intervals ts = map (\<lambda>i. ts ! i - ts ! (i - 1)) [1..<length ts]"

definition rate_to_dict :: "rate_recorder \<Rightarrow> rate_dict" where
  "rate_to_dict r =
     (let ts = er_timestamps r in
      if length ts < 2 then
        \<lparr>rd_name = er_name r, rd_count = int (length ts), rd_duration = 0, rd_rate_milli = 0,
         rd_inter_arrival = summarize []\<rparr>
      else
        let duration = List.last ts - ts ! 0;
            rate = (if duration > 0
                    then round3 (dbl_quot ((length ts - 1) * 1000000000) (nat duration)) else 0)
        in \<lparr>rd_name = er_name r, rd_count = int (length ts), rd_duration = duration,
            rd_rate_milli = rate, rd_inter_arrival = summarize (intervals ts)\<rparr>)"


section \<open>The arithmetic of the percentiles is exact\<close>

lemma bit_len_bounds: "0 < x \<Longrightarrow> 2 ^ bit_len x \<le> 2 * x \<and> x < 2 ^ bit_len x"
proof (induction x rule: bit_len.induct)
  case (1 n)
  show ?case
  proof (cases "n div 2 = 0")
    case True
    then have "n = 1" using 1 by simp
    then show ?thesis by (simp add: bit_len.simps)
  next
    case False
    with 1 have "2 ^ bit_len (n div 2) \<le> 2 * (n div 2)" "n div 2 < 2 ^ bit_len (n div 2)" by auto
    moreover have "bit_len n = Suc (bit_len (n div 2))" using 1(2) by (subst bit_len.simps) simp
    moreover have "2 * (n div 2) \<le> n" "n \<le> 2 * (n div 2) + 1" by linarith+
    ultimately show ?thesis by (simp del: mult_div_mod_eq)
  qed
qed

lemma half_even_upper:
  assumes "0 < b"
  shows "2 * (half_even a b * b) \<le> 2 * a + b"
proof -
  have "a = (a div b) * b + a mod b" by simp
  then have "a div b * b + a mod b = a" by simp
  moreover have "half_even a b = a div b \<or> (half_even a b = Suc (a div b) \<and> b \<le> 2 * (a mod b))"
    by (auto simp: half_even_def Let_def)
  ultimately show ?thesis by (elim disjE conjE) (auto simp only: mult_Suc distrib_left)
qed

lemma half_even_lower:
  assumes "2 * (q * b) < 2 * a + b" and b: "0 < b"
  shows "q \<le> half_even a b"
proof (cases "q \<le> a div b")
  case False
  have "(a div b + 1) * b \<le> q * b" using False by (intro mult_right_mono) auto
  with assms have "2 * ((a div b) * b + b) < 2 * a + b" by (simp add: algebra_simps)
  moreover have "a = (a div b) * b + a mod b" by simp
  moreover have "2 * (x + b) < 2 * a + b \<Longrightarrow> a = x + r \<Longrightarrow> b < 2 * r" for x r by simp
  ultimately have "b < 2 * (a mod b)" by blast
  moreover have "q * b < (a div b + 2) * b"
  proof -
    have "a < (a div b + 1) * b" using b by (simp add: dividend_less_div_times)
    with assms show ?thesis by (simp add: algebra_simps)
  qed
  then have "q < a div b + 2" using mult_less_cancel2 by blast
  ultimately show ?thesis by (simp add: half_even_def Let_def)
qed (simp add: half_even_def Let_def)

lemma dbl_round_exact:
  assumes m: "2 ^ 52 \<le> m" "m < 2 ^ 53" and p: "100 * m \<le> p * 2 ^ 53 + e" "p * 2 ^ 53 \<le> 100 * m + e"
    and e: "e < 48" "e * 2 ^ 54 \<le> 100 * m" and n: "0 < n" "n < 2 ^ 32" and "p < 100"
  shows "dbl_round (m * n) div 2 ^ 53 = p * n div 100"
proof -
  define s where "s = bit_len (m * n) - 53"
  define j where "j = p * n div 100"
  have pos: "0 < m * n" using m n by simp
  have "bit_len (m * n) \<ge> 53"
  proof (rule ccontr)
    assume "\<not> 53 \<le> bit_len (m * n)"
    then have "2 ^ bit_len (m * n) \<le> (2 :: nat) ^ 52" by (intro power_increasing) auto
    moreover have "m * 1 \<le> m * n" using n by (intro mult_le_mono2) simp
    ultimately show False using bit_len_bounds [OF pos] m by linarith
  qed
  then have L: "2 ^ (53 + s) \<le> 2 * (m * n)" "m * n < 2 ^ (53 + s)"
    using bit_len_bounds [OF pos] by (simp_all add: s_def)
  have "s \<le> 32"
  proof (rule ccontr)
    assume "\<not> s \<le> 32"
    then have "(2 :: nat) ^ 86 \<le> 2 ^ (53 + s)" by (intro power_increasing) auto
    moreover have "m * n < 2 ^ 53 * 2 ^ 32" using m n by (intro mult_strict_mono) auto
    ultimately show False using L(1) by simp
  qed
  have d: "(2 :: nat) ^ 53 = 2 ^ (53 - s) * 2 ^ s"
    using \<open>s \<le> 32\<close> by (simp flip: power_add)
  have "j * 100 + (p * n) mod 100 = p * n" by (simp add: j_def)
  moreover have "(p * n) mod 100 \<le> 99" using mod_less_divisor [of 100 "p * n"] by linarith
  ultimately have j: "100 * j \<le> p * n" "p * n \<le> 100 * j + 99" by linarith+
  have en: "2 * (e * n) < 100 * 2 ^ s"
  proof -
    have "e * 2 ^ 54 * n \<le> 100 * m * n" using e by (intro mult_right_mono) auto
    then have "(e * n) * 2 ^ 54 \<le> 100 * (m * n)" by (simp only: ac_simps)
    moreover have "m * n < 2 ^ 53 * 2 ^ s" using L(2) by (simp only: power_add)
    moreover have "x * 2 ^ 54 \<le> 100 * y \<Longrightarrow> y < 2 ^ 53 * z \<Longrightarrow> 2 * x < 100 * z" for x y z :: nat by simp
    ultimately show ?thesis by blast
  qed
  have pm: "100 * (m * n) \<le> (p * n) * 2 ^ 53 + e * n" "(p * n) * 2 ^ 53 \<le> 100 * (m * n) + e * n"
    using mult_right_mono [OF p(1), of n] mult_right_mono [OF p(2), of n] by (simp_all add: algebra_simps)
  define q where "q = j * 2 ^ (53 - s)"
  have q: "q * 2 ^ s = j * 2 ^ 53" by (simp only: q_def d mult.assoc)
  have R: "dbl_round (m * n) = half_even (m * n) (2 ^ s) * 2 ^ s"
    by (simp only: dbl_round_def s_def Let_def)
  have "2 * (q * 2 ^ s) < 2 * (m * n) + 2 ^ s"
  proof -
    have "100 * j \<le> y \<Longrightarrow> y * 2 ^ 53 \<le> 100 * x + z \<Longrightarrow> 2 * z < 100 * w \<Longrightarrow> 2 * (j * 2 ^ 53) < 2 * x + w"
      for w x y z :: nat by simp
    from this [OF j(1) pm(2) en] show ?thesis by (simp only: q)
  qed
  from half_even_lower [OF this] have "q * 2 ^ s \<le> dbl_round (m * n)"
    unfolding R by (intro mult_right_mono) auto
  then have "j * 2 ^ 53 \<le> dbl_round (m * n)" by (simp only: q)
  moreover have "dbl_round (m * n) < (j + 1) * 2 ^ 53"
  proof -
    have "2 * dbl_round (m * n) \<le> 2 * (m * n) + 2 ^ s"
      unfolding R by (rule half_even_upper) simp
    moreover have "(2 :: nat) ^ s \<le> 2 ^ 32" using \<open>s \<le> 32\<close> by (intro power_increasing) auto
    moreover have "r * 2 \<le> 2 * x + w \<Longrightarrow> w \<le> 2 ^ 32 \<Longrightarrow> y \<le> 100 * j + 99 \<Longrightarrow>
      100 * x \<le> y * 2 ^ 53 + z \<Longrightarrow> 2 * z < 100 * w \<Longrightarrow> r < (j + 1) * 2 ^ 53" for r w x y z :: nat by simp
    ultimately show ?thesis using j(2) pm(1) en by (metis mult.commute)
  qed
  ultimately show ?thesis
    unfolding j_def [symmetric] by (intro div_nat_eqI) (simp_all only: mult.commute Suc_eq_plus1)
qed

text \<open>The three percentiles that are summarised.\<close>

abbreviation summary_percent :: "int \<Rightarrow> bool" where
  "summary_percent p \<equiv> p \<in> {50, 95, 99}"

lemma dbl_quots:
  "dbl_quot 50 100 = (4503599627370496, 53)"
  "dbl_quot 95 100 = (8556839292003942, 53)"
  "dbl_quot 99 100 = (8917127262193582, 53)"
  unfolding dbl_quot_def half_even_def Let_def by (simp_all add: bit_len.simps)

lemma scaled_index_exact:
  assumes "summary_percent p" "0 < n" "n < 2 ^ 32"
  shows "scaled_index (nat p) n = nat p * n div 100"
proof -
  have S: "scaled_index q n = dbl_round (m * n) div 2 ^ 53" if "dbl_quot q 100 = (m, 53)" for q m
    by (simp only: scaled_index_def that Let_def case_prod_conv)
  have "dbl_round (4503599627370496 * n) div 2 ^ 53 = 50 * n div 100"
    by (rule dbl_round_exact [where e = 0]) (use assms(2,3) in simp_all)
  moreover have "dbl_round (8556839292003942 * n) div 2 ^ 53 = 95 * n div 100"
    by (rule dbl_round_exact [where e = 40]) (use assms(2,3) in simp_all)
  moreover have "dbl_round (8917127262193582 * n) div 2 ^ 53 = 99 * n div 100"
    by (rule dbl_round_exact [where e = 8]) (use assms(2,3) in simp_all)
  ultimately have "scaled_index 50 n = 50 * n div 100" "scaled_index 95 n = 95 * n div 100"
    "scaled_index 99 n = 99 * n div 100"
    by (simp_all only: S [OF dbl_quots(1)] S [OF dbl_quots(2)] S [OF dbl_quots(3)])
  then show ?thesis using assms(1) by (elim insertE emptyE) (simp_all only: nat_numeral)
qed

lemma percentile_sorted:
  assumes "samples \<noteq> []" "length samples < 2 ^ 32" "summary_percent p"
  shows "percentile samples p = sort samples ! (nat p * length samples div 100)"
    and "nat p * length samples div 100 < length samples"
proof -
  have n: "0 < length samples" using assms(1) by simp
  show k: "nat p * length samples div 100 < length samples"
    using n assms(3) by (auto simp: less_mult_imp_div_less)
  have "scaled_index (nat p) (length samples) = nat p * length samples div 100"
    using scaled_index_exact [OF assms(3) n assms(2)] .
  moreover have "max 0 (min (int (length samples) - 1) (int k - 0)) = int k"
    if "k < length samples" for k using that by simp
  ultimately show "percentile samples p = sort samples ! (nat p * length samples div 100)"
    using k assms(1,3) by (auto simp: percentile_def Let_def)
qed

text \<open>An element of the sorted list has at most its index many smaller elements, and more than that
  many that do not exceed it.\<close>

lemma sort_nth_counts:
  fixes xs :: "int list"
  assumes "k < length xs"
  shows "length (filter (\<lambda>x. x < sort xs ! k) xs) \<le> k"
    and "k < length (filter (\<lambda>x. x \<le> sort xs ! k) xs)"
proof -
  let ?s = "sort xs" and ?v = "sort xs ! k"
  have len: "length (filter P xs) = length (filter P ?s)" for P
    by (metis mset_filter mset_sort size_mset)
  have s: "?s = take k ?s @ ?v # drop (Suc k) ?s"
    using assms by (simp add: id_take_nth_drop)
  have lo: "x \<le> ?v" if "x \<in> set (take k ?s)" for x
    using that sorted_sort [of xs] assms by (auto simp: in_set_conv_nth intro!: sorted_nth_mono)
  have hi: "?v \<le> x" if "x \<in> set (drop (Suc k) ?s)" for x
    using that sorted_sort [of xs] assms by (auto simp: in_set_conv_nth intro!: sorted_nth_mono)
  have "filter (\<lambda>x. x < ?v) (drop (Suc k) ?s) = []" using hi by (force simp: filter_empty_conv)
  then have "length (filter (\<lambda>x. x < ?v) ?s) \<le> k"
    by (subst s) (simp add: le_trans [OF length_filter_le])
  then show "length (filter (\<lambda>x. x < ?v) xs) \<le> k" by (simp only: len)
  have "filter (\<lambda>x. x \<le> ?v) (take k ?s) = take k ?s" using lo by (simp add: filter_id_conv)
  then have "k < length (filter (\<lambda>x. x \<le> ?v) ?s)"
    using assms by (subst s) simp
  then show "k < length (filter (\<lambda>x. x \<le> ?v) xs)" by (simp only: len)
qed

text \<open>A percentile of a summary is an order statistic of the samples, in spite of the float
  arithmetic: it is one of them, at most \<open>p\<close> percent of them are smaller, and more than \<open>p\<close> percent
  do not exceed it.\<close>

theorem percentile_rank:
  assumes "samples \<noteq> []" and "length samples < 2 ^ 32" and "summary_percent p"
  shows "percentile samples p \<in> set samples
    \<and> 100 * length (filter (\<lambda>x. x < percentile samples p) samples) \<le> nat p * length samples
    \<and> nat p * length samples < 100 * length (filter (\<lambda>x. x \<le> percentile samples p) samples)"
proof -
  let ?k = "nat p * length samples div 100"
  have k: "?k < length samples" and v: "percentile samples p = sort samples ! ?k"
    using percentile_sorted [OF assms] by simp_all
  have "percentile samples p \<in> set samples"
    using k nth_mem [of ?k "sort samples"] unfolding v by simp
  moreover have "100 * l \<le> y" if "l \<le> y div 100" for l y :: nat
    using that by linarith
  moreover have "y < 100 * l" if "y div 100 < l" for l y :: nat
    using that by linarith
  ultimately show ?thesis
    using sort_nth_counts [OF k] unfolding v [symmetric] by blast
qed

theorem percentile_rank_witness:
  "percentile [30, 10, 20, 50, 40] 50 \<in> set [30, 10, 20, 50, 40]
    \<and> 100 * length (filter (\<lambda>x. x < percentile [30, 10, 20, 50, 40] 50) [30, 10, 20, 50, 40])
        \<le> nat 50 * length [30, 10, 20, 50, 40 :: int]
    \<and> nat 50 * length [30, 10, 20, 50, 40 :: int]
        < 100 * length (filter (\<lambda>x. x \<le> percentile [30, 10, 20, 50, 40] 50) [30, 10, 20, 50, 40])"
  by (rule percentile_rank) simp_all

text \<open>The documentation calls it the nearest-rank percentile, the element at \<open>ceil(p/100 * n) - 1\<close>.
  They differ when \<open>p * n\<close> is a multiple of 100: the code takes the next element.\<close>

definition nearest_rank :: "int list \<Rightarrow> int \<Rightarrow> int" where
  "nearest_rank samples p = sort samples ! ((nat p * length samples + 99) div 100 - 1)"

lemma percentile_not_nearest_rank:
  "percentile [10, 20] 50 = 20" "nearest_rank [10, 20] 50 = 10"
  by (simp_all add: percentile_sorted nearest_rank_def)


section \<open>Summaries and rates\<close>

lemma mean_bounds:
  fixes xs :: "int list"
  assumes "xs \<noteq> []"
  shows "Min (set xs) \<le> sum_list xs div int (length xs) \<and> sum_list xs div int (length xs) \<le> Max (set xs)"
proof -
  have "sum_list xs \<le> int (length xs) * b" if "\<And>x. x \<in> set xs \<Longrightarrow> x \<le> b" for b
    using that by (induction xs) (auto simp: algebra_simps add_mono)
  from this [of "Max (set xs)"] have "sum_list xs \<le> int (length xs) * Max (set xs)" by simp
  moreover have "int (length xs) * a \<le> sum_list xs" if "\<And>x. x \<in> set xs \<Longrightarrow> a \<le> x" for a
    using that by (induction xs) (auto simp: algebra_simps add_mono)
  from this [of "Min (set xs)"] have "int (length xs) * Min (set xs) \<le> sum_list xs" by simp
  moreover have "0 < int (length xs)" using assms by simp
  ultimately show ?thesis
    using zdiv_mono1 [of "int (length xs) * Min (set xs)" "sum_list xs" "int (length xs)"]
      zdiv_mono1 [of "sum_list xs" "int (length xs) * Max (set xs)" "int (length xs)"] by simp
qed

text \<open>C30.  A summary is ordered: \<open>min \<le> p50 \<le> p95 \<le> p99 \<le> max\<close>, and the mean lies between the
  extremes.\<close>

theorem summarize_ordered:
  assumes "samples \<noteq> []" and "length samples < 2 ^ 32"
  shows "su_min (summarize samples) \<le> su_p50 (summarize samples)
    \<and> su_p50 (summarize samples) \<le> su_p95 (summarize samples)
    \<and> su_p95 (summarize samples) \<le> su_p99 (summarize samples)
    \<and> su_p99 (summarize samples) \<le> su_max (summarize samples)
    \<and> su_min (summarize samples) \<le> su_mean (summarize samples)
    \<and> su_mean (summarize samples) \<le> su_max (summarize samples)"
proof -
  have S: "su_min (summarize samples) = Min (set samples)" "su_max (summarize samples) = Max (set samples)"
    "su_p50 (summarize samples) = percentile samples 50" "su_p95 (summarize samples) = percentile samples 95"
    "su_p99 (summarize samples) = percentile samples 99"
    "su_mean (summarize samples) = sum_list samples div int (length samples)"
    using assms(1) by (simp_all add: summarize_def)
  have P: "percentile samples p = sort samples ! (nat p * length samples div 100)"
    "nat p * length samples div 100 < length samples" "percentile samples p \<in> set samples"
    if "summary_percent p" for p
    using percentile_sorted [OF assms that] nth_mem [of "nat p * length samples div 100" "sort samples"]
    by simp_all
  have "percentile samples p \<le> percentile samples q"
    if "summary_percent p" "summary_percent q" "p \<le> q" for p q
    using P [OF that(1)] P [OF that(2)] that(3)
    by (auto intro!: sorted_nth_mono div_le_mono mult_le_mono nat_mono)
  moreover have "Min (set samples) \<le> percentile samples p" "percentile samples p \<le> Max (set samples)"
    if "summary_percent p" for p using P(3) [OF that] by simp_all
  moreover have "Min (set samples) \<le> sum_list samples div int (length samples)
    \<and> sum_list samples div int (length samples) \<le> Max (set samples)"
    using mean_bounds [OF assms(1)] .
  ultimately show ?thesis unfolding S by simp
qed

theorem summarize_ordered_witness:
  "su_min (summarize [7, 3, 5]) \<le> su_p50 (summarize [7, 3, 5])
    \<and> su_p50 (summarize [7, 3, 5]) \<le> su_p95 (summarize [7, 3, 5])
    \<and> su_p95 (summarize [7, 3, 5]) \<le> su_p99 (summarize [7, 3, 5])
    \<and> su_p99 (summarize [7, 3, 5]) \<le> su_max (summarize [7, 3, 5])
    \<and> su_min (summarize [7, 3, 5]) \<le> su_mean (summarize [7, 3, 5])
    \<and> su_mean (summarize [7, 3, 5]) \<le> su_max (summarize [7, 3, 5])"
  by (rule summarize_ordered) simp_all

lemma sum_intervals: "ts \<noteq> [] \<Longrightarrow> sum_list (intervals ts) = List.last ts - ts ! 0"
proof (induction ts rule: rev_induct)
  case (snoc t ts)
  show ?case
  proof (cases "ts = []")
    case False
    have i: "intervals (ts @ [t]) = intervals ts @ [t - List.last ts]"
    proof -
      have "[1..<length (ts @ [t])] = [1..<length ts] @ [length ts]" using False by (cases ts) simp_all
      moreover have "map (\<lambda>i. (ts @ [t]) ! i - (ts @ [t]) ! (i - 1)) [1..<length ts] = intervals ts"
        by (auto simp: intervals_def nth_append)
      ultimately show ?thesis
        using False by (simp add: intervals_def nth_append last_conv_nth)
    qed
    then show ?thesis using snoc False by (simp add: nth_append)
  qed (simp add: intervals_def)
qed simp

lemma length_intervals: "length (intervals ts) = length ts - 1"
  by (simp add: intervals_def)

text \<open>The rate record of a run of events is consistent: the count is the number of events, the
  duration is the sum of the gaps, and the gaps summarised are one fewer than the events, with the
  duration divided by their number as the mean.\<close>

theorem event_rate_consistent:
  assumes "2 \<le> length ts"
  shows "let d = rate_to_dict (fold rate_record ts (rate_init name))
    in rd_name d = name \<and> rd_count d = int (length ts)
     \<and> rd_duration d = List.last ts - ts ! 0 \<and> rd_duration d = sum_list (intervals ts)
     \<and> su_n (rd_inter_arrival d) = rd_count d - 1
     \<and> su_mean (rd_inter_arrival d) = rd_duration d div (rd_count d - 1)"
proof -
  have f: "fold rate_record xs r = r\<lparr>er_timestamps := er_timestamps r @ xs\<rparr>" for xs r
    by (induction xs arbitrary: r) (simp_all add: rate_record_def)
  have "intervals ts \<noteq> []" "ts \<noteq> []"
    using assms length_intervals [of ts] by (auto simp flip: length_greater_0_conv)
  then show ?thesis
    using assms sum_intervals [of ts]
    by (simp add: Let_def f rate_init_def rate_to_dict_def summarize_def length_intervals)
qed

theorem event_rate_consistent_witness:
  "let d = rate_to_dict (fold rate_record [100, 300, 350] (rate_init ''adverts''))
    in rd_name d = ''adverts'' \<and> rd_count d = int (length [100, 300, 350 :: int])
     \<and> rd_duration d = List.last [100, 300, 350] - [100, 300, 350] ! 0
     \<and> rd_duration d = sum_list (intervals [100, 300, 350])
     \<and> su_n (rd_inter_arrival d) = rd_count d - 1
     \<and> su_mean (rd_inter_arrival d) = rd_duration d div (rd_count d - 1)"
  by (rule event_rate_consistent) simp

end
