(* ===== verification/Bench_Proc.thy ===== *)
theory Bench_Proc
  imports Bench_Stats Hci
begin

text \<open>
  Process accounting of the benchmarks: \<open>bench/measure/cpu.py\<close> and \<open>bench/measure/memory.py\<close>.
  What the code reads from \<open>/proc\<close> is the record \<open>proc_env\<close>: the listing, and the contents of the
  files, or the exception that opening or decoding one raises.  \<open>pe_hz\<close> is the positive value
  of \<open>sysconf\<close>, if it has one.  The percentages are given in thousandths (see theory \<open>Bench_Stats\<close>).
\<close>

section \<open>Strings\<close>

text \<open>\<open>s.split()\<close>.\<close>

fun words_from :: "string \<Rightarrow> string \<Rightarrow> string list" where
  "words_from w [] = (if w = [] then [] else [w])"
| "words_from w (c # cs) =
     (if is_space c then (if w = [] then words_from [] cs else w # words_from [] cs)
      else words_from (w @ [c]) cs)"

definition split_space :: "string \<Rightarrow> string list" where
  "split_space s = words_from [] s"

text \<open>\<open>int(s)\<close>: white space, a sign, digits with single underscores between them.\<close>

fun digits_us :: "bool \<Rightarrow> int \<Rightarrow> string \<Rightarrow> int option" where
  "digits_us prev acc [] = (if prev then Some acc else None)"
| "digits_us prev acc (c # cs) =
     (if c = CHR ''_'' then (if prev then digits_us False acc cs else None)
      else if is_digit c then digits_us True (10 * acc + int (of_char c - 48)) cs
      else None)"

definition py_int :: "string \<Rightarrow> int result" where
  "py_int s =
     (let t = strip_by is_cspace s;
          neg = prefix ''-'' t;
          u = (if neg \<or> prefix ''+'' t then drop 1 t else t)
      in case digits_us False 0 u of
           None \<Rightarrow> Inl ValueError
         | Some v \<Rightarrow> Inr (if neg then - v else v))"

text \<open>What follows the last \<open>c\<close>, if there is one.\<close>

definition after_last :: "char \<Rightarrow> string \<Rightarrow> string option" where
  "after_last c s = (if c \<in> set s then Some (rev (takeWhile (\<lambda>x. x \<noteq> c) (rev s))) else None)"

text \<open>The lines of a file, each with its line end.\<close>

fun lines_from :: "string \<Rightarrow> string \<Rightarrow> string list" where
  "lines_from w [] = (if w = [] then [] else [w])"
| "lines_from w (c # cs) =
     (if c = CHR 0x0A then (w @ [c]) # lines_from [] cs else lines_from (w @ [c]) cs)"


section \<open>Reading the process table\<close>

record proc_env =
  pe_list :: "string list result"
  pe_comm :: "string \<Rightarrow> string result"
  pe_stat :: "int \<Rightarrow> string result"
  pe_status :: "int \<Rightarrow> string result"
  pe_hz :: "int option"
  pe_self :: int

definition hz :: "proc_env \<Rightarrow> int" where
  "hz e = (case pe_hz e of Some n \<Rightarrow> n | None \<Rightarrow> 100)"

definition ticks_to_ns :: "proc_env \<Rightarrow> int \<Rightarrow> int" where
  "ticks_to_ns e ticks = ticks * 1000000000 div hz e"

fun comm_matches :: "proc_env \<Rightarrow> string \<Rightarrow> string list \<Rightarrow> int list result" where
  "comm_matches e comm [] = Inr []"
| "comm_matches e comm (entry # es) =
     (if entry = [] \<or> \<not> list_all is_digit entry then comm_matches e comm es
      else case pe_comm e entry of
        Inl x \<Rightarrow> if is_os_error x then comm_matches e comm es else Inl x
      | Inr s \<Rightarrow>
          if py_strip s = comm
          then rbind (comm_matches e comm es) (\<lambda>ms. Inr (py_int10 entry # ms))
          else comm_matches e comm es)"

definition resolve_pid_by_comm :: "proc_env \<Rightarrow> string \<Rightarrow> int option result" where
  "resolve_pid_by_comm e comm =
     (case pe_list e of
        Inl x \<Rightarrow> if is_os_error x then Inr None else Inl x
      | Inr es \<Rightarrow> rbind (comm_matches e comm es) (\<lambda>ms.
          Inr (if ms \<noteq> [] then Some (Min (set ms)) else None)))"

definition read_proc_cpu_ns :: "proc_env \<Rightarrow> int \<Rightarrow> int option result" where
  "read_proc_cpu_ns e pid =
     (case pe_stat e pid of
        Inl x \<Rightarrow> if is_os_error x then Inr None else Inl x
      | Inr data \<Rightarrow>
          (case after_last (CHR '')'') data of
             None \<Rightarrow> Inr None
           | Some rest \<Rightarrow>
               let fields = split_space rest
               in case rbind (py_get fields 11) py_int of
                    Inl _ \<Rightarrow> Inr None
                  | Inr utime \<Rightarrow>
                      (case rbind (py_get fields 12) py_int of
                         Inl _ \<Rightarrow> Inr None
                       | Inr stime \<Rightarrow> Inr (Some (ticks_to_ns e (utime + stime))))))"

fun status_rss :: "string list \<Rightarrow> int result" where
  "status_rss [] = Inr 0"
| "status_rss (line # ls) =
     (if prefix ''VmRSS:'' line then rbind (py_get (split_space line) 1) py_int else status_rss ls)"

definition rss_kib :: "proc_env \<Rightarrow> int \<Rightarrow> int result" where
  "rss_kib e pid =
     (case rbind (pe_status e pid) (\<lambda>s. status_rss (lines_from [] s)) of
        Inl x \<Rightarrow> if is_os_error x \<or> x = ValueError then Inr 0 else Inl x
      | Inr n \<Rightarrow> Inr n)"

definition self_rss_kib :: "proc_env \<Rightarrow> int result" where
  "self_rss_kib e = rss_kib e (pe_self e)"


section \<open>The tracker\<close>

record cpu_tracker =
  ct_pids :: "(string \<times> int) list"
  ct_start_ns :: "string \<rightharpoonup> int option"
  ct_stop_ns :: "string \<rightharpoonup> int option"
  ct_wall_start :: int
  ct_wall_stop :: int

definition DEFAULT_COMMS :: "string list" where
  "DEFAULT_COMMS = [''bluetoothd'', ''dbus-broker'', ''dbus-daemon'']"

definition tracker_init :: "proc_env \<Rightarrow> (string \<times> int) list \<Rightarrow> cpu_tracker" where
  "tracker_init e pids =
     \<lparr>ct_pids = (if ''python'' \<in> set (map fst pids) then pids else pids @ [(''python'', pe_self e)]),
      ct_start_ns = Map.empty, ct_stop_ns = Map.empty, ct_wall_start = 0, ct_wall_stop = 0\<rparr>"

fun default_pids :: "proc_env \<Rightarrow> string list \<Rightarrow> (string \<times> int) list result" where
  "default_pids e [] = Inr []"
| "default_pids e (comm # cs) =
     rbind (resolve_pid_by_comm e comm) (\<lambda>pid.
     rbind (default_pids e cs) (\<lambda>ps.
       Inr (case pid of None \<Rightarrow> ps | Some p \<Rightarrow> (comm, p) # ps)))"

definition for_default_pids :: "proc_env \<Rightarrow> cpu_tracker result" where
  "for_default_pids e = rbind (default_pids e DEFAULT_COMMS) (\<lambda>ps. Inr (tracker_init e ps))"

text \<open>\<open>{name: read_proc_cpu_ns(pid) for name, pid in self._pids.items()}\<close>.\<close>

fun cpu_entry :: "proc_env \<Rightarrow> string \<times> int \<Rightarrow> (string \<times> int option) result" where
  "cpu_entry e (name, pid) = rbind (read_proc_cpu_ns e pid) (\<lambda>v. Inr (name, v))"

definition snapshot :: "proc_env \<Rightarrow> (string \<times> int) list \<Rightarrow> (string \<rightharpoonup> int option) result" where
  "snapshot e pids =
     rbind (rmap (cpu_entry e) pids) (\<lambda>kvs. Inr (map_of (rev kvs)))"

definition tracker_start :: "int \<Rightarrow> proc_env \<Rightarrow> (cpu_tracker, unit) sx" where
  "tracker_start now e t =
     (let t' = t\<lparr>ct_wall_start := now\<rparr>
      in case snapshot e (ct_pids t') of
           Inl x \<Rightarrow> (Inl x, t')
         | Inr m \<Rightarrow> (Inr (), t'\<lparr>ct_start_ns := m\<rparr>))"

definition tracker_stop :: "int \<Rightarrow> proc_env \<Rightarrow> (cpu_tracker, unit) sx" where
  "tracker_stop now e t =
     (let t' = t\<lparr>ct_wall_stop := now\<rparr>
      in case snapshot e (ct_pids t') of
           Inl x \<Rightarrow> (Inl x, t')
         | Inr m \<Rightarrow> (Inr (), t'\<lparr>ct_stop_ns := m\<rparr>))"

record cpu_usage =
  cu_pid :: int
  cu_cpu_ns :: "int option"
  cu_pct_milli :: "int option"

text \<open>\<open>round(100.0 * cpu_ns / wall_ns, 3)\<close>.\<close>

definition cpu_pct :: "int \<Rightarrow> int \<Rightarrow> int" where
  "cpu_pct cpu_ns wall_ns =
     sgn cpu_ns * int (round3 (dbl_quot (dbl_round (100 * dbl_round (nat \<bar>cpu_ns\<bar>))) (dbl_round (nat wall_ns))))"

definition tracker_dict :: "cpu_tracker \<Rightarrow> int \<times> (string \<times> cpu_usage) list" where
  "tracker_dict t =
     (let wall_ns = ct_wall_stop t - ct_wall_start t
      in (wall_ns, map (\<lambda>(name, pid).
           (name,
            case (ct_start_ns t name, ct_stop_ns t name) of
              (Some (Some start), Some (Some stop)) \<Rightarrow>
                let cpu_ns = stop - start;
                    pct = (if wall_ns > 0 then cpu_pct cpu_ns wall_ns else 0)
                in \<lparr>cu_pid = pid, cu_cpu_ns = Some cpu_ns, cu_pct_milli = Some pct\<rparr>
            | _ \<Rightarrow> \<lparr>cu_pid = pid, cu_cpu_ns = None, cu_pct_milli = None\<rparr>)) (ct_pids t)))"


section \<open>Reading back what the kernel prints\<close>

lemma digit_char:
  assumes "0 \<le> d" "d < 10"
  shows "is_digit (char_of (nat (48 + d)))" "int (of_char (char_of (nat (48 + d)) :: char) - 48) = d"
proof -
  have n: "of_char (char_of (nat (48 + d)) :: char) = nat (48 + d)" using assms by simp
  show "is_digit (char_of (nat (48 + d)))" "int (of_char (char_of (nat (48 + d)) :: char) - 48) = d"
    unfolding is_digit_def n using assms by (auto simp: Let_def)
qed

lemma digit_props:
  assumes "is_digit c"
  shows "c \<noteq> CHR ''_''" "c \<noteq> CHR ''-''" "c \<noteq> CHR ''+''" "c \<noteq> CHR '')''"
    "\<not> is_cspace c" "\<not> is_space c"
  using assms by (auto simp: is_digit_def is_cspace_def is_space_def Let_def)

lemma dec_digits_chars: "0 \<le> n \<Longrightarrow> c \<in> set (dec_digits n) \<Longrightarrow> is_digit c"
proof (induction n rule: dec_digits.induct)
  case (1 n)
  show ?case
  proof (cases "n < 10")
    case True
    then have "c = char_of (nat (48 + n))" using 1(3) by (subst (asm) dec_digits.simps) simp
    then show ?thesis using digit_char(1) [OF 1(2) True] by (simp only:)
  next
    case False
    then have "c \<in> set (dec_digits (n div 10)) \<or> c = char_of (nat (48 + n mod 10))"
      using 1(3) by (subst (asm) dec_digits.simps) auto
    moreover have "is_digit (char_of (nat (48 + n mod 10)))" by (rule digit_char(1)) simp_all
    moreover have "0 \<le> n div 10" using 1(2) by simp
    ultimately show ?thesis using 1(1) [OF False] by metis
  qed
qed

lemma digits_us_append:
  "s \<noteq> [] \<Longrightarrow> \<forall>c\<in>set s. is_digit c \<Longrightarrow> digits_us b acc (s @ t) = digits_us True (the (digits_us b acc s)) t"
proof (induction s arbitrary: b acc)
  case (Cons c s)
  then have c: "is_digit c" by simp
  show ?case
  proof (cases "s = []")
    case True
    then show ?thesis using c digit_props(1) [OF c] by simp
  next
    case False
    then have "digits_us True x (s @ t) = digits_us True (the (digits_us True x s)) t" for x
      using Cons by simp
    then show ?thesis using c digit_props(1) [OF c] by (simp only: append_Cons digits_us.simps if_True if_False)
  qed
qed simp

lemma dec_digits_ne [simp]: "dec_digits n \<noteq> []"
  by (subst dec_digits.simps) simp

lemma digits_us_digit:
  "is_digit c \<Longrightarrow> digits_us b acc [c] = Some (10 * acc + int (of_char c - 48))"
  by (simp add: digit_props)

lemma digits_us_dec: "0 \<le> n \<Longrightarrow> digits_us b 0 (dec_digits n) = Some n"
proof (induction n arbitrary: b rule: dec_digits.induct)
  case (1 n)
  show ?case
  proof (cases "n < 10")
    case True
    then have "dec_digits n = [char_of (nat (48 + n))]" by (subst dec_digits.simps) simp
    then show ?thesis
      using digits_us_digit [OF digit_char(1) [OF 1(2) True]] digit_char(2) [OF 1(2) True]
      by (simp only: mult_zero_right add_0)
  next
    case False
    let ?d = "n mod 10"
    have q: "0 \<le> n div 10" using 1(2) by simp
    have d: "0 \<le> ?d" "?d < 10" by simp_all
    have "\<forall>c\<in>set (dec_digits (n div 10)). is_digit c"
      using dec_digits_chars [OF q] by metis
    from digits_us_append [OF dec_digits_ne this, of b 0]
    have "digits_us b 0 (dec_digits (n div 10) @ [char_of (nat (48 + ?d))])
        = digits_us True (n div 10) [char_of (nat (48 + ?d))]"
      by (simp only: 1(1) [OF False q] option.sel)
    also have "\<dots> = Some (10 * (n div 10) + ?d)"
      by (simp only: digits_us_digit [OF digit_char(1) [OF d]] digit_char(2) [OF d])
    finally show ?thesis using False by (subst dec_digits.simps) simp
  qed
qed

lemma str_int_chars:
  assumes "c \<in> set (str_int v)"
  shows "\<not> is_cspace c" "\<not> is_space c" "c \<noteq> CHR '')''"
proof -
  have "c = CHR ''-'' \<or> is_digit c"
    using assms dec_digits_chars [of "\<bar>v\<bar>" c] by (auto simp: str_int_def split: if_splits)
  then show "\<not> is_cspace c" "\<not> is_space c" "c \<noteq> CHR '')''"
    using digit_props(4-6) by (auto simp: is_cspace_def is_space_def)
qed

lemma str_int_ne [simp]: "str_int v \<noteq> []"
  by (simp add: str_int_def)

lemma py_int_str_int [simp, codec_simps]: "py_int (str_int v) = Inr v"
proof -
  have s: "strip_by is_cspace (str_int v) = str_int v"
    using str_int_chars(1) by (blast intro: strip_by_id)
  show ?thesis
  proof (cases "v < 0")
    case True
    then show ?thesis using digits_us_dec [of "- v" False] by (simp add: py_int_def s Let_def) (simp add: str_int_def)
  next
    case False
    moreover obtain c cs where c: "dec_digits v = c # cs" by (cases "dec_digits v") auto
    moreover have "c \<noteq> CHR ''-''" "c \<noteq> CHR ''+''"
      using False dec_digits_chars [of v c] digit_props(2,3) [of c] unfolding c by auto
    ultimately show ?thesis
      using digits_us_dec [of v False] by (simp add: py_int_def s Let_def) (simp add: str_int_def)
  qed
qed

lemma words_from_word:
  "\<forall>c\<in>set w. \<not> is_space c \<Longrightarrow> words_from v (w @ s) = words_from (v @ w) s"
  by (induction w arbitrary: v) auto

lemma split_space_join:
  assumes "\<forall>w\<in>set ws. w \<noteq> [] \<and> (\<forall>c\<in>set w. \<not> is_space c)"
  shows "split_space ('' '' @ py_join '' '' ws) = ws"
proof -
  have sp: "is_space (CHR '' '')" by (simp add: is_space_def)
  have "words_from [] (py_join '' '' ws) = ws" using assms
  proof (induction "'' ''" ws rule: py_join.induct)
    case (2 w)
    then show ?case using words_from_word [of w "[]" "[]"] by simp
  next
    case (3 w v ws)
    then show ?case using words_from_word [of w "[]" "'' '' @ py_join '' '' (v # ws)"] sp by simp
  qed simp
  then show ?thesis using sp by (simp add: split_space_def)
qed

lemma after_last_append: "c \<notin> set t \<Longrightarrow> after_last c (s @ c # t) = Some t"
proof -
  assume c: "c \<notin> set t"
  then have "takeWhile (\<lambda>x. x \<noteq> c) (rev t @ c # rev s) = rev t"
    by (subst takeWhile_append2) auto
  then show ?thesis by (simp add: after_last_def)
qed

text \<open>A line of \<open>/proc/<pid>/stat\<close> as the kernel prints it.\<close>

definition stat_line :: "int \<Rightarrow> string \<Rightarrow> string \<Rightarrow> int list \<Rightarrow> string" where
  "stat_line pid comm state nums =
     str_int pid @ '' ('' @ comm @ '')'' @ '' '' @ py_join '' '' (state # map str_int nums)"

lemma read_stat_line:
  assumes "pe_stat e pid = Inr (stat_line pid comm [state] nums)"
    and "\<not> is_space state" and "state \<noteq> CHR '')''" and "12 \<le> length nums"
  shows "read_proc_cpu_ns e pid = Inr (Some ((nums ! 10 + nums ! 11) * 1000000000 div hz e))"
proof -
  let ?fields = "[state] # map str_int nums"
  have "after_last (CHR '')'') (stat_line pid comm [state] nums) = Some ('' '' @ py_join '' '' ?fields)"
  proof -
    have "CHR '')'' \<notin> set (py_join '' '' ws)" if "\<forall>w\<in>set ws. CHR '')'' \<notin> set w" for ws
      using that by (induction "'' ''" ws rule: py_join.induct) auto
    moreover have "\<forall>w\<in>set ?fields. CHR '')'' \<notin> set w"
      using assms(3) str_int_chars(3) by auto
    ultimately have "CHR '')'' \<notin> set (py_join '' '' ?fields)" by blast
    then show ?thesis
      using after_last_append [of "CHR '')''" "'' '' @ py_join '' '' ?fields" "str_int pid @ '' ('' @ comm"]
      by (simp add: stat_line_def)
  qed
  moreover have "split_space ('' '' @ py_join '' '' ?fields) = ?fields"
    using assms(2) str_int_chars(2) by (intro split_space_join) auto
  moreover have "py_get ?fields 11 = Inr (str_int (nums ! 10))" "py_get ?fields 12 = Inr (str_int (nums ! 11))"
    using assms(4) by (simp_all add: py_get_def)
  ultimately show ?thesis
    using assms(1) by (simp add: read_proc_cpu_ns_def ticks_to_ns_def)
qed

text \<open>The CPU time of a process is read from its \<open>stat\<close> line whatever its name is, also when
  the name has spaces and parentheses: it is the sum of the fields 14 and 15 (user and system time)
  in clock ticks, converted to nanoseconds.\<close>

theorem cpu_time_read:
  assumes "pe_stat e pid = Inr (stat_line pid comm [state] nums)"
    and "\<not> is_space state" and "state \<noteq> CHR '')''" and "12 \<le> length nums"
  shows "read_proc_cpu_ns e pid = Inr (Some ((nums ! 10 + nums ! 11) * 1000000000 div hz e))"
  using assms by (rule read_stat_line)

definition demo_proc :: proc_env where
  "demo_proc =
     \<lparr>pe_list = Inr [''self'', ''812'', ''77'', ''1234''],
      pe_comm = (\<lambda>p. if p = ''77'' then Inl (OSError 2) else Inr ''bluetoothd ''),
      pe_stat = (\<lambda>p. Inr (stat_line p ''a) (b'' ''S'' [1, 2, 3, 0, - 1, 4, 0, 0, 0, 0, 7, 5, 0])),
      pe_status = (\<lambda>p. Inr []), pe_hz = Some 100, pe_self = 4\<rparr>"

theorem cpu_time_read_witness: "read_proc_cpu_ns demo_proc 812 = Inr (Some 120000000)"
proof -
  have "read_proc_cpu_ns demo_proc 812 =
    Inr (Some (([1, 2, 3, 0, - 1, 4, 0, 0, 0, 0, 7, 5, 0] ! 10 + [1, 2, 3, 0, - 1, 4, 0, 0, 0, 0, 7, 5, 0] ! 11)
      * 1000000000 div hz demo_proc))"
    by (rule cpu_time_read [of _ _ "''a) (b''" "CHR ''S''"]) (simp_all add: demo_proc_def is_space_def)
  then show ?thesis by (simp add: hz_def demo_proc_def)
qed

definition named_pid :: "proc_env \<Rightarrow> string \<Rightarrow> string \<Rightarrow> bool" where
  "named_pid e comm en \<longleftrightarrow> en \<noteq> [] \<and> list_all is_digit en
     \<and> (case pe_comm e en of Inl _ \<Rightarrow> False | Inr s \<Rightarrow> py_strip s = comm)"

lemma comm_matches_eq:
  "(\<And>en x. en \<in> set es \<Longrightarrow> pe_comm e en = Inl x \<Longrightarrow> is_os_error x) \<Longrightarrow>
   comm_matches e comm es = Inr (map py_int10 (filter (named_pid e comm) es))"
proof (induction es)
  case (Cons en es)
  have IH: "comm_matches e comm es = Inr (map py_int10 (filter (named_pid e comm) es))"
    by (rule Cons.IH) (rule Cons.prems, simp_all)
  show ?case
  proof (cases "pe_comm e en")
    case (Inl x)
    moreover from Inl have "is_os_error x" by (intro Cons.prems [of en]) simp_all
    moreover have "\<not> named_pid e comm en" using Inl by (simp add: named_pid_def)
    ultimately show ?thesis using IH Inl by simp
  next
    case (Inr s)
    then have "named_pid e comm en \<longleftrightarrow> en \<noteq> [] \<and> list_all is_digit en \<and> py_strip s = comm"
      by (simp add: named_pid_def)
    then show ?thesis using IH Inr by simp
  qed
qed simp

text \<open>A daemon's PID is the least of the processes whose name, stripped, is the one asked for;
  processes that end or cannot be read while the table is walked, and entries that are no PIDs, do
  not disturb the search.\<close>

theorem pid_resolved:
  assumes "pe_list e = Inr es" and "\<And>en x. en \<in> set es \<Longrightarrow> pe_comm e en = Inl x \<Longrightarrow> is_os_error x"
  shows "resolve_pid_by_comm e comm = Inr
    (let S = py_int10 ` {en \<in> set es. named_pid e comm en} in if S = {} then None else Some (Min S))"
proof -
  let ?ms = "filter (named_pid e comm) es" and ?S = "py_int10 ` {en \<in> set es. named_pid e comm en}"
  have M: "comm_matches e comm es = Inr (map py_int10 ?ms)" by (rule comm_matches_eq) (rule assms(2))
  have S: "set (map py_int10 ?ms) = ?S" by simp
  then have E: "map py_int10 ?ms = [] \<longleftrightarrow> ?S = {}" by (metis set_empty)
  show ?thesis
    by (simp only: resolve_pid_by_comm_def assms(1) M sum.case rbind_simps S E Let_def) simp
qed

theorem pid_resolved_witness: "resolve_pid_by_comm demo_proc ''bluetoothd'' = Inr (Some 812)"
proof -
  let ?es = "[''self'', ''812'', ''77'', ''1234'']"
  have "resolve_pid_by_comm demo_proc ''bluetoothd'' = Inr
    (let S = py_int10 ` {en \<in> set ?es. named_pid demo_proc ''bluetoothd'' en}
     in if S = {} then None else Some (Min S))"
    by (rule pid_resolved) (auto simp: demo_proc_def split: if_splits)
  moreover have "{en \<in> set ?es. named_pid demo_proc ''bluetoothd'' en} = {''812'', ''1234''}"
  proof -
    have "py_strip ''bluetoothd '' = ''bluetoothd''" by (simp add: py_strip_def strip_by_def is_space_def)
    then have "named_pid demo_proc ''bluetoothd'' ''812''" "named_pid demo_proc ''bluetoothd'' ''1234''"
      "\<not> named_pid demo_proc ''bluetoothd'' ''self''" "\<not> named_pid demo_proc ''bluetoothd'' ''77''"
      by (simp_all add: named_pid_def demo_proc_def is_digit_def)
    then show ?thesis by auto
  qed
  ultimately have "resolve_pid_by_comm demo_proc ''bluetoothd'' = Inr (Some (Min (py_int10 ` {''812'', ''1234''})))"
    by (simp only: Let_def) simp
  then show ?thesis by (simp add: py_int10_def)
qed

text \<open>A snapshot that succeeds has, for each process, what reading its line gave.\<close>

lemma snapshot_read:
  assumes "snapshot e pids = Inr m" "distinct (map fst pids)" "(name, pid) \<in> set pids"
  shows "\<exists>v. read_proc_cpu_ns e pid = Inr v \<and> m name = Some v"
proof -
  obtain kvs where kvs: "rmap (cpu_entry e) pids = Inr kvs" and m: "m = map_of (rev kvs)"
    using assms(1) by (auto simp: snapshot_def rbind_eq_Inr)
  have F: "map fst kvs = map fst pids" using kvs
    by (induction pids arbitrary: kvs) (auto simp: rbind_eq_Inr)
  have "\<exists>v. read_proc_cpu_ns e pid = Inr v \<and> (name, v) \<in> set kvs" using kvs assms(3)
    by (induction pids arbitrary: kvs) (auto simp: rbind_eq_Inr)
  with F  show ?thesis using assms(2) m by (auto intro!: map_of_is_SomeI simp: rev_map [symmetric])
qed

text \<open>The tracker reports, for every process it follows, the difference of the CPU times read at
  the end and at the start, and nothing for one that could not be read at either; the others are
  not affected.\<close>

theorem cpu_usage_reported:
  assumes "tracker_start now e t = (Inr (), t1)" and "tracker_stop now' e' t1 = (Inr (), t2)"
    and "distinct (map fst (ct_pids t))" and "(name, pid) \<in> set (ct_pids t)"
  shows "\<exists>u. map_of (snd (tracker_dict t2)) name = Some u \<and> cu_pid u = pid
    \<and> cu_cpu_ns u = (case (read_proc_cpu_ns e pid, read_proc_cpu_ns e' pid) of
        (Inr (Some a), Inr (Some b)) \<Rightarrow> Some (b - a) | _ \<Rightarrow> None)
    \<and> fst (tracker_dict t2) = now' - now"
proof -
  obtain m where m: "snapshot e (ct_pids t) = Inr m" "t1 = t\<lparr>ct_wall_start := now, ct_start_ns := m\<rparr>"
    using assms(1) by (auto simp: tracker_start_def Let_def split: sum.splits)
  obtain m' where m': "snapshot e' (ct_pids t) = Inr m'" "t2 = t1\<lparr>ct_wall_stop := now', ct_stop_ns := m'\<rparr>"
    using assms(2) m(2) by (auto simp: tracker_stop_def Let_def split: sum.splits)
  obtain v where v: "read_proc_cpu_ns e pid = Inr v" "m name = Some v"
    using snapshot_read [OF m(1) assms(3,4)] by blast
  obtain w where w: "read_proc_cpu_ns e' pid = Inr w" "m' name = Some w"
    using snapshot_read [OF m'(1) assms(3,4)] by blast
  have L: "map_of (map (\<lambda>(n, p). (n, f n p)) ps) name = Some (f name pid)"
    if "distinct (map fst ps)" "(name, pid) \<in> set ps" for f :: "string \<Rightarrow> int \<Rightarrow> cpu_usage" and ps
    using that by (induction ps) (auto simp: rev_image_eqI)
  show ?thesis
    unfolding tracker_dict_def Let_def m' m(2) using v w
    by (simp add: L [OF assms(3,4)] split: option.split)
qed

definition later_proc :: proc_env where
  "later_proc = demo_proc\<lparr>pe_stat := (\<lambda>p. if p = 4 then Inl (OSError 2)
     else Inr (stat_line p ''a) (b'' ''S'' [1, 2, 3, 0, - 1, 4, 0, 0, 0, 0, 9, 6, 0]))\<rparr>"

lemma demo_reads:
  "read_proc_cpu_ns demo_proc p = Inr (Some 120000000)"
  "read_proc_cpu_ns later_proc 812 = Inr (Some 150000000)"
  "read_proc_cpu_ns later_proc 4 = Inr None"
proof -
  have "read_proc_cpu_ns demo_proc p =
    Inr (Some (([1, 2, 3, 0, - 1, 4, 0, 0, 0, 0, 7, 5, 0] ! 10 + [1, 2, 3, 0, - 1, 4, 0, 0, 0, 0, 7, 5, 0] ! 11)
      * 1000000000 div hz demo_proc))"
    by (rule read_stat_line [of _ _ "''a) (b''" "CHR ''S''"]) (simp_all add: demo_proc_def is_space_def)
  then show "read_proc_cpu_ns demo_proc p = Inr (Some 120000000)" by (simp add: hz_def demo_proc_def)
  have "read_proc_cpu_ns later_proc 812 =
    Inr (Some (([1, 2, 3, 0, - 1, 4, 0, 0, 0, 0, 9, 6, 0] ! 10 + [1, 2, 3, 0, - 1, 4, 0, 0, 0, 0, 9, 6, 0] ! 11)
      * 1000000000 div hz later_proc))"
    by (rule read_stat_line [of _ _ "''a) (b''" "CHR ''S''"]) (simp_all add: later_proc_def is_space_def)
  then show "read_proc_cpu_ns later_proc 812 = Inr (Some 150000000)"
    by (simp add: hz_def demo_proc_def later_proc_def)
qed (simp add: read_proc_cpu_ns_def later_proc_def)

text \<open>Between the two readings the daemon used 30 ms, and the other process has ended.\<close>

theorem cpu_usage_reported_witness:
  "let t1 = snd (tracker_start 5 demo_proc (tracker_init demo_proc [(''bluetoothd'', 812)]));
       t2 = snd (tracker_stop 1000000005 later_proc t1)
   in (\<exists>u. map_of (snd (tracker_dict t2)) ''bluetoothd'' = Some u \<and> cu_pid u = 812
        \<and> cu_cpu_ns u = Some 30000000 \<and> fst (tracker_dict t2) = 1000000000)
    \<and> (\<exists>u. map_of (snd (tracker_dict t2)) ''python'' = Some u \<and> cu_pid u = 4
        \<and> cu_cpu_ns u = None \<and> fst (tracker_dict t2) = 1000000000)"
proof -
  let ?t = "tracker_init demo_proc [(''bluetoothd'', 812)]"
  have pids: "ct_pids ?t = [(''bluetoothd'', 812), (''python'', 4)]"
    by (simp add: tracker_init_def demo_proc_def)
  obtain t1 where t1: "tracker_start 5 demo_proc ?t = (Inr (), t1)" "ct_pids t1 = ct_pids ?t"
    by (simp add: tracker_start_def snapshot_def pids demo_reads)
  obtain t2 where t2: "tracker_stop 1000000005 later_proc t1 = (Inr (), t2)"
    by (simp add: tracker_stop_def snapshot_def pids t1(2) demo_reads)
  have "distinct (map fst (ct_pids ?t))" "(''bluetoothd'', 812) \<in> set (ct_pids ?t)" "(''python'', 4) \<in> set (ct_pids ?t)"
    by (simp_all add: pids)
  from cpu_usage_reported [OF t1(1) t2 this(1,2)] cpu_usage_reported [OF t1(1) t2 this(1,3)]
  show ?thesis by (simp add: t1 t2 demo_reads)
qed

end
