(* ===== verification/Bench_Scenarios.thy ===== *)
theory Bench_Scenarios
  imports Bench_Events Bench_Stats Bench_Proc
begin

text \<open>
  \<open>bench/config.py\<close>, \<open>bench/scenarios/*.py\<close> and \<open>bench/runner.py\<close>: the configuration, the three
  scenarios and the matrix of stacks and scenarios.  A stack is the record \<open>stack\<close> of its operations
  (the protocol \<open>Stack\<close> of \<open>bench/stacks/base.py\<close>) over a state \<open>'s\<close> that holds everything behind it,
  with the clock and the process table; a session handle is a value of \<open>'h\<close>.  Modules are loaded by
  name, so the loader is a parameter.

  Durations are nanoseconds.  A generator is run to its end before its events are processed, which
  the events cannot observe: they carry their times.  An error of a cell keeps the exception where
  the code keeps its text.
\<close>

section \<open>Configuration\<close>

record bench_config =
  cf_target :: "string option"
  cf_adapter :: string
  cf_peripheral_adapter :: "string option"
  cf_mode :: string
  cf_use_mock_peripheral :: bool
  cf_duration :: int
  cf_rtt_iters :: int
  cf_warmup_iters :: int
  cf_warmup :: int
  cf_notify_rate_hz :: int
  cf_payload_size :: int
  cf_scenarios :: "string list"
  cf_stacks :: "string list"
  cf_isolate_adapter :: bool
  cf_coexistence :: string
  cf_results_dir :: string
  cf_run_id :: "string option"
  cf_char_read_uuid :: string
  cf_char_write_uuid :: string
  cf_char_notify_uuid :: string

definition CHR_READ_UUID :: string where "CHR_READ_UUID = ''0000fbe1-0000-1000-8000-00805f9b34fb''"
definition CHR_WRITE_UUID :: string where "CHR_WRITE_UUID = ''0000fbe2-0000-1000-8000-00805f9b34fb''"
definition CHR_NOTIFY_UUID :: string where "CHR_NOTIFY_UUID = ''0000fbe3-0000-1000-8000-00805f9b34fb''"

definition default_config :: bench_config where
  "default_config =
     \<lparr>cf_target = None, cf_adapter = ''hci0'', cf_peripheral_adapter = None, cf_mode = ''integration'',
      cf_use_mock_peripheral = False, cf_duration = 10000000000, cf_rtt_iters = 1000, cf_warmup_iters = 50,
      cf_warmup = 2000000000, cf_notify_rate_hz = 200, cf_payload_size = 20,
      cf_scenarios = [''advert'', ''read_write'', ''notify''],
      cf_stacks = [''raw_l2cap'', ''raw_dbus'', ''lib_bluek'', ''lib_bleak''], cf_isolate_adapter = False,
      cf_coexistence = ''default'', cf_results_dir = ''bench/results'', cf_run_id = None,
      cf_char_read_uuid = CHR_READ_UUID, cf_char_write_uuid = CHR_WRITE_UUID,
      cf_char_notify_uuid = CHR_NOTIFY_UUID\<rparr>"

text \<open>The parsed command line, and the configuration made of it.\<close>

record cli_args =
  ns_mode :: string
  ns_target :: "string option"
  ns_adapter :: string
  ns_peripheral_adapter :: "string option"
  ns_use_mock_peripheral :: bool
  ns_duration :: int
  ns_rtt_iters :: int
  ns_warmup_iters :: int
  ns_warmup :: int
  ns_notify_rate :: int
  ns_payload_size :: int
  ns_scenarios :: "string list"
  ns_stacks :: "string list"
  ns_isolate_adapter :: bool
  ns_results_dir :: string
  ns_run_id :: "string option"

definition cfg_from_args :: "cli_args \<Rightarrow> bench_config" where
  "cfg_from_args ns = default_config
     \<lparr>cf_target := ns_target ns, cf_adapter := ns_adapter ns, cf_peripheral_adapter := ns_peripheral_adapter ns,
      cf_mode := ns_mode ns, cf_use_mock_peripheral := ns_use_mock_peripheral ns, cf_duration := ns_duration ns,
      cf_rtt_iters := ns_rtt_iters ns, cf_warmup_iters := ns_warmup_iters ns, cf_warmup := ns_warmup ns,
      cf_notify_rate_hz := ns_notify_rate ns, cf_payload_size := ns_payload_size ns,
      cf_scenarios := ns_scenarios ns, cf_stacks := ns_stacks ns, cf_isolate_adapter := ns_isolate_adapter ns,
      cf_coexistence := (if ns_isolate_adapter ns then ''isolated'' else ''default''),
      cf_results_dir := ns_results_dir ns, cf_run_id := ns_run_id ns\<rparr>"


section \<open>Stacks and results\<close>

record ('s, 'h) stack =
  sk_name :: string
  sk_scan :: "int \<Rightarrow> 's \<Rightarrow> advert_event list \<times> unit result \<times> 's"
  sk_setup :: "string \<Rightarrow> ('s, 'h) sx"
  sk_teardown :: "'h \<Rightarrow> ('s, unit) sx"
  sk_read :: "'h \<Rightarrow> string \<Rightarrow> ('s, bytes) sx"
  sk_write :: "'h \<Rightarrow> string \<Rightarrow> bytes \<Rightarrow> ('s, unit) sx"
  sk_notify :: "'h \<Rightarrow> string \<Rightarrow> int \<Rightarrow> 's \<Rightarrow> notify_event list \<times> unit result \<times> 's"
  sk_clock :: "'s \<Rightarrow> int \<times> 's"
  sk_proc :: "'s \<Rightarrow> proc_env"

datatype cell_error = NoTarget | Raised exn | LoadFailed exn | ScenarioFailed exn

datatype cell_note = CoalesceNote | TeardownNote exn

datatype cell_data =
    RateData rate_dict
  | AdvertData rate_dict "int option"
  | RttData "string \<times> summary \<times> int list" "string \<times> summary \<times> int list"

record cell_params =
  cp_mode :: string
  cp_coexistence :: string
  cp_paused :: bool
  cp_duration :: int
  cp_rtt_iters :: int
  cp_warmup_iters :: int
  cp_warmup :: int
  cp_notify_rate_hz :: int
  cp_payload_size :: int
  cp_target_rate_hz :: "int option"

record cell =
  ce_scenario :: string
  ce_stack :: string
  ce_params :: "cell_params option"
  ce_result :: "cell_data option"
  ce_cpu :: "(int \<times> (string \<times> cpu_usage) list) option"
  ce_notes :: "cell_note list"
  ce_error :: "cell_error option"

definition base_result :: "bench_config \<Rightarrow> string \<Rightarrow> string \<Rightarrow> cell" where
  "base_result cfg scenario stack_name =
     \<lparr>ce_scenario = scenario, ce_stack = stack_name,
      ce_params = Some \<lparr>cp_mode = cf_mode cfg, cp_coexistence = cf_coexistence cfg,
        cp_paused = cf_isolate_adapter cfg, cp_duration = cf_duration cfg, cp_rtt_iters = cf_rtt_iters cfg,
        cp_warmup_iters = cf_warmup_iters cfg, cp_warmup = cf_warmup cfg,
        cp_notify_rate_hz = cf_notify_rate_hz cfg, cp_payload_size = cf_payload_size cfg,
        cp_target_rate_hz = None\<rparr>,
      ce_result = None, ce_cpu = None, ce_notes = [], ce_error = None\<rparr>"

text \<open>The short dictionary of a cell that did not run.\<close>

definition error_cell :: "string \<Rightarrow> string \<Rightarrow> cell_error \<Rightarrow> cell" where
  "error_cell scenario stack_name e =
     \<lparr>ce_scenario = scenario, ce_stack = stack_name, ce_params = None, ce_result = None, ce_cpu = None,
      ce_notes = [], ce_error = Some e\<rparr>"

fun cell_outcome :: "unit result \<Rightarrow> cell_error option" where
  "cell_outcome (Inl e) = Some (Raised e)"
| "cell_outcome (Inr _) = None"


section \<open>The CPU tracker in a scenario\<close>

definition cpu_start :: "('s, 'h) stack \<Rightarrow> cpu_tracker \<Rightarrow> 's \<Rightarrow> unit result \<times> cpu_tracker \<times> 's" where
  "cpu_start S cpu s =
     (let (now, s') = sk_clock S s; (r, cpu') = tracker_start now (sk_proc S s') cpu in (r, cpu', s'))"

definition cpu_stop :: "('s, 'h) stack \<Rightarrow> cpu_tracker \<Rightarrow> 's \<Rightarrow> unit result \<times> cpu_tracker \<times> 's" where
  "cpu_stop S cpu s =
     (let (now, s') = sk_clock S s; (r, cpu') = tracker_stop now (sk_proc S s') cpu in (r, cpu', s'))"

text \<open>The body of the \<open>async for\<close> loops: events before the deadline are warm-up, the first other one
  starts the tracker.\<close>

record watch =
  wa_cpu :: cpu_tracker
  wa_started :: bool
  wa_first :: "int option"
  wa_rec :: rate_recorder

fun watch_events :: "('s, 'h) stack \<Rightarrow> int \<Rightarrow> int list \<Rightarrow> (watch \<times> 's, unit) sx" where
  "watch_events S deadline [] (w, s) = (Inr (), (w, s))"
| "watch_events S deadline (t # ts) (w, s) =
     (if t < deadline then watch_events S deadline ts (w, s)
      else
        case (if wa_started w then (Inr (), wa_cpu w, s) else cpu_start S (wa_cpu w) s) of
          (Inl e, cpu, s') \<Rightarrow> (Inl e, (w\<lparr>wa_cpu := cpu\<rparr>, s'))
        | (Inr _, cpu, s') \<Rightarrow>
            watch_events S deadline ts
              (w\<lparr>wa_cpu := cpu, wa_started := True,
                 wa_first := (case wa_first w of None \<Rightarrow> Some (t - deadline) | Some x \<Rightarrow> Some x),
                 wa_rec := rate_record t (wa_rec w)\<rparr>, s'))"

definition watch_init :: "string \<Rightarrow> cpu_tracker \<Rightarrow> watch" where
  "watch_init name cpu = \<lparr>wa_cpu = cpu, wa_started = False, wa_first = None, wa_rec = rate_init name\<rparr>"

text \<open>\<open>if cpu_started: cpu.stop(); out["cpu"] = cpu.to_dict()\<close>.\<close>

definition watch_stop :: "('s, 'h) stack \<Rightarrow> watch \<Rightarrow> cell \<Rightarrow> ('s, cell) sx" where
  "watch_stop S w out s =
     (if wa_started w
      then (case cpu_stop S (wa_cpu w) s of
              (Inl e, _, s') \<Rightarrow> (Inl e, s')
            | (Inr _, cpu, s') \<Rightarrow> (Inr (out\<lparr>ce_cpu := Some (tracker_dict cpu)\<rparr>), s'))
      else (Inr out, s))"

text \<open>The \<open>try\<close> block around a generator: an exception of the body comes before one of the generator.\<close>

definition watch_result :: "unit result \<Rightarrow> unit result \<Rightarrow> cell_error option" where
  "watch_result body gen = cell_outcome (rbind body (\<lambda>_. gen))"

text \<open>From the loop to the end of the \<open>finally\<close> block of the tracker.\<close>

definition watched :: "('s, 'h) stack \<Rightarrow> string \<Rightarrow> cpu_tracker \<Rightarrow> int \<Rightarrow> int list \<Rightarrow> unit result \<Rightarrow> cell
    \<Rightarrow> ('s, cell \<times> watch) sx" where
  "watched S name cpu deadline ts gen out s =
     (let (body, (w, s1)) = watch_events S deadline ts (watch_init name cpu, s);
          (r, s2) = watch_stop S w (out\<lparr>ce_error := watch_result body gen\<rparr>) s1
      in (rbind r (\<lambda>c. Inr (c, w)), s2))"


section \<open>The scenarios\<close>

definition run_advert :: "('s, 'h) stack \<Rightarrow> bench_config \<Rightarrow> ('s, cell) sx" where
  "run_advert S cfg s =
     (let out = base_result cfg ''advert'' (sk_name S);
          out1 = (if ce_stack out \<in> {''raw_dbus'', ''lib_bleak''}
                  then out\<lparr>ce_notes := ce_notes out @ [CoalesceNote]\<rparr> else out);
          (now, s1) = sk_clock S s;
          deadline = now + cf_warmup cfg
      in case for_default_pids (sk_proc S s1) of
           Inl e \<Rightarrow> (Inl e, s1)
         | Inr cpu \<Rightarrow>
             (let (evs, gen, s2) = sk_scan S (cf_warmup cfg + cf_duration cfg) s1
              in sx_bind (watched S ''adverts'' cpu deadline (map ae_t_ns evs) gen out1) (\<lambda>(out2, w) s3.
                   (Inr (out2\<lparr>ce_result := Some (AdvertData (rate_to_dict (wa_rec w)) (wa_first w))\<rparr>), s3)) s2))"

text \<open>\<open>await stack.teardown(handle)\<close> with its \<open>except\<close>.\<close>

definition teardown_noted :: "('s, 'h) stack \<Rightarrow> 'h \<Rightarrow> cell \<Rightarrow> 's \<Rightarrow> cell \<times> 's" where
  "teardown_noted S h out s =
     (case sk_teardown S h s of
        (Inl e, s') \<Rightarrow> (out\<lparr>ce_notes := ce_notes out @ [TeardownNote e]\<rparr>, s')
      | (Inr _, s') \<Rightarrow> (out, s'))"

definition run_notify :: "('s, 'h) stack \<Rightarrow> bench_config \<Rightarrow> string \<Rightarrow> ('s, cell) sx" where
  "run_notify S cfg target =
     sx_bind (sk_setup S target) (\<lambda>h s.
       let base = base_result cfg ''notify'' (sk_name S);
           out = base\<lparr>ce_params := map_option (\<lambda>p. p\<lparr>cp_target_rate_hz := Some (cf_notify_rate_hz cfg)\<rparr>)
                                    (ce_params base)\<rparr>;
           (now, s1) = sk_clock S s;
           deadline = now + cf_warmup cfg
       in case for_default_pids (sk_proc S s1) of
            Inl e \<Rightarrow> (Inl e, s1)
          | Inr cpu \<Rightarrow>
              (let (evs, gen, s2) = sk_notify S h (cf_char_notify_uuid cfg) (cf_warmup cfg + cf_duration cfg) s1
               in sx_bind (watched S ''notify'' cpu deadline (map ne_t_ns evs) gen out) (\<lambda>(out2, w) s3.
                    let (out3, s4) = teardown_noted S h out2 s3
                    in (Inr (out3\<lparr>ce_result := Some (RateData (rate_to_dict (wa_rec w)))\<rparr>), s4)) s2))"

fun warmup_rounds :: "('s, 'h) stack \<Rightarrow> bench_config \<Rightarrow> 'h \<Rightarrow> bytes \<Rightarrow> nat \<Rightarrow> ('s, unit) sx" where
  "warmup_rounds S cfg h payload 0 = sx_lift (Inr ())"
| "warmup_rounds S cfg h payload (Suc n) =
     sx_bind (sk_read S h (cf_char_read_uuid cfg)) (\<lambda>_.
     sx_bind (sk_write S h (cf_char_write_uuid cfg) payload) (\<lambda>_. warmup_rounds S cfg h payload n))"

text \<open>\<open>t0 = perf_ns(); await ...; t1 = perf_ns(); rec.record(t0, t1)\<close>.\<close>

definition timed :: "('s, 'h) stack \<Rightarrow> ('s, 'a) sx \<Rightarrow> latency_recorder \<Rightarrow> ('s, latency_recorder) sx" where
  "timed S f rec s =
     (let (t0, s1) = sk_clock S s
      in case f s1 of
           (Inl e, s2) \<Rightarrow> (Inl e, s2)
         | (Inr _, s2) \<Rightarrow> (let (t1, s3) = sk_clock S s2 in (Inr (latency_record t0 t1 rec), s3)))"

fun rtt_rounds :: "('s, 'h) stack \<Rightarrow> bench_config \<Rightarrow> 'h \<Rightarrow> bytes \<Rightarrow> nat \<Rightarrow> latency_recorder \<times> latency_recorder
    \<Rightarrow> ('s, latency_recorder \<times> latency_recorder) sx" where
  "rtt_rounds S cfg h payload 0 recs = sx_lift (Inr recs)"
| "rtt_rounds S cfg h payload (Suc n) recs =
     sx_bind (timed S (sk_read S h (cf_char_read_uuid cfg)) (fst recs)) (\<lambda>rd.
     sx_bind (timed S (sk_write S h (cf_char_write_uuid cfg) payload) (snd recs)) (\<lambda>wr.
       rtt_rounds S cfg h payload n (rd, wr)))"

definition byte_pattern :: "int \<Rightarrow> bytes" where
  "byte_pattern n = map (\<lambda>i. of_nat (i mod 256)) [0..<nat n]"

definition run_read_write_body ::
  "('s, 'h) stack \<Rightarrow> bench_config \<Rightarrow> 'h \<Rightarrow> cell \<Rightarrow> ('s, cell) sx" where
  "run_read_write_body S cfg h out =
     (let payload = byte_pattern (cf_payload_size cfg) in
      sx_bind (warmup_rounds S cfg h payload (nat (cf_warmup_iters cfg))) (\<lambda>_ s1.
        case for_default_pids (sk_proc S s1) of
          Inl e \<Rightarrow> (Inl e, s1)
        | Inr cpu \<Rightarrow>
            (case cpu_start S cpu s1 of
               (Inl e, _, s2) \<Rightarrow> (Inl e, s2)
             | (Inr _, cpu1, s2) \<Rightarrow>
                 sx_bind (rtt_rounds S cfg h payload (nat (cf_rtt_iters cfg))
                            (latency_init ''read_rtt_ns'', latency_init ''write_rtt_ns'')) (\<lambda>recs s3.
                   case cpu_stop S cpu1 s3 of
                     (Inl e, _, s4) \<Rightarrow> (Inl e, s4)
                   | (Inr _, cpu2, s4) \<Rightarrow>
                       (Inr (out\<lparr>ce_result := Some (RttData (latency_dict (fst recs)) (latency_dict (snd recs))),
                                 ce_cpu := Some (tracker_dict cpu2)\<rparr>), s4)) s2)))"

definition run_read_write :: "('s, 'h) stack \<Rightarrow> bench_config \<Rightarrow> string \<Rightarrow> ('s, cell) sx" where
  "run_read_write S cfg target =
     sx_bind (sk_setup S target) (\<lambda>h s.
       let out = base_result cfg ''read_write'' (sk_name S);
           (r, s1) = run_read_write_body S cfg h out s;
           out1 = (case r of Inl e \<Rightarrow> out\<lparr>ce_error := Some (Raised e)\<rparr> | Inr out' \<Rightarrow> out');
           (out2, s2) = teardown_noted S h out1 s1
       in (Inr out2, s2))"


section \<open>The runner\<close>

definition resolve_stacks :: "bench_config \<Rightarrow> string list" where
  "resolve_stacks cfg = (if cf_mode cfg = ''micro'' then [''micro_fake''] else cf_stacks cfg)"

definition run_scenario :: "string \<Rightarrow> ('s, 'h) stack \<Rightarrow> bench_config \<Rightarrow> ('s, cell) sx" where
  "run_scenario scenario S cfg s =
     (if scenario \<notin> {''advert'', ''read_write'', ''notify''} then (Inl KeyError, s)
      else if scenario = ''advert'' then run_advert S cfg s
      else
        case cf_target cfg of
          Some (c # cs) \<Rightarrow>
            if scenario = ''read_write'' then run_read_write S cfg (c # cs) s else run_notify S cfg (c # cs) s
        | _ \<Rightarrow> (Inr (error_cell scenario (sk_name S) NoTarget), s))"

definition run_cell :: "string \<Rightarrow> ('s, 'h) stack \<Rightarrow> bench_config \<Rightarrow> string \<Rightarrow> 's \<Rightarrow> cell \<times> 's" where
  "run_cell stack_name S cfg scenario s =
     (case run_scenario scenario S cfg s of
        (Inl e, s') \<Rightarrow> (error_cell scenario stack_name (ScenarioFailed e), s')
      | (Inr c, s') \<Rightarrow> (c, s'))"

fun run_cells :: "string \<Rightarrow> ('s, 'h) stack \<Rightarrow> bench_config \<Rightarrow> string list \<Rightarrow> 's \<Rightarrow> cell list \<times> 's" where
  "run_cells stack_name S cfg [] s = ([], s)"
| "run_cells stack_name S cfg (x # xs) s =
     (let (c, s1) = run_cell stack_name S cfg x s; (cs, s2) = run_cells stack_name S cfg xs s1 in (c # cs, s2))"

text \<open>The loader makes a stack of a name and a configuration, or raises.\<close>

fun run_stacks :: "(string \<Rightarrow> bench_config \<Rightarrow> ('s, ('s, 'h) stack) sx) \<Rightarrow> bench_config \<Rightarrow> string list \<Rightarrow> 's
    \<Rightarrow> cell list \<times> 's" where
  "run_stacks load cfg [] s = ([], s)"
| "run_stacks load cfg (n # ns) s =
     (let (cs, s1) = (case load n cfg s of
            (Inl e, s') \<Rightarrow> ([error_cell ''*'' n (LoadFailed e)], s')
          | (Inr S, s') \<Rightarrow> run_cells n S cfg (cf_scenarios cfg) s');
          (rest, s2) = run_stacks load cfg ns s1
      in (cs @ rest, s2))"

definition run_matrix :: "(string \<Rightarrow> bench_config \<Rightarrow> ('s, ('s, 'h) stack) sx) \<Rightarrow> bench_config \<Rightarrow> 's
    \<Rightarrow> cell list \<times> 's" where
  "run_matrix load cfg = run_stacks load cfg (resolve_stacks cfg)"

definition exit_code :: "cell list \<Rightarrow> int" where
  "exit_code results = (if list_ex (\<lambda>c. ce_error c \<noteq> None) results then 1 else 0)"


section \<open>What a run reports\<close>

definition same_label :: "cell \<Rightarrow> cell \<Rightarrow> bool" where
  "same_label c d \<longleftrightarrow> ce_scenario c = ce_scenario d \<and> ce_stack c = ce_stack d"

lemma same_label_updates [simp]:
  "same_label c (d\<lparr>ce_result := x1\<rparr>) = same_label c d" "same_label c (d\<lparr>ce_cpu := x2\<rparr>) = same_label c d"
  "same_label c (d\<lparr>ce_notes := x3\<rparr>) = same_label c d" "same_label c (d\<lparr>ce_error := x4\<rparr>) = same_label c d"
  "same_label c (d\<lparr>ce_params := x5\<rparr>) = same_label c d" "same_label c c"
  by (simp_all add: same_label_def)

lemma teardown_label: "same_label out (fst (teardown_noted S h out s))"
  by (simp add: teardown_noted_def split: prod.split sum.split)

lemma watched_label: "watched S name cpu deadline ts gen out s = (Inr (c, w), s') \<Longrightarrow> same_label out c"
  by (auto simp: watched_def watch_stop_def rbind_eq_Inr split: if_splits prod.splits sum.splits)

lemma body_label: "run_read_write_body S cfg h out s = (Inr c, s') \<Longrightarrow> same_label out c"
  by (auto simp: run_read_write_body_def sx_bind_def Let_def split: prod.splits sum.splits)

lemma same_label_trans: "same_label c d \<Longrightarrow> same_label d e \<Longrightarrow> same_label c e"
  by (simp add: same_label_def)

text \<open>The two scenarios step by step, up to the loop over the events.\<close>

lemma run_advert_steps:
  assumes "sk_clock S s = (now, s1)" "for_default_pids (sk_proc S s1) = Inr cpu"
    and "sk_scan S (cf_warmup cfg + cf_duration cfg) s1 = (evs, gen, s2)"
  shows "\<exists>out. same_label (base_result cfg ''advert'' (sk_name S)) out \<and> run_advert S cfg s =
    sx_bind (watched S ''adverts'' cpu (now + cf_warmup cfg) (map ae_t_ns evs) gen out) (\<lambda>(out2, w) s3.
      (Inr (out2\<lparr>ce_result := Some (AdvertData (rate_to_dict (wa_rec w)) (wa_first w))\<rparr>), s3)) s2"
proof -
  let ?b = "base_result cfg ''advert'' (sk_name S)"
  let ?out = "if ce_stack ?b \<in> {''raw_dbus'', ''lib_bleak''} then ?b\<lparr>ce_notes := ce_notes ?b @ [CoalesceNote]\<rparr> else ?b"
  have "same_label ?b ?out" by simp
  then show ?thesis
    unfolding run_advert_def Let_def assms prod.case sum.case by blast
qed

lemma run_advert_label:
  assumes "run_advert S cfg s = (Inr c, s')"
  shows "same_label (base_result cfg ''advert'' (sk_name S)) c"
proof -
  obtain now s1 where 1: "sk_clock S s = (now, s1)" by (cases "sk_clock S s")
  obtain cpu where 2: "for_default_pids (sk_proc S s1) = Inr cpu"
    using assms 1 by (cases "for_default_pids (sk_proc S s1)") (simp_all add: run_advert_def)
  obtain evs gen s2 where 3: "sk_scan S (cf_warmup cfg + cf_duration cfg) s1 = (evs, gen, s2)"
    by (metis prod.exhaust)
  from run_advert_steps [OF 1 2 3] obtain out where out: "same_label (base_result cfg ''advert'' (sk_name S)) out"
    "run_advert S cfg s = sx_bind (watched S ''adverts'' cpu (now + cf_warmup cfg) (map ae_t_ns evs) gen out)
      (\<lambda>(out2, w) s3. (Inr (out2\<lparr>ce_result := Some (AdvertData (rate_to_dict (wa_rec w)) (wa_first w))\<rparr>), s3)) s2"
    by blast
  obtain r s3 where w: "watched S ''adverts'' cpu (now + cf_warmup cfg) (map ae_t_ns evs) gen out s2 = (r, s3)"
    by (cases "watched S ''adverts'' cpu (now + cf_warmup cfg) (map ae_t_ns evs) gen out s2")
  with assms out(2) obtain out2 x where r: "r = Inr (out2, x)" by (cases r) (auto simp: sx_bind_def)
  from watched_label [OF w [unfolded r]] out assms w r show ?thesis
    by (auto simp: sx_bind_def intro: same_label_trans)
qed

lemma run_notify_label:
  assumes "run_notify S cfg x s = (Inr c, s')"
  shows "same_label (base_result cfg ''notify'' (sk_name S)) c"
proof -
  let ?b = "base_result cfg ''notify'' (sk_name S)"
  let ?out = "?b\<lparr>ce_params := map_option (\<lambda>p. p\<lparr>cp_target_rate_hz := Some (cf_notify_rate_hz cfg)\<rparr>) (ce_params ?b)\<rparr>"
  obtain h s0 where 0: "sk_setup S x s = (Inr h, s0)"
    using assms by (cases "sk_setup S x s"; cases "fst (sk_setup S x s)") (simp_all add: run_notify_def sx_bind_def)
  obtain now s1 where 1: "sk_clock S s0 = (now, s1)" by (cases "sk_clock S s0")
  obtain cpu where 2: "for_default_pids (sk_proc S s1) = Inr cpu"
    using assms 0 1 by (cases "for_default_pids (sk_proc S s1)") (simp_all add: run_notify_def sx_bind_def)
  obtain evs gen s2 where 3: "sk_notify S h (cf_char_notify_uuid cfg) (cf_warmup cfg + cf_duration cfg) s1 = (evs, gen, s2)"
    by (metis prod.exhaust)
  obtain r s3 where w: "watched S ''notify'' cpu (now + cf_warmup cfg) (map ne_t_ns evs) gen ?out s2 = (r, s3)"
    by (cases "watched S ''notify'' cpu (now + cf_warmup cfg) (map ne_t_ns evs) gen ?out s2")
  have "run_notify S cfg x s = sx_bind (watched S ''notify'' cpu (now + cf_warmup cfg) (map ne_t_ns evs) gen ?out)
      (\<lambda>(out2, w) s3. let (out3, s4) = teardown_noted S h out2 s3
         in (Inr (out3\<lparr>ce_result := Some (RateData (rate_to_dict (wa_rec w)))\<rparr>), s4)) s2"
    unfolding run_notify_def sx_bind_def [of "sk_setup S x"] Let_def 0 1 2 3 prod.case sum.case ..
  note steps = assms [unfolded this]
  from steps w obtain out2 y where r: "r = Inr (out2, y)" by (cases r) (auto simp: sx_bind_def)
  obtain out3 s4 where t: "teardown_noted S h out2 s3 = (out3, s4)" by (cases "teardown_noted S h out2 s3")
  have o: "same_label ?b ?out" by simp
  have 4: "same_label ?out out2" using watched_label [OF w [unfolded r]] .
  have 5: "same_label out2 out3" using teardown_label [of out2 S h s3] t by simp
  obtain d where c: "c = out3\<lparr>ce_result := d\<rparr>" using steps w r t by (auto simp: sx_bind_def)
  show ?thesis unfolding c same_label_updates(1) by (rule same_label_trans [OF same_label_trans [OF o 4] 5])
qed

lemma run_read_write_label:
  assumes "run_read_write S cfg x s = (Inr c, s')"
  shows "same_label (base_result cfg ''read_write'' (sk_name S)) c"
proof -
  let ?b = "base_result cfg ''read_write'' (sk_name S)"
  obtain h s1 where s: "sk_setup S x s = (Inr h, s1)"
    using assms by (auto simp: run_read_write_def sx_bind_def split: sum.splits prod.splits)
  obtain r s2 where r: "run_read_write_body S cfg h ?b s1 = (r, s2)"
    by (cases "run_read_write_body S cfg h ?b s1")
  let ?out = "case r of Inl e \<Rightarrow> ?b\<lparr>ce_error := Some (Raised e)\<rparr> | Inr out' \<Rightarrow> out'"
  have o: "same_label ?b ?out" using body_label [of S cfg h ?b s1] r by (cases r) auto
  have c: "c = fst (teardown_noted S h ?out s2)"
    using assms s r by (simp add: run_read_write_def sx_bind_def Let_def split_beta)
  show ?thesis unfolding c by (rule same_label_trans [OF o teardown_label])
qed

lemma run_scenario_cases:
  assumes "run_scenario scenario S cfg s = (Inr c, s')"
  obtains (advert) "scenario = ''advert''" "run_advert S cfg s = (Inr c, s')"
    | (read_write) x where "scenario = ''read_write''" "run_read_write S cfg x s = (Inr c, s')"
    | (notify) x where "scenario = ''notify''" "run_notify S cfg x s = (Inr c, s')"
    | (no_target) "c = error_cell scenario (sk_name S) NoTarget"
proof (cases "scenario = ''advert'' \<or> cf_target cfg = None \<or> cf_target cfg = Some []")
  case True
  then show ?thesis using assms advert no_target unfolding run_scenario_def
    by (cases "scenario = ''advert''") (auto split: if_splits)
next
  case False
  then obtain y ys where t: "cf_target cfg = Some (y # ys)" by (cases "cf_target cfg"; cases "the (cf_target cfg)") auto
  have "scenario = ''read_write'' \<or> scenario = ''notify''"
    using assms False unfolding run_scenario_def by (simp split: if_splits)
  then show ?thesis using assms read_write notify t unfolding run_scenario_def by (elim disjE) simp_all
qed

lemma run_scenario_label:
  assumes "run_scenario scenario S cfg s = (Inr c, s')"
  shows "ce_scenario c = scenario \<and> ce_stack c = sk_name S"
proof -
  have l: "ce_scenario c = x \<and> ce_stack c = sk_name S" if "same_label (base_result cfg x (sk_name S)) c" for x
    using that by (simp add: same_label_def base_result_def)
  from assms show ?thesis
  proof (cases rule: run_scenario_cases)
    case advert
    then show ?thesis using l [OF run_advert_label] by blast
  next
    case read_write
    then show ?thesis using l [OF run_read_write_label] by blast
  next
    case notify
    then show ?thesis using l [OF run_notify_label] by blast
  next
    case no_target
    then show ?thesis by (simp add: error_cell_def)
  qed
qed

lemma run_cells_labels:
  assumes "sk_name S = n"
  shows "map (\<lambda>c. (ce_stack c, ce_scenario c)) (fst (run_cells n S cfg xs s)) = map (Pair n) xs"
proof (induction xs arbitrary: s)
  case (Cons x xs)
  have "ce_stack (fst (run_cell n S cfg x s)) = n \<and> ce_scenario (fst (run_cell n S cfg x s)) = x"
    using assms run_scenario_label [of x S cfg s]
    by (auto simp: run_cell_def error_cell_def split: prod.split sum.split)
  with Cons.IH show ?case by (simp add: split_beta Let_def)
qed simp

text \<open>The loader gives a stack of the name it was asked for.\<close>

definition names_stacks :: "(string \<Rightarrow> bench_config \<Rightarrow> ('s, ('s, 'h) stack) sx) \<Rightarrow> bool" where
  "names_stacks load \<longleftrightarrow> (\<forall>n cfg s S s'. load n cfg s = (Inr S, s') \<longrightarrow> sk_name S = n)"

lemma run_stacks_labels:
  assumes "names_stacks load"
  shows "list_ex (\<lambda>c. ce_error c \<noteq> None) (fst (run_stacks load cfg ns s))
    \<or> map (\<lambda>c. (ce_stack c, ce_scenario c)) (fst (run_stacks load cfg ns s))
        = concat (map (\<lambda>n. map (Pair n) (cf_scenarios cfg)) ns)"
proof (induction ns arbitrary: s)
  case (Cons n ns)
  obtain r s1 where l: "load n cfg s = (r, s1)" by (cases "load n cfg s")
  show ?case
  proof (cases r)
    case (Inl e)
    then show ?thesis using l by (simp add: split_beta Let_def error_cell_def)
  next
    case (Inr S)
    then have "sk_name S = n" using assms l unfolding names_stacks_def by blast
    from run_cells_labels [OF this, of cfg "cf_scenarios cfg" s1] show ?thesis
      using l Inr Cons.IH [of "snd (run_cells n S cfg (cf_scenarios cfg) s1)"]
      by (auto simp: split_beta Let_def)
  qed
qed simp

text \<open>C33.  The exit code tells the truth: it is 0 exactly when no cell has an error, and then every
  scenario of the configuration ran on every stack, once and in order.\<close>

theorem exit_code_complete:
  assumes "names_stacks load" "exit_code (fst (run_matrix load cfg s)) = 0"
  shows "map (\<lambda>c. (ce_stack c, ce_scenario c)) (fst (run_matrix load cfg s))
      = concat (map (\<lambda>n. map (Pair n) (cf_scenarios cfg)) (resolve_stacks cfg))
    \<and> list_all (\<lambda>c. ce_error c = None) (fst (run_matrix load cfg s))"
  using run_stacks_labels [OF assms(1), of cfg "resolve_stacks cfg" s] assms(2)
  by (auto simp: exit_code_def run_matrix_def list_ex_iff list_all_iff split: if_splits)

text \<open>The recorder of a scenario holds the times of the events at or after the deadline, unless the
  tracker failed to start.\<close>

lemma watch_events_times:
  assumes "watch_events S deadline ts (w, s) = (Inr (), (w', s'))"
  shows "er_timestamps (wa_rec w') = er_timestamps (wa_rec w) @ filter (\<lambda>t. deadline \<le> t) ts
    \<and> er_name (wa_rec w') = er_name (wa_rec w)
    \<and> wa_first w' = (case wa_first w of
         None \<Rightarrow> map_option (\<lambda>t. t - deadline) (find (\<lambda>t. deadline \<le> t) ts) | Some x \<Rightarrow> Some x)"
  using assms
proof (induction S deadline ts "(w, s)" arbitrary: w s rule: watch_events.induct)
  case (2 S deadline t ts w s)
  show ?case
  proof (cases "t < deadline")
    case True
    then have "\<not> deadline \<le> t" by simp
    with 2 True show ?thesis by (simp split: option.split)
  next
    case False
    obtain r cpu s1 where c: "(if wa_started w then (Inr (), wa_cpu w, s) else cpu_start S (wa_cpu w) s) = (r, cpu, s1)"
      by (metis prod.exhaust)
    with 2(3) False obtain u where r: "r = Inr u" by (cases r) auto
    from 2(2) [OF False c [symmetric] r] 2(3) c r False show ?thesis
      by (auto simp: rate_record_def split: option.splits)
  qed
qed (simp split: option.split)

text \<open>A scan scenario without an error counts exactly the advertisements after the warm-up, and the
  time to the first device is that of the first of them.\<close>

theorem advert_counts:
  assumes "run_advert S cfg s = (Inr c, s')" "ce_error c = None"
    and "sk_clock S s = (now, s1)" "sk_scan S (cf_warmup cfg + cf_duration cfg) s1 = (evs, gen, s2)"
  shows "\<exists>d. ce_result c = Some (AdvertData d (map_option (\<lambda>t. t - (now + cf_warmup cfg))
         (find (\<lambda>t. now + cf_warmup cfg \<le> t) (map ae_t_ns evs))))
    \<and> rd_count d = int (length (filter (\<lambda>ev. now + cf_warmup cfg \<le> ae_t_ns ev) evs)) \<and> gen = Inr ()"
proof -
  obtain cpu where cpu: "for_default_pids (sk_proc S s1) = Inr cpu"
    using assms(1,3) by (cases "for_default_pids (sk_proc S s1)") (simp_all add: run_advert_def)
  let ?dl = "now + cf_warmup cfg"
  from run_advert_steps [OF assms(3) cpu assms(4)] obtain out where out: "run_advert S cfg s =
      sx_bind (watched S ''adverts'' cpu ?dl (map ae_t_ns evs) gen out)
      (\<lambda>(out2, w) s3. (Inr (out2\<lparr>ce_result := Some (AdvertData (rate_to_dict (wa_rec w)) (wa_first w))\<rparr>), s3)) s2"
    by blast
  obtain body w s3 where b: "watch_events S ?dl (map ae_t_ns evs) (watch_init ''adverts'' cpu, s2) = (body, (w, s3))"
    by (metis prod.exhaust)
  have e: "watch_result body gen = None \<and> ce_result c = Some (AdvertData (rate_to_dict (wa_rec w)) (wa_first w))"
    using assms(1,2) out b
    by (auto simp: sx_bind_def watched_def watch_stop_def rbind_eq_Inr split: prod.splits sum.splits if_splits)
  then have ok: "body = Inr ()" "gen = Inr ()" by (cases body; cases gen; simp add: watch_result_def)+
  have "rd_count (rate_to_dict x) = int (length (er_timestamps x))" for x
    by (simp add: rate_to_dict_def Let_def)
  then show ?thesis
    using watch_events_times [OF b [unfolded ok]] e ok
    by (simp add: watch_init_def rate_init_def filter_map comp_def)
qed

text \<open>Latency samples: one of each kind per round.\<close>

lemma rtt_rounds_count:
  "rtt_rounds S cfg h payload n recs s = (Inr recs', s') \<Longrightarrow>
   length (lr_samples (fst recs')) = length (lr_samples (fst recs)) + n
   \<and> length (lr_samples (snd recs')) = length (lr_samples (snd recs)) + n
   \<and> lr_name (fst recs') = lr_name (fst recs) \<and> lr_name (snd recs') = lr_name (snd recs)"
proof (induction n arbitrary: recs s)
  case (Suc n)
  have t: "length (lr_samples r') = Suc (length (lr_samples r)) \<and> lr_name r' = lr_name r"
    if "timed S f r s0 = (Inr r', s1)" for f :: "'a \<Rightarrow> 'c result \<times> 'a" and r r' s0 s1
    using that by (auto simp: timed_def latency_record_def Let_def split: prod.splits sum.splits)
  have t': "length (lr_samples r') = Suc (length (lr_samples r)) \<and> lr_name r' = lr_name r"
    if "timed S f r s0 = (Inr r', s1)" for f :: "'a \<Rightarrow> unit result \<times> 'a" and r r' s0 s1
    using that by (auto simp: timed_def latency_record_def Let_def split: prod.splits sum.splits)
  from Suc.prems show ?case
    by (auto simp: sx_bind_def split: prod.splits sum.splits dest!: t t' Suc.IH)
qed simp

end
