(* ===== verification/Bench_Process.thy ===== *)
theory Bench_Process
  imports Bench_Scenarios Hci "HOL-Library.List_Lexorder" "HOL-Library.Char_ord"
begin

text \<open>
  The processes the benchmarks start: \<open>bench/fixtures/bluetoothd.py\<close> (tools that are run to their end),
  \<open>peripheral_supervisor.py\<close> (a peripheral in a child process), what is the package's own in
  \<open>peripheral_bumble.py\<close> and \<open>peripheral_vhci.py\<close>, and \<open>measure/jsonout.py\<close>.

  What the system does is a parameter: which tools there are and how they end (\<open>tools\<close>), what a child
  prints and how it reacts to signals (\<open>child\<close>).  Lines and addresses are ASCII.
\<close>

section \<open>Tools\<close>

text \<open>A tool that runs ends with its exit code and output; \<open>None\<close> stands for the \<open>OSError\<close> and
  \<open>SubprocessError\<close> (a time-out among them) that all callers catch.\<close>

record tools =
  to_have :: "string \<Rightarrow> bool"
  to_run :: "string list \<Rightarrow> (int \<times> string) option"

definition run_ok :: "tools \<Rightarrow> string list \<Rightarrow> bool" where
  "run_ok T cmd = (case to_run T cmd of None \<Rightarrow> False | Some (code, out) \<Rightarrow> code = 0)"

definition disconnect_peripheral :: "tools \<Rightarrow> string \<Rightarrow> bool" where
  "disconnect_peripheral T address =
     (if \<not> to_have T ''bluetoothctl'' then False else run_ok T [''bluetoothctl'', ''disconnect'', address])"

definition hci_index_int :: "string \<Rightarrow> int option" where
  "hci_index_int adapter =
     (if prefix ''hci'' adapter \<and> drop 3 adapter \<noteq> [] \<and> list_all is_digit (drop 3 adapter)
      then Some (py_int10 (drop 3 adapter)) else None)"

definition power_bluetoothd :: "tools \<Rightarrow> string \<Rightarrow> string \<Rightarrow> bool" where
  "power_bluetoothd T state adapter =
     (case hci_index_int adapter of
        None \<Rightarrow> False
      | Some idx \<Rightarrow>
          if \<not> to_have T ''btmgmt'' then False
          else run_ok T [''btmgmt'', ''--index'', str_int idx, ''power'', state])"

definition pause_bluetoothd_on :: "tools \<Rightarrow> string \<Rightarrow> bool" where
  "pause_bluetoothd_on T = power_bluetoothd T ''off''"

definition resume_bluetoothd_on :: "tools \<Rightarrow> string \<Rightarrow> bool" where
  "resume_bluetoothd_on T = power_bluetoothd T ''on''"

definition adapter_down :: "tools \<Rightarrow> string \<Rightarrow> bool" where
  "adapter_down T adapter =
     (if \<not> to_have T ''hciconfig'' then False else run_ok T [''hciconfig'', adapter, ''down''])"

definition adapter_up :: "tools \<Rightarrow> string \<Rightarrow> bool" where
  "adapter_up T adapter =
     (if \<not> to_have T ''hciconfig'' then False else run_ok T [''hciconfig'', adapter, ''up''])"

text \<open>\<open>jsonout._safe_run\<close>: the output without surrounding space, unless it is empty.\<close>

definition safe_run :: "tools \<Rightarrow> string list \<Rightarrow> string option" where
  "safe_run T cmd =
     (case to_run T cmd of
        None \<Rightarrow> None
      | Some (code, out) \<Rightarrow> (let text = py_strip out in if text = [] then None else Some text))"

definition make_run_id :: "string \<Rightarrow> string \<Rightarrow> string" where
  "make_run_id timestamp host = timestamp @ ''_'' @ host"

definition run_path :: "string \<Rightarrow> string \<Rightarrow> string" where
  "run_path results_dir run_id = results_dir @ ''/'' @ run_id @ ''.json''"


section \<open>Children\<close>

text \<open>What \<open>readline\<close> gives, each with the time it takes: an empty line is the end of the output, and when
  the list is exhausted nothing more comes.  At the end: whether the child is still running, whether
  sending a signal raises \<open>ProcessLookupError\<close>, whether it exits in time after the signal.\<close>

record child =
  ch_lines :: "(nat \<times> string) list"
  ch_running :: bool
  ch_gone :: bool
  ch_obeys :: bool

datatype signal = SIGINT | SIGTERM | SIGKILL

datatype 'c process_event = Ran "string list" | Spawned 'c | Sent 'c signal | Reaped 'c

text \<open>\<open>wait_for(proc.wait(), 5)\<close>, then \<open>kill\<close> and \<open>wait\<close>.\<close>

definition reap :: "('c \<Rightarrow> child) \<Rightarrow> 'c \<Rightarrow> 'c process_event list" where
  "reap C c = (if \<not> ch_running (C c) \<or> ch_obeys (C c) then [Reaped c] else [Sent c SIGKILL, Reaped c])"


section \<open>The supervisor of the peripheral\<close>

definition READY_PREFIX :: string where "READY_PREFIX = ''PERIPHERAL_READY ''"

fun read_ready :: "nat \<Rightarrow> (nat \<times> string) list \<Rightarrow> string result" where
  "read_ready left [] = Inl TimeoutError"
| "read_ready left ((d, line_b) # rest) =
     (if left \<le> d then Inl TimeoutError
      else if line_b = [] then Inl RuntimeError
      else
        let line = py_strip line_b
        in if prefix READY_PREFIX line
           then Inr (hd (py_split CHR ''/'' (py_strip (drop (length READY_PREFIX) line))))
           else read_ready (left - d) rest)"

text \<open>The \<open>finally\<close> block: nothing for a child that is known to have ended.\<close>

definition supervisor_finally :: "('c \<Rightarrow> child) \<Rightarrow> 'c \<Rightarrow> 'c process_event list" where
  "supervisor_finally C c =
     (if ch_running (C c) then (if ch_gone (C c) then [] else [Sent c SIGINT]) @ reap C c else [])"

text \<open>The context manager around a body: what happened to the child, and the outcome.  The adapter is
  released first if there is a tool for it.  Spawning may raise.\<close>

definition bumble_peripheral ::
  "tools \<Rightarrow> ('c \<Rightarrow> child) \<Rightarrow> 'c \<Rightarrow> exn option \<Rightarrow> string \<Rightarrow> bool \<Rightarrow> nat \<Rightarrow> (string \<Rightarrow> ('s, 'a) sx)
   \<Rightarrow> ('s \<times> 'c process_event list, 'a) sx" where
  "bumble_peripheral T C c spawn adapter release_adapter startup_timeout body st =
     (let (s, evs0) = st;
          evs = evs0 @ (if release_adapter \<and> to_have T ''hciconfig'' then [Ran [''hciconfig'', adapter, ''down'']] else [])
      in case spawn of
           Some e \<Rightarrow> (Inl e, (s, evs))
         | None \<Rightarrow>
             (let (r, s') = (case read_ready startup_timeout (ch_lines (C c)) of
                    Inl e \<Rightarrow> (Inl e, s)
                  | Inr mac \<Rightarrow> body mac s)
              in (r, (s', evs @ [Spawned c] @ supervisor_finally C c))))"

definition peripheral_cmd :: "string \<Rightarrow> string \<Rightarrow> int \<Rightarrow> int \<Rightarrow> string list" where
  "peripheral_cmd executable adapter payload_size notify_rate_hz =
     [executable, ''-u'', ''-m'', ''bench.fixtures.peripheral_bumble'', ''--hci'', adapter,
      ''--payload-size'', str_int payload_size, ''--notify-rate'', str_int notify_rate_hz]"


section \<open>The peripheral processes\<close>

text \<open>What \<open>peripheral_bumble.serve\<close> prints, and the exit code of its \<open>main\<close> before it serves.\<close>

definition ready_line :: "string \<Rightarrow> string" where
  "ready_line adv_address = READY_PREFIX @ adv_address @ [CHR 0x0A]"

definition bumble_hci_index :: "string \<Rightarrow> (int + int) result" where
  "bumble_hci_index hci =
     (if \<not> prefix ''hci'' hci then Inr (Inl 2) else rbind (py_int (drop 3 hci)) (\<lambda>i. Inr (Inr i)))"

text \<open>What the device serves: its value, the last value written to it, and the payload of its notifications.\<close>

record bumble_app =
  ba_read_value :: bytes
  ba_notify_payload :: bytes
  ba_written :: bytes

definition bumble_serve :: "int \<Rightarrow> bumble_app" where
  "bumble_serve payload_size =
     \<lparr>ba_read_value = byte_pattern payload_size, ba_notify_payload = byte_pattern payload_size, ba_written = []\<rparr>"

definition read_fn :: "bumble_app \<Rightarrow> bytes" where
  "read_fn app = ba_read_value app"

definition write_fn :: "bytes \<Rightarrow> bumble_app \<Rightarrow> bumble_app" where
  "write_fn value app = app\<lparr>ba_written := value\<rparr>"

text \<open>One round of the notification pump of both peripherals: for each connection, every subscriber is
  notified.\<close>

definition pump_burst :: "('conn \<Rightarrow> bool) \<Rightarrow> bytes \<Rightarrow> 'conn list \<Rightarrow> ('conn \<times> bytes) list" where
  "pump_burst subscribed payload connections =
     concat (map (\<lambda>_. map (\<lambda>c. (c, payload)) (filter subscribed connections)) connections)"

text \<open>The sleep after a round, in nanoseconds.\<close>

definition pump_sleep :: "int \<Rightarrow> bool \<Rightarrow> int" where
  "pump_sleep notify_rate_hz connected =
     (if \<not> connected \<or> notify_rate_hz \<le> 0 then 100000000 else 1000000000 div notify_rate_hz)"

text \<open>\<open>MemPipe\<close>, with the packets its sink has got.\<close>

record mem_pipe =
  mp_sink :: "bytes list option"

definition set_packet_sink :: "bytes list \<Rightarrow> mem_pipe \<Rightarrow> mem_pipe" where
  "set_packet_sink sink p = p\<lparr>mp_sink := Some sink\<rparr>"

definition on_packet :: "bytes \<Rightarrow> mem_pipe \<Rightarrow> mem_pipe" where
  "on_packet packet p =
     (case mp_sink p of None \<Rightarrow> p | Some got \<Rightarrow> p\<lparr>mp_sink := Some (got @ [packet])\<rparr>)"

text \<open>\<open>peripheral_vhci._open_vhci_and_resolve_hci\<close>: the listings of the directory before and after the
  controller is made (\<open>None\<close> when it cannot be listed).\<close>

definition listing :: "string list option \<Rightarrow> string list" where
  "listing l = (case l of None \<Rightarrow> [] | Some ns \<Rightarrow> ns)"

fun new_hci :: "string list \<Rightarrow> nat \<Rightarrow> string list option list \<Rightarrow> string option" where
  "new_hci before 0 looks = None"
| "new_hci before (Suc n) looks =
     (let now = (case looks of [] \<Rightarrow> [] | l # _ \<Rightarrow> listing l);
          added = sort (remdups (filter (\<lambda>x. x \<notin> set before) now))
      in case find (\<lambda>x. hci_re x \<noteq> None) added of
           Some x \<Rightarrow> Some x
         | None \<Rightarrow> new_hci before n (tl looks))"

definition resolve_hci :: "string list option \<Rightarrow> string list option list \<Rightarrow> string" where
  "resolve_hci before looks =
     (case new_hci (listing before) 50 looks of None \<Rightarrow> ''hci?'' | Some x \<Rightarrow> x)"



section \<open>The peripheral does not outlive its context\<close>


text \<open>The line the peripheral prints is the one the supervisor waits for.\<close>

definition noise :: "nat \<times> string \<Rightarrow> bool" where
  "noise l \<longleftrightarrow> snd l \<noteq> [] \<and> \<not> prefix READY_PREFIX (py_strip (snd l))"

lemma read_ready_noise:
  "list_all noise ls \<Longrightarrow> sum_list (map fst ls) < left \<Longrightarrow>
   read_ready left (ls @ rest) = read_ready (left - sum_list (map fst ls)) rest"
proof (induction ls arbitrary: left)
  case (Cons l ls)
  obtain d x where l: "l = (d, x)" by fastforce
  then show ?case using Cons by (simp add: noise_def)
qed simp

lemma strip_by_append:
  assumes "x \<noteq> []" "\<not> P (hd x)" "\<not> P (List.last x)" "\<forall>c\<in>set sp. P c"
  shows "strip_by P (x @ sp) = x"
proof -
  have "dropWhile P (x @ sp) = x @ sp" using assms(1,2) by (cases x) auto
  moreover have "dropWhile P (rev sp @ rev x) = rev x"
  proof -
    have "dropWhile P (rev x) = rev x" using assms(1,3) by (cases "rev x") (auto simp: last_rev [symmetric] rev_eq_Cons_iff)
    moreover have "dropWhile P (rev sp @ rev x) = dropWhile P (rev x)"
      using assms(4) by (intro dropWhile_append2) simp
    ultimately show ?thesis by (rule trans [rotated])
  qed
  ultimately show ?thesis by (simp add: strip_by_def)
qed

lemma ready_line_read:
  assumes "mac \<noteq> []" "\<forall>c\<in>set (mac @ kind). \<not> is_space c" "CHR ''/'' \<notin> set mac" "d < left"
    and "kind = [] \<or> (\<exists>k. kind = CHR ''/'' # k)"
  shows "read_ready left ((d, ready_line (mac @ kind)) # rest) = Inr mac"
proof -
  let ?a = "mac @ kind"
  have ne: "?a \<noteq> []" using assms(1) by simp
  have s1: "py_strip (ready_line ?a) = READY_PREFIX @ ?a"
  proof -
    have "\<not> is_space (List.last ?a)" using assms(2) ne last_in_set by blast
    then have "\<not> is_space (List.last (READY_PREFIX @ ?a))" by (subst last_appendR [OF ne])
    moreover have "READY_PREFIX @ ?a \<noteq> []" "\<not> is_space (hd (READY_PREFIX @ ?a))" "\<forall>c\<in>set [CHR 0x0A]. is_space c"
      by (simp_all add: READY_PREFIX_def is_space_def)
    ultimately show ?thesis
      unfolding py_strip_def ready_line_def append_assoc [symmetric] by (intro strip_by_append)
  qed
  have s2: "py_strip ?a = ?a" unfolding py_strip_def by (rule strip_by_id) (use assms(2) in auto)
  have "hd (py_split CHR ''/'' ?a) = mac"
    using assms(5) py_split_append [OF assms(3)] py_split_no_sep [OF assms(3)] by auto
  moreover have "ready_line ?a \<noteq> []" by (simp add: ready_line_def)
  ultimately show ?thesis using assms(4) s1 s2 by (simp add: Let_def)
qed

text \<open>The supervisor gets the address the peripheral announces, without the suffix for its kind,
  after any lines of its log, if the announcement comes in time.\<close>

theorem ready_roundtrip:
  assumes "list_all noise ls" "sum_list (map fst ls) + d < left"
    and "mac \<noteq> []" "\<forall>c\<in>set (mac @ kind). \<not> is_space c" "CHR ''/'' \<notin> set mac"
    and "kind \<in> {[], ''/P'', ''/R''}"
  shows "read_ready left (ls @ (d, ready_line (mac @ kind)) # rest) = Inr mac"
proof -
  have "read_ready left (ls @ (d, ready_line (mac @ kind)) # rest)
      = read_ready (left - sum_list (map fst ls)) ((d, ready_line (mac @ kind)) # rest)"
    using assms(1,2) by (intro read_ready_noise) auto
  also have "\<dots> = Inr mac" using assms(2,6) by (intro ready_line_read assms(3-5)) auto
  finally show ?thesis .
qed

theorem ready_roundtrip_witness:
  "read_ready 10000000000 ([(2000000, ''bumble 0.0.200'')] @ (300000000, ready_line (''F0:F1:F2:F3:F4:F5'' @ ''/R'')) # [])
    = Inr ''F0:F1:F2:F3:F4:F5''"
proof (rule ready_roundtrip)
  show "list_all noise [(2000000, ''bumble 0.0.200'')]"
    by (simp add: noise_def READY_PREFIX_def py_strip_def strip_by_def is_space_def)
qed (simp_all add: is_space_def)

text \<open>The controller that is found is a new one.\<close>

lemma find_mem: "find P xs = Some x \<Longrightarrow> x \<in> set xs \<and> P x"
  by (induction xs) (auto split: if_splits)

lemma new_hci_new:
  "new_hci before n looks = Some x \<Longrightarrow> x \<notin> set before \<and> hci_re x \<noteq> None \<and> (\<exists>l\<in>set looks. x \<in> set (listing l))"
proof (induction n arbitrary: looks)
  case (Suc n)
  let ?now = "case looks of [] \<Rightarrow> [] | l # _ \<Rightarrow> listing l"
  let ?added = "sort (remdups (filter (\<lambda>x. x \<notin> set before) ?now))"
  show ?case
  proof (cases "find (\<lambda>x. hci_re x \<noteq> None) ?added")
    case None
    with Suc.prems have r: "new_hci before n (tl looks) = Some x" by simp
    from Suc.IH [OF r] show ?thesis by (cases looks) auto
  next
    case (Some y)
    then have "y = x" using Suc.prems by simp
    with find_mem [OF Some] have "x \<in> set ?added" "hci_re x \<noteq> None" by blast+
    then show ?thesis by (cases looks) auto
  qed
qed simp

text \<open>Every subscriber is notified as often as there are connections.\<close>

lemma pump_burst_copies:
  "count_list (pump_burst subscribed payload conns) (c, payload)
    = (if subscribed c then length conns * count_list conns c else 0)"
proof -
  have one: "count_list (map (\<lambda>c. (c, payload)) (filter subscribed cs)) (c, payload)
      = (if subscribed c then count_list cs c else 0)" for cs
    by (induction cs) auto
  have "count_list (concat (map (\<lambda>_. map (\<lambda>c. (c, payload)) (filter subscribed conns)) xs)) (c, payload)
      = (if subscribed c then length xs * count_list conns c else 0)" for xs :: "'a list"
    by (induction xs) (simp_all add: one)
  then show ?thesis by (simp add: pump_burst_def)
qed

end
