(* ===== verification/Bench_Json.thy ===== *)
theory Bench_Json
  imports Bench_Scenarios
begin

text \<open>
  JSON values, as \<open>json.load\<close> makes them and \<open>json.dump\<close> writes them, with the operations Python
  has on them; the printing of floats with a fixed number of decimals; and the dictionaries of the
  benchmark results (\<open>to_dict\<close> of the recorders and of the configuration, the cells of a run).

  An integer and a float are different values.  A float \<open>JFloat m k\<close> is \<open>m / 2^k\<close>; infinities, NaN and
  the negative zero are left out (the suite does not write them).  Text is a list of code points.
\<close>

section \<open>Values\<close>

definition uc :: "string \<Rightarrow> ustr" where
  "uc s = map (\<lambda>c. int (of_char c)) s"

datatype json =
    JNull
  | JBool bool
  | JInt int
  | JFloat int nat
  | JStr ustr
  | JList "json list"
  | JObj "(string \<times> json) list"

text \<open>\<open>j.get(key, default)\<close>, \<open>bool(j)\<close>, \<open>j or d\<close> and the iteration over \<open>j\<close>.  A dictionary iterates
  over its keys and a string over its characters.\<close>

fun jget :: "string \<Rightarrow> json \<Rightarrow> json \<Rightarrow> json result" where
  "jget key d (JObj kvs) = Inr (case map_of kvs key of None \<Rightarrow> d | Some v \<Rightarrow> v)"
| "jget key d _ = Inl AttributeError"

fun jtrue :: "json \<Rightarrow> bool" where
  "jtrue JNull = False"
| "jtrue (JBool b) = b"
| "jtrue (JInt i) = (i \<noteq> 0)"
| "jtrue (JFloat m k) = (m \<noteq> 0)"
| "jtrue (JStr s) = (s \<noteq> [])"
| "jtrue (JList xs) = (xs \<noteq> [])"
| "jtrue (JObj kvs) = (kvs \<noteq> [])"

definition jor :: "json \<Rightarrow> json \<Rightarrow> json" where
  "jor j d = (if jtrue j then j else d)"

fun jiter :: "json \<Rightarrow> json list result" where
  "jiter (JList xs) = Inr xs"
| "jiter (JObj kvs) = Inr (map (JStr \<circ> uc \<circ> fst) kvs)"
| "jiter (JStr s) = Inr (map (\<lambda>c. JStr [c]) s)"
| "jiter _ = Inl TypeError"

definition jtext :: "string \<Rightarrow> json" where
  "jtext s = JStr (uc s)"

definition jopt :: "('a \<Rightarrow> json) \<Rightarrow> 'a option \<Rightarrow> json" where
  "jopt f x = (case x of None \<Rightarrow> JNull | Some y \<Rightarrow> f y)"


section \<open>Floats with a fixed number of decimals\<close>

text \<open>Exactly \<open>d\<close> decimal digits.\<close>

fun decw :: "nat \<Rightarrow> nat \<Rightarrow> string" where
  "decw 0 n = []"
| "decw (Suc d) n = decw d (n div 10) @ [char_of (48 + n mod 10)]"

text \<open>The format \<open>.df\<close> of the float \<open>m / 2^k\<close>: its value rounded correctly, ties to even.\<close>

definition fixed_point :: "nat \<Rightarrow> nat \<Rightarrow> string" where
  "fixed_point d t = dec_digits (int (t div 10 ^ d)) @ CHR ''.'' # decw d (t mod 10 ^ d)"

definition fmt_float :: "nat \<Rightarrow> int \<Rightarrow> nat \<Rightarrow> string" where
  "fmt_float d m k =
     (if m < 0 then [CHR ''-''] else []) @ fixed_point d (half_even (nat \<bar>m\<bar> * 10 ^ d) (2 ^ k))"

text \<open>Floats end below \<open>2^1024\<close>: \<open>float(i)\<close> and \<open>a / b\<close> of integers raise \<open>OverflowError\<close> there.\<close>

definition float_of_int :: "int \<Rightarrow> (int \<times> nat) result" where
  "float_of_int i =
     (let x = dbl_round (nat \<bar>i\<bar>) in if x < 2 ^ 1024 then Inr (sgn i * int x, 0) else Inl OverflowError)"

definition float_quot :: "nat \<Rightarrow> nat \<Rightarrow> (int \<times> nat) result" where
  "float_quot a b =
     (let (m, k) = dbl_quot a b in if m < 2 ^ 1024 * 2 ^ k then Inr (int m, k) else Inl OverflowError)"

text \<open>\<open>f"{j:.df}"\<close>: a number is converted to a float, a string refuses the format code, the other
  values refuse any.\<close>

fun fmt_json :: "nat \<Rightarrow> json \<Rightarrow> ustr result" where
  "fmt_json d (JFloat m k) = Inr (uc (fmt_float d m k))"
| "fmt_json d (JInt i) = rbind (float_of_int i) (\<lambda>(m, k). Inr (uc (fmt_float d m k)))"
| "fmt_json d (JBool b) = Inr (uc (fmt_float d (if b then 1 else 0) 0))"
| "fmt_json d (JStr s) = Inl ValueError"
| "fmt_json d _ = Inl TypeError"

text \<open>\<open>str(j)\<close>.  The text of floats, lists and dictionaries is given by \<open>other\<close>.\<close>

fun str_json :: "(json \<Rightarrow> ustr) \<Rightarrow> json \<Rightarrow> ustr" where
  "str_json other JNull = uc ''None''"
| "str_json other (JBool b) = uc (if b then ''True'' else ''False'')"
| "str_json other (JInt i) = uc (str_int i)"
| "str_json other (JStr s) = s"
| "str_json other j = other j"


section \<open>The dictionaries of the results\<close>

text \<open>A number of thousandths, as the float nearest to it.\<close>

definition jmilli :: "int \<Rightarrow> json" where
  "jmilli t = (let (m, k) = dbl_quot (nat \<bar>t\<bar>) 1000 in JFloat (sgn t * int m) k)"

definition summary_json :: "summary \<Rightarrow> json" where
  "summary_json s = JObj [(''n'', JInt (su_n s)), (''min'', JInt (su_min s)), (''p50'', JInt (su_p50 s)),
     (''p95'', JInt (su_p95 s)), (''p99'', JInt (su_p99 s)), (''max'', JInt (su_max s)), (''mean'', JInt (su_mean s))]"

fun latency_json :: "string \<times> summary \<times> int list \<Rightarrow> json" where
  "latency_json (name, s, samples) =
     JObj [(''name'', jtext name), (''summary_ns'', summary_json s), (''samples_ns'', JList (map JInt samples))]"

definition rate_json :: "rate_dict \<Rightarrow> (string \<times> json) list" where
  "rate_json d = [(''name'', jtext (rd_name d)), (''count'', JInt (rd_count d)), (''duration_ns'', JInt (rd_duration d)),
     (''rate_per_s'', jmilli (int (rd_rate_milli d))), (''inter_arrival_ns'', summary_json (rd_inter_arrival d))]"

fun data_json :: "cell_data \<Rightarrow> json" where
  "data_json (RateData d) = JObj (rate_json d)"
| "data_json (AdvertData d first) = JObj (rate_json d @ [(''time_to_first_device_ns'', jopt JInt first)])"
| "data_json (RttData rd wr) = JObj [(''read'', latency_json rd), (''write'', latency_json wr)]"

fun usage_json :: "string \<times> cpu_usage \<Rightarrow> string \<times> json" where
  "usage_json (name, u) =
     (name, JObj [(''pid'', JInt (cu_pid u)), (''cpu_ns'', jopt JInt (cu_cpu_ns u)), (''cpu_pct'', jopt jmilli (cu_pct_milli u))])"

fun cpu_json :: "int \<times> (string \<times> cpu_usage) list \<Rightarrow> json" where
  "cpu_json (wall, us) = JObj [(''wall_ns'', JInt wall), (''per_pid'', JObj (map usage_json us))]"

text \<open>What the model of the cells leaves out: the texts of errors and notes, and the floats of durations.\<close>

record wording =
  wo_error :: "cell_error \<Rightarrow> ustr"
  wo_note :: "cell_note \<Rightarrow> ustr"
  wo_seconds :: "int \<Rightarrow> json"

definition params_json :: "wording \<Rightarrow> cell_params \<Rightarrow> json" where
  "params_json W p = JObj ([(''duration_s'', wo_seconds W (cp_duration p)), (''rtt_iters'', JInt (cp_rtt_iters p)),
     (''warmup_iters'', JInt (cp_warmup_iters p)), (''warmup_s'', wo_seconds W (cp_warmup p)),
     (''notify_rate_hz'', JInt (cp_notify_rate_hz p)), (''payload_size'', JInt (cp_payload_size p))]
     @ (case cp_target_rate_hz p of None \<Rightarrow> [] | Some r \<Rightarrow> [(''target_rate_hz'', JInt r)]))"

definition cell_json :: "wording \<Rightarrow> cell \<Rightarrow> json" where
  "cell_json W c =
     (case ce_params c of
        None \<Rightarrow> JObj [(''scenario'', jtext (ce_scenario c)), (''stack'', jtext (ce_stack c)),
          (''error'', jopt (JStr \<circ> wo_error W) (ce_error c)), (''result'', JNull)]
      | Some p \<Rightarrow> JObj [(''scenario'', jtext (ce_scenario c)), (''stack'', jtext (ce_stack c)),
          (''mode'', jtext (cp_mode p)), (''coexistence'', jtext (cp_coexistence p)),
          (''bluetoothd_paused'', JBool (cp_paused p)), (''params'', params_json W p),
          (''result'', jopt data_json (ce_result c)), (''cpu'', jopt cpu_json (ce_cpu c)),
          (''notes'', JList (map (JStr \<circ> wo_note W) (ce_notes c))),
          (''error'', jopt (JStr \<circ> wo_error W) (ce_error c))])"

text \<open>\<open>BenchConfig.to_dict\<close>, with the dictionary of the environment.\<close>

definition config_json :: "wording \<Rightarrow> json \<Rightarrow> bench_config \<Rightarrow> json" where
  "config_json W env c = JObj
     [(''target'', jopt jtext (cf_target c)), (''adapter'', jtext (cf_adapter c)),
      (''peripheral_adapter'', jopt jtext (cf_peripheral_adapter c)), (''mode'', jtext (cf_mode c)),
      (''use_mock_peripheral'', JBool (cf_use_mock_peripheral c)), (''duration_s'', wo_seconds W (cf_duration c)),
      (''rtt_iters'', JInt (cf_rtt_iters c)), (''warmup_iters'', JInt (cf_warmup_iters c)),
      (''warmup_s'', wo_seconds W (cf_warmup c)), (''notify_rate_hz'', JInt (cf_notify_rate_hz c)),
      (''payload_size'', JInt (cf_payload_size c)), (''scenarios'', JList (map jtext (cf_scenarios c))),
      (''stacks'', JList (map jtext (cf_stacks c))), (''isolate_adapter'', JBool (cf_isolate_adapter c)),
      (''coexistence'', jtext (cf_coexistence c)), (''results_dir'', jtext (cf_results_dir c)),
      (''run_id'', jopt jtext (cf_run_id c)), (''char_read_uuid'', jtext (cf_char_read_uuid c)),
      (''char_write_uuid'', jtext (cf_char_write_uuid c)), (''char_notify_uuid'', jtext (cf_char_notify_uuid c)),
      (''env'', env)]"


section \<open>A printed quotient is exact to its last digit\<close>

lemma half_even_near:
  assumes "0 < b"
  shows "2 * (half_even a b * b) \<le> 2 * a + b \<and> 2 * a \<le> 2 * (half_even a b * b) + b"
proof
  show "2 * (half_even a b * b) \<le> 2 * a + b" by (rule half_even_upper [OF assms])
  let ?q = "a div b" and ?r = "a mod b"
  have a: "a = ?q * b + ?r" by simp
  have r: "?r < b" using assms by simp
  show "2 * a \<le> 2 * (half_even a b * b) + b"
  proof (cases "half_even a b = ?q")
    case True
    then have "2 * ?r \<le> b" by (auto simp: half_even_def Let_def split: if_splits)
    then show ?thesis unfolding True using a by linarith
  next
    case False
    then have "half_even a b = Suc ?q" by (auto simp: half_even_def Let_def split: if_splits)
    then have "half_even a b * b = ?q * b + b" by simp
    then show ?thesis using a r by linarith
  qed
qed

lemma bit_len_le: "x < 2 ^ n \<Longrightarrow> bit_len x \<le> n"
proof (cases "x = 0")
  case False
  assume x: "x < 2 ^ n"
  have "2 ^ bit_len x \<le> 2 * x" using bit_len_bounds [of x] False by simp
  also have "\<dots> < 2 ^ Suc n" using x by simp
  finally have "bit_len x < Suc n" by (rule power_less_imp_less_exp [rotated]) simp
  then show ?thesis by simp
qed (simp add: bit_len.simps)

lemma dbl_quot_close:
  assumes a: "0 < a" "a < 2 ^ 48" and b: "0 < b" and q: "dbl_quot a b = (m, k)"
  shows "2 * (m * b) \<le> 2 * (a * 2 ^ k) + b \<and> 2 * (a * 2 ^ k) \<le> 2 * (m * b) + b \<and> 8 * b < 2 ^ k"
proof -
  define la where "la = bit_len a"
  define lb where "lb = bit_len b"
  define k0 where "k0 = 53 + lb - la"
  have L: "2 ^ la \<le> 2 * a" "a < 2 ^ la" "2 ^ lb \<le> 2 * b" "b < 2 ^ lb"
    using bit_len_bounds [OF a(1)] bit_len_bounds [OF b] by (simp_all add: la_def lb_def)
  have la: "la \<le> 48" using bit_len_le [OF a(2)] by (simp add: la_def)
  have k0: "k0 + la = 53 + lb" "1 \<le> k0" using la by (simp_all add: k0_def)
  have p0: "2 ^ k0 * 2 ^ la = 2 ^ 53 * (2 :: nat) ^ lb" by (simp only: k0(1) flip: power_add)
  have k: "k = (if 2 ^ 53 \<le> a * 2 ^ k0 div b then k0 - 1 else k0)"
    using arg_cong [OF q, of snd] unfolding dbl_quot_def Let_def snd_conv k0_def la_def lb_def by (rule sym)
  have ge: "k0 \<le> Suc k" using k0(2) by (simp add: k)
  have big: "8 * b < 2 ^ k"
  proof -
    have "2 ^ 53 * b < 2 ^ 53 * 2 ^ lb" using L(4) by simp
    also have "\<dots> = 2 ^ k0 * 2 ^ la" by (rule p0 [symmetric])
    also have "\<dots> \<le> 2 ^ Suc k * 2 ^ la" by (intro mult_right_mono power_increasing ge) simp_all
    also have "\<dots> \<le> 2 ^ Suc k * 2 ^ 48" by (intro mult_left_mono power_increasing la) simp_all
    finally have "2 ^ 53 * b < 2 * 2 ^ k * 2 ^ 48" by simp
    then show ?thesis by simp
  qed
  have small: "a * 2 ^ k div b < 2 ^ 53"
  proof (cases "2 ^ 53 \<le> a * 2 ^ k0 div b")
    case True
    have "a * 2 ^ k0 < 2 ^ la * 2 ^ k0" using L(2) by simp
    also have "\<dots> = 2 ^ 53 * 2 ^ lb" using p0 by (simp add: mult.commute)
    also have "\<dots> \<le> 2 ^ 53 * (2 * b)" using L(3) by (intro mult_left_mono) simp_all
    finally have "a * 2 ^ k0 < 2 * (2 ^ 53 * b)" by simp
    moreover have "(2 :: nat) ^ k0 = 2 * 2 ^ k" using True k0(2) by (simp add: k flip: power_Suc)
    ultimately have "a * 2 ^ k < 2 ^ 53 * b" by simp
    then show ?thesis by (simp only: less_mult_imp_div_less)
  next
    case False
    then show ?thesis by (simp add: k)
  qed
  have "m = half_even (a * 2 ^ k) b"
  proof -
    have "bit_len (a * 2 ^ k div b) - 53 = 0" using bit_len_le [OF small] by simp
    moreover have "dbl_quot a b = (half_even (a * 2 ^ k) (b * 2 ^ (bit_len (a * 2 ^ k div b) - 53))
        * 2 ^ (bit_len (a * 2 ^ k div b) - 53), k)"
      unfolding dbl_quot_def Let_def k k0_def la_def lb_def by (rule refl)
    ultimately have "dbl_quot a b = (half_even (a * 2 ^ k) b, k)" by simp
    then show ?thesis using q by simp
  qed
  with half_even_near [OF b, of "a * 2 ^ k"] big show ?thesis by simp
qed

text \<open>The tenths that are printed for \<open>a / b\<close>, computed with two roundings, are within half a tenth of
  the quotient.\<close>

lemma tenths_of_quot:
  assumes "0 < a" "a < 2 ^ 48" "0 < b" "even b" "dbl_quot a b = (m, k)"
  shows "2 * (half_even (m * 10) (2 ^ k) * b) \<le> 2 * (10 * a) + b \<and>
    2 * (10 * a) \<le> 2 * (half_even (m * 10) (2 ^ k) * b) + b"
proof -
  let ?t = "half_even (m * 10) (2 ^ k)"
  obtain c where c: "b = 2 * c" using \<open>even b\<close> by auto
  note Q = dbl_quot_close [OF assms(1,2,3,5)]
  have H: "2 * (?t * 2 ^ k) \<le> 2 * (m * 10) + 2 ^ k" "2 * (m * 10) \<le> 2 * (?t * 2 ^ k) + 2 ^ k"
    using half_even_near [of "2 ^ k" "m * 10"] by simp_all
  define K where "K = (2 :: nat) ^ k"
  have q: "m * b \<le> a * K + c" "a * K \<le> m * b + c" "16 * c < K"
    using Q by (simp_all add: c K_def)
  have h: "(?t * K) * b \<le> (m * 10) * b + K * c" "(m * 10) * b \<le> (?t * K) * b + K * c"
    using mult_right_mono [OF H(1), of c] mult_right_mono [OF H(2), of c]
    by (simp_all add: c K_def algebra_simps)
  have "?t * b * K \<le> 10 * a * K + 10 * c + K * c" "10 * a * K \<le> ?t * b * K + 10 * c + K * c"
    using q h by (simp_all add: algebra_simps)
  then have "?t * b * K < (10 * a + c + 1) * K" "10 * a * K < (?t * b + c + 1) * K"
    using q(3) by (simp_all add: algebra_simps)
  then have "?t * b < 10 * a + c + 1" "10 * a < ?t * b + c + 1" by (simp_all only: mult_less_cancel2)
  then show ?thesis by (simp add: c)
qed

end
