(* ===== verification/Bench_Report.thy ===== *)
theory Bench_Report
  imports Bench_Json "HOL-Library.List_Lexorder" "HOL-Library.Char_ord"
begin

text \<open>
  \<open>bench/report.py\<close>: the Markdown table of the result files.  The file system is \<open>report_fs\<close>; a
  result file is the value that \<open>json.load\<close> makes of it.  The text \<open>str\<close> gives for floats, lists and
  dictionaries is a parameter \<open>other\<close>: the runner writes strings and integers where the table prints
  with \<open>str\<close>.
\<close>

section \<open>Rows\<close>

record row =
  ro_run_id :: json
  ro_host :: json
  ro_kernel :: json
  ro_mode :: json
  ro_scenario :: json
  ro_stack :: json
  ro_p50 :: json
  ro_p95 :: json
  ro_p99 :: json
  ro_rate :: json
  ro_n :: json
  ro_py_cpu :: json
  ro_btd_cpu :: json
  ro_dbus_cpu :: json
  ro_error :: json

definition unknown :: json where "unknown = jtext ''?''"

text \<open>\<open>j.get(key, {}).get(key', d)\<close>.\<close>

definition jget2 :: "string \<Rightarrow> string \<Rightarrow> json \<Rightarrow> json \<Rightarrow> json result" where
  "jget2 key key' d j = rbind (jget key (JObj []) j) (jget key' d)"

text \<open>The dictionary literal at the start of \<open>_row\<close>.\<close>

definition row_base :: "json \<Rightarrow> json \<Rightarrow> row result" where
  "row_base run r =
     rbind (jget ''run_id'' unknown run) (\<lambda>run_id.
     rbind (jget2 ''env'' ''host'' unknown run) (\<lambda>host.
     rbind (jget2 ''env'' ''kernel'' unknown run) (\<lambda>kernel.
     rbind (jget2 ''config'' ''mode'' unknown run) (\<lambda>mode.
     rbind (jget ''scenario'' unknown r) (\<lambda>scenario.
     rbind (jget ''stack'' unknown r) (\<lambda>stack.
     rbind (jget ''error'' JNull r) (\<lambda>err.
       Inr \<lparr>ro_run_id = run_id, ro_host = host, ro_kernel = kernel, ro_mode = mode, ro_scenario = scenario,
            ro_stack = stack, ro_p50 = JNull, ro_p95 = JNull, ro_p99 = JNull, ro_rate = JNull, ro_n = JNull,
            ro_py_cpu = JNull, ro_btd_cpu = JNull, ro_dbus_cpu = JNull, ro_error = err\<rparr>)))))))"

definition row_percentiles :: "json \<Rightarrow> row \<Rightarrow> row result" where
  "row_percentiles d out =
     rbind (jget ''p50'' JNull d) (\<lambda>p50. rbind (jget ''p95'' JNull d) (\<lambda>p95. rbind (jget ''p99'' JNull d) (\<lambda>p99.
       Inr (out\<lparr>ro_p50 := p50, ro_p95 := p95, ro_p99 := p99\<rparr>))))"

definition row_result :: "json \<Rightarrow> json \<Rightarrow> row \<Rightarrow> row result" where
  "row_result scenario res out =
     (if scenario = jtext ''read_write'' then
        rbind (jget2 ''read'' ''summary_ns'' (JObj []) res) (\<lambda>rs.
        rbind (row_percentiles rs out) (\<lambda>out'.
        rbind (jget ''n'' JNull rs) (\<lambda>n. Inr (out'\<lparr>ro_n := n\<rparr>))))
      else if scenario = jtext ''advert'' \<or> scenario = jtext ''notify'' then
        rbind (jget ''rate_per_s'' JNull res) (\<lambda>rate.
        rbind (jget ''count'' JNull res) (\<lambda>n.
        rbind (jget ''inter_arrival_ns'' (JObj []) res) (\<lambda>ia.
          row_percentiles ia (out\<lparr>ro_rate := rate, ro_n := n\<rparr>))))
      else Inr out)"

definition proc_pct :: "json \<Rightarrow> string \<Rightarrow> json result" where
  "proc_pct per_pid name = rbind (jget name JNull per_pid) (\<lambda>u. jget ''cpu_pct'' JNull (jor u (JObj [])))"

definition row_cpu :: "json \<Rightarrow> row \<Rightarrow> row result" where
  "row_cpu r out =
     rbind (jget ''cpu'' JNull r) (\<lambda>cpu.
     rbind (jget ''per_pid'' JNull (jor cpu (JObj []))) (\<lambda>per_pid.
       let pp = jor per_pid (JObj [])
       in rbind (proc_pct pp ''python'') (\<lambda>py.
          rbind (proc_pct pp ''bluetoothd'') (\<lambda>btd.
          rbind (proc_pct pp ''dbus-broker'') (\<lambda>broker.
          rbind (if jtrue broker then Inr broker else proc_pct pp ''dbus-daemon'') (\<lambda>dbus.
            Inr (out\<lparr>ro_py_cpu := py, ro_btd_cpu := btd, ro_dbus_cpu := dbus\<rparr>)))))))"

definition report_row :: "json \<Rightarrow> json \<Rightarrow> row result" where
  "report_row run r =
     rbind (row_base run r) (\<lambda>out.
     rbind (jget ''result'' JNull r) (\<lambda>res.
     rbind (jget ''scenario'' JNull r) (\<lambda>scenario.
     rbind (row_result scenario (jor res (JObj [])) out) (row_cpu r))))"


section \<open>The table\<close>

definition DASH :: ustr where "DASH = [0x2014]"

text \<open>\<open>v / b\<close> with one decimal, for a value of at least \<open>10000\<close>.\<close>

fun fmt_tenths :: "json \<Rightarrow> nat \<Rightarrow> ustr result" where
  "fmt_tenths (JInt v) b = rbind (float_quot (nat v) b) (\<lambda>(m, k). Inr (uc (fmt_float 1 m k)))"
| "fmt_tenths (JFloat m k) b = rbind (float_quot (nat m) (b * 2 ^ k)) (\<lambda>(m', k'). Inr (uc (fmt_float 1 m' k')))"
| "fmt_tenths _ b = Inl TypeError"

text \<open>\<open>v < n\<close> for an integer \<open>n\<close>.\<close>

fun json_less :: "json \<Rightarrow> int \<Rightarrow> bool result" where
  "json_less (JInt v) n = Inr (v < n)"
| "json_less (JBool b) n = Inr ((if b then 1 else 0) < n)"
| "json_less (JFloat m k) n = Inr (m < n * 2 ^ k)"
| "json_less _ n = Inl TypeError"

definition fmt_ns :: "(json \<Rightarrow> ustr) \<Rightarrow> json \<Rightarrow> ustr result" where
  "fmt_ns other v =
     (if v = JNull then Inr DASH
      else rbind (json_less v 10000) (\<lambda>small.
        if small then Inr (str_json other v @ uc ''ns'')
        else rbind (json_less v 10000000) (\<lambda>medium.
          if medium then rbind (fmt_tenths v 1000) (\<lambda>t. Inr (t @ uc ''us''))
          else rbind (fmt_tenths v 1000000) (\<lambda>t. Inr (t @ uc ''ms'')))))"

definition fmt_pct :: "json \<Rightarrow> ustr result" where
  "fmt_pct v = (if v = JNull then Inr DASH else rbind (fmt_json 2 v) (\<lambda>t. Inr (t @ uc ''%'')))"

text \<open>\<open>(e or "").replace("|", "/")\<close>: only strings have \<open>replace\<close>.\<close>

definition fmt_error :: "json \<Rightarrow> ustr result" where
  "fmt_error e =
     (case jor e (JStr []) of
        JStr s \<Rightarrow> Inr (map (\<lambda>c. if c = 124 then 47 else c) s)
      | _ \<Rightarrow> Inl AttributeError)"

fun ujoin :: "ustr \<Rightarrow> ustr list \<Rightarrow> ustr" where
  "ujoin sep [] = []"
| "ujoin sep [l] = l"
| "ujoin sep (l # m # ls) = l @ sep @ ujoin sep (m # ls)"

text \<open>A line of the table around the texts of its cells.\<close>

definition table_line :: "ustr list \<Rightarrow> ustr" where
  "table_line cells = uc ''| '' @ ujoin (uc '' | '') cells @ uc '' |''"

definition report_line :: "(json \<Rightarrow> ustr) \<Rightarrow> row \<Rightarrow> ustr result" where
  "report_line other r =
     rbind (if ro_rate r = JNull then Inr DASH else rbind (fmt_json 1 (ro_rate r)) (\<lambda>t. Inr (t @ uc ''/s''))) (\<lambda>rate.
     let n = (if ro_n r = JNull then DASH else str_json other (ro_n r))
     in rbind (fmt_error (ro_error r)) (\<lambda>err.
        rbind (fmt_ns other (ro_p50 r)) (\<lambda>p50.
        rbind (fmt_ns other (ro_p95 r)) (\<lambda>p95.
        rbind (fmt_ns other (ro_p99 r)) (\<lambda>p99.
        rbind (fmt_pct (ro_py_cpu r)) (\<lambda>py.
        rbind (fmt_pct (ro_btd_cpu r)) (\<lambda>btd.
        rbind (fmt_pct (ro_dbus_cpu r)) (\<lambda>dbus.
          Inr (table_line [str_json other (ro_scenario r), str_json other (ro_stack r), str_json other (ro_mode r),
            str_json other (ro_host r), p50, p95, p99, rate, n, py, btd, dbus, err])))))))))"

definition HEADER :: ustr where
  "HEADER = uc ''| scenario | stack | mode | host | p50 | p95 | p99 | rate | n | py-cpu | btd-cpu | dbus-cpu | error |''"

definition SEPARATOR :: ustr where
  "SEPARATOR = uc ''|---|---|---|---|---|---|---|---|---|---|---|---|---|''"

definition render :: "(json \<Rightarrow> ustr) \<Rightarrow> row list \<Rightarrow> ustr result" where
  "render other rows =
     rbind (rmap (report_line other) rows) (\<lambda>ls. Inr (ujoin (uc [CHR 0x0A]) (HEADER # SEPARATOR # ls)))"


section \<open>The command\<close>

datatype load_outcome = Unreadable | LoadRaises exn | Loaded json

text \<open>\<open>Unreadable\<close> is an \<open>OSError\<close> or a \<open>JSONDecodeError\<close>.\<close>

record report_fs =
  rf_is_dir :: "string \<Rightarrow> bool"
  rf_json_files :: "string \<Rightarrow> string list"
  rf_is_file :: "string \<Rightarrow> bool"
  rf_load :: "string \<Rightarrow> load_outcome"

definition iter_paths :: "report_fs \<Rightarrow> string list \<Rightarrow> string list" where
  "iter_paths fs args =
     concat (map (\<lambda>a. if rf_is_dir fs a then sort (rf_json_files fs a) else if rf_is_file fs a then [a] else [])
       (if args = [] then [''bench/results''] else args))"

definition run_rows :: "json \<Rightarrow> row list result" where
  "run_rows run = rbind (jget ''results'' (JList []) run) (\<lambda>rs. rbind (jiter rs) (rmap (report_row run)))"

text \<open>The paths that are reported as skipped, and the rows.\<close>

fun gather :: "report_fs \<Rightarrow> string list \<Rightarrow> string list \<times> row list result" where
  "gather fs [] = ([], Inr [])"
| "gather fs (p # ps) =
     (case rf_load fs p of
        Unreadable \<Rightarrow> (let (sk, r) = gather fs ps in (p # sk, r))
      | LoadRaises e \<Rightarrow> ([], Inl e)
      | Loaded run \<Rightarrow>
          (case run_rows run of
             Inl e \<Rightarrow> ([], Inl e)
           | Inr rows \<Rightarrow> (let (sk, r) = gather fs ps in (sk, rbind r (\<lambda>more. Inr (rows @ more))))))"

text \<open>What is printed, and the exit code.\<close>

definition report_main :: "report_fs \<Rightarrow> (json \<Rightarrow> ustr) \<Rightarrow> string list \<Rightarrow> string list \<times> (ustr option \<times> int) result" where
  "report_main fs other argv =
     (let (sk, r) = gather fs (iter_paths fs argv)
      in (sk, rbind r (\<lambda>rows. if rows = [] then Inr (None, 1)
                            else rbind (render other rows) (\<lambda>t. Inr (Some t, 0)))))"


section \<open>Times are printed to the last digit\<close>

text \<open>Times in the table are right to the digit that is printed: below 10 microseconds the number of
  nanoseconds itself, below 10 milliseconds the microseconds to within half a tenth, above (up to
  2^48 ns, three days) the milliseconds to within half a tenth, although the code divides and
  rounds twice in floats.\<close>

theorem fmt_ns_accurate:
  assumes "0 \<le> v" "v < 2 ^ 48"
  shows "\<exists>t. fmt_ns other (JInt v) = Inr (uc
      (if v < 10000 then str_int v @ ''ns''
       else fixed_point 1 t @ (if v < 10000000 then ''us'' else ''ms'')))
    \<and> (let unit = (if v < 10000000 then 1000 else 1000000)
       in v \<ge> 10000 \<longrightarrow> 2 * \<bar>int t * unit - 10 * v\<bar> \<le> unit)"
proof (cases "v < 10000")
  case True
  then show ?thesis by (simp add: fmt_ns_def uc_def)
next
  case False
  define b :: nat where "b = (if v < 10000000 then 1000 else 1000000)"
  obtain m k where q: "dbl_quot (nat v) b = (m, k)" by fastforce
  have pre: "0 < nat v" "nat v < 2 ^ 48" "0 < b" "even b" using False assms by (auto simp: b_def)
  have v: "int (nat v) = v" using assms by simp
  let ?t = "half_even (m * 10) (2 ^ k)"
  note near = tenths_of_quot [OF pre q]
  have "m < 2 ^ 1024 * 2 ^ k"
  proof -
    have "2 * (m * b) \<le> 2 * (nat v * 2 ^ k) + b" "8 * b < 2 ^ k"
      using dbl_quot_close [OF pre(1-3) q] by auto
    then have "m * b \<le> (nat v + 1) * 2 ^ k" by (simp add: algebra_simps)
    also have "\<dots> \<le> 2 ^ 1024 * 2 ^ k"
    proof (rule mult_right_mono)
      have "nat v + 1 \<le> 2 ^ 48" using pre(2) by simp
      also have "\<dots> \<le> 2 ^ 1024" by (rule power_increasing) simp_all
      finally show "nat v + 1 \<le> 2 ^ 1024" .
    qed simp
    finally have "m * b \<le> 2 ^ 1024 * 2 ^ k" .
    moreover have "m * 1000 \<le> m * b" by (rule mult_left_mono) (simp_all add: b_def)
    ultimately have "m * 1000 \<le> 2 ^ 1024 * 2 ^ k" by (rule order_trans [rotated])
    moreover have "(0 :: nat) < 2 ^ 1024 * 2 ^ k" by (simp only: mult_pos_pos zero_less_power zero_less_numeral)
    moreover have "x * 1000 \<le> y \<Longrightarrow> 0 < y \<Longrightarrow> x < y" for x y :: nat by simp
    ultimately show ?thesis by blast
  qed
  then have "float_quot (nat v) b = Inr (int m, k)"
    unfolding float_quot_def q Let_def prod.case by (simp only: if_True)
  then have f: "fmt_tenths (JInt v) b = Inr (uc (fixed_point 1 ?t))"
    by (simp add: fmt_float_def)
  have "fmt_ns other (JInt v) = Inr (uc (fixed_point 1 ?t @ (if v < 10000000 then ''us'' else ''ms'')))"
    using False f by (auto simp: fmt_ns_def b_def uc_def)
  moreover have "2 * \<bar>int ?t * int b - 10 * v\<bar> \<le> int b"
  proof -
    have "2 * (int ?t * int b) \<le> 2 * (10 * v) + int b" "2 * (10 * v) \<le> 2 * (int ?t * int b) + int b"
      using near [folded of_nat_le_iff [where 'a = int]] v by (simp_all only: of_nat_add of_nat_mult of_nat_numeral)
    then show ?thesis by arith
  qed
  ultimately show ?thesis
    using False by (intro exI [of _ ?t]) (simp add: b_def Let_def split: if_splits)
qed

theorem fmt_ns_accurate_witness:
  "\<exists>t. fmt_ns other (JInt 12345) = Inr (uc (fixed_point 1 t @ ''us'')) \<and> 2 * \<bar>int t * 1000 - 10 * 12345\<bar> \<le> 1000"
proof -
  have "(0 :: int) \<le> 12345" "(12345 :: int) < 2 ^ 48" by simp_all
  from fmt_ns_accurate [OF this, of other] show ?thesis by (simp add: Let_def)
qed


section \<open>The rows of a run\<close>

text \<open>What \<open>main_async\<close> of the runner returns and \<open>write_run\<close> writes.\<close>

definition run_json :: "wording \<Rightarrow> string \<Rightarrow> bench_config \<Rightarrow> (string \<times> json) list \<Rightarrow> cell list \<Rightarrow> json" where
  "run_json W run_id cfg env cells =
     JObj [(''run_id'', jtext run_id), (''config'', config_json W (JObj env) cfg), (''env'', JObj env),
       (''results'', JList (map (cell_json W) cells))]"

text \<open>The row that a cell should have.\<close>

definition shown_pct :: "string \<Rightarrow> cell \<Rightarrow> json" where
  "shown_pct name c =
     jopt (\<lambda>cpu. jopt (\<lambda>u. jopt jmilli (cu_pct_milli u)) (map_of (snd cpu) name)) (ce_cpu c)"

definition shown_times :: "cell \<Rightarrow> summary option" where
  "shown_times c =
     map_option (\<lambda>d. case d of RateData r \<Rightarrow> rd_inter_arrival r | AdvertData r _ \<Rightarrow> rd_inter_arrival r
       | RttData (_, s, _) _ \<Rightarrow> s) (ce_result c)"

definition cell_row :: "wording \<Rightarrow> string \<Rightarrow> bench_config \<Rightarrow> (string \<times> json) list \<Rightarrow> cell \<Rightarrow> row" where
  "cell_row W run_id cfg env c =
     \<lparr>ro_run_id = jtext run_id,
      ro_host = (case map_of env ''host'' of None \<Rightarrow> unknown | Some j \<Rightarrow> j),
      ro_kernel = (case map_of env ''kernel'' of None \<Rightarrow> unknown | Some j \<Rightarrow> j),
      ro_mode = jtext (cf_mode cfg), ro_scenario = jtext (ce_scenario c), ro_stack = jtext (ce_stack c),
      ro_p50 = jopt (JInt \<circ> su_p50) (shown_times c), ro_p95 = jopt (JInt \<circ> su_p95) (shown_times c),
      ro_p99 = jopt (JInt \<circ> su_p99) (shown_times c),
      ro_rate = (case ce_result c of
          Some (RateData r) \<Rightarrow> jmilli (int (rd_rate_milli r))
        | Some (AdvertData r _) \<Rightarrow> jmilli (int (rd_rate_milli r)) | _ \<Rightarrow> JNull),
      ro_n = jopt JInt (map_option (\<lambda>d. case d of RateData r \<Rightarrow> rd_count r | AdvertData r _ \<Rightarrow> rd_count r
          | RttData (_, s, _) _ \<Rightarrow> su_n s) (ce_result c)),
      ro_py_cpu = shown_pct ''python'' c, ro_btd_cpu = shown_pct ''bluetoothd'' c,
      ro_dbus_cpu = jor (shown_pct ''dbus-broker'' c) (shown_pct ''dbus-daemon'' c),
      ro_error = jopt (JStr \<circ> wo_error W) (ce_error c)\<rparr>"

text \<open>The cells of a run: the result is of the kind of the scenario, and the short dictionary has none.\<close>

definition cell_ok :: "cell \<Rightarrow> bool" where
  "cell_ok c \<longleftrightarrow> (ce_params c = None \<longrightarrow> ce_result c = None \<and> ce_cpu c = None)
     \<and> (case ce_result c of
          None \<Rightarrow> True
        | Some (RateData _) \<Rightarrow> ce_scenario c = ''notify''
        | Some (AdvertData _ _) \<Rightarrow> ce_scenario c = ''advert''
        | Some (RttData _ _) \<Rightarrow> ce_scenario c = ''read_write'')"

lemma uc_inj [simp]: "uc s = uc t \<longleftrightarrow> s = t"
proof -
  have "inj (\<lambda>c :: char. int (of_char c))" by (rule injI) (simp add: of_char_eq_iff)
  then show ?thesis unfolding uc_def by (simp add: inj_map_eq_map)
qed

lemma jtext_inj [simp]: "jtext s = jtext t \<longleftrightarrow> s = t"
  by (simp add: jtext_def)

lemma map_of_usage: "map_of (map usage_json us) name = map_option (\<lambda>u. snd (usage_json (name, u))) (map_of us name)"
  by (induction us) auto

lemma proc_pct_shown:
  "proc_pct (JObj (map usage_json us)) name
    = Inr (jopt (\<lambda>u. jopt jmilli (cu_pct_milli u)) (map_of us name))"
  by (cases "map_of us name") (simp_all add: proc_pct_def map_of_usage jor_def jopt_def)

lemma proc_pct_none: "proc_pct (JObj []) name = Inr JNull"
  by (simp add: proc_pct_def jor_def)

lemma jor_Nil [simp]: "jor (JObj xs) (JObj []) = JObj xs"
  by (simp add: jor_def)

lemma jor_null [simp]: "jor JNull d = d"
  by (simp add: jor_def)

lemma row_cpu_short:
  "row_cpu (JObj [(''scenario'', a), (''stack'', b), (''error'', e), (''result'', r)]) out
    = Inr (out\<lparr>ro_py_cpu := JNull, ro_btd_cpu := JNull, ro_dbus_cpu := JNull\<rparr>)"
  by (simp add: row_cpu_def proc_pct_none)

lemma row_cpu_full:
  assumes "r = JObj kvs" "map_of kvs ''cpu'' = Some (jopt cpu_json cpu)"
  shows "row_cpu r out = Inr (out
    \<lparr>ro_py_cpu := jopt (\<lambda>x. jopt (\<lambda>u. jopt jmilli (cu_pct_milli u)) (map_of (snd x) ''python'')) cpu,
     ro_btd_cpu := jopt (\<lambda>x. jopt (\<lambda>u. jopt jmilli (cu_pct_milli u)) (map_of (snd x) ''bluetoothd'')) cpu,
     ro_dbus_cpu := jor (jopt (\<lambda>x. jopt (\<lambda>u. jopt jmilli (cu_pct_milli u)) (map_of (snd x) ''dbus-broker'')) cpu)
       (jopt (\<lambda>x. jopt (\<lambda>u. jopt jmilli (cu_pct_milli u)) (map_of (snd x) ''dbus-daemon'')) cpu)\<rparr>)"
proof (cases cpu)
  case None
  then show ?thesis using assms by (simp add: row_cpu_def proc_pct_none jopt_def)
next
  case (Some x)
  obtain wall us where x: "x = (wall, us)" by fastforce
  have "jor (jopt cpu_json cpu) (JObj []) = JObj [(''wall_ns'', JInt wall), (''per_pid'', JObj (map usage_json us))]"
    using Some x by (simp add: jopt_def)
  then show ?thesis
    using assms Some x by (simp add: row_cpu_def proc_pct_shown jopt_def) (simp add: jor_def)
qed

text \<open>The rest of the row, after the literal.\<close>

definition blank_row :: "json \<Rightarrow> json \<Rightarrow> json \<Rightarrow> json \<Rightarrow> json \<Rightarrow> json \<Rightarrow> json \<Rightarrow> row" where
  "blank_row run_id host kern mode scenario stack err =
     \<lparr>ro_run_id = run_id, ro_host = host, ro_kernel = kern, ro_mode = mode, ro_scenario = scenario,
      ro_stack = stack, ro_p50 = JNull, ro_p95 = JNull, ro_p99 = JNull, ro_rate = JNull, ro_n = JNull,
      ro_py_cpu = JNull, ro_btd_cpu = JNull, ro_dbus_cpu = JNull, ro_error = err\<rparr>"

definition filled_row :: "cell \<Rightarrow> row \<Rightarrow> row" where
  "filled_row c out = out\<lparr>ro_p50 := jopt (JInt \<circ> su_p50) (shown_times c), ro_p95 := jopt (JInt \<circ> su_p95) (shown_times c),
      ro_p99 := jopt (JInt \<circ> su_p99) (shown_times c),
      ro_rate := (case ce_result c of
          Some (RateData r) \<Rightarrow> jmilli (int (rd_rate_milli r))
        | Some (AdvertData r _) \<Rightarrow> jmilli (int (rd_rate_milli r)) | _ \<Rightarrow> JNull),
      ro_n := jopt JInt (map_option (\<lambda>d. case d of RateData r \<Rightarrow> rd_count r | AdvertData r _ \<Rightarrow> rd_count r
          | RttData (_, s, _) _ \<Rightarrow> su_n s) (ce_result c))\<rparr>"

lemma row_result_cell:
  assumes "cell_ok c"
  shows "row_result (jtext (ce_scenario c)) (jor (jopt data_json (ce_result c)) (JObj []))
      (blank_row run_id host kern mode scenario stack err)
    = Inr (filled_row c (blank_row run_id host kern mode scenario stack err))"
proof (cases "ce_result c")
  case None
  then show ?thesis
    by (simp add: row_result_def jget2_def row_percentiles_def shown_times_def jopt_def filled_row_def blank_row_def)
next
  case (Some d)
  note defs = row_result_def jget2_def row_percentiles_def shown_times_def jopt_def cell_ok_def rate_json_def
    summary_json_def filled_row_def blank_row_def
  show ?thesis
  proof (cases d)
    case (RateData r)
    then show ?thesis using Some assms by (simp add: defs)
  next
    case (AdvertData r first)
    then show ?thesis using Some assms by (simp add: defs)
  next
    case (RttData rd wr)
    obtain name s xs where "rd = (name, s, xs)" by (metis prod.exhaust)
    then show ?thesis using Some assms RttData by (simp add: defs)
  qed
qed

lemma row_base_run:
  assumes "map_of kvs ''scenario'' = Some sc" "map_of kvs ''stack'' = Some st" "map_of kvs ''error'' = Some err"
  shows "row_base (run_json W run_id cfg env cells) (JObj kvs) = Inr (blank_row (jtext run_id)
    (case map_of env ''host'' of None \<Rightarrow> unknown | Some j \<Rightarrow> j)
    (case map_of env ''kernel'' of None \<Rightarrow> unknown | Some j \<Rightarrow> j) (jtext (cf_mode cfg)) sc st err)"
  using assms by (simp add: row_base_def run_json_def jget2_def config_json_def blank_row_def)

lemma report_row_cell:
  assumes "cell_ok c"
  shows "report_row (run_json W run_id cfg env cells) (cell_json W c) = Inr (cell_row W run_id cfg env c)"
proof -
  let ?sc = "jtext (ce_scenario c)" and ?st = "jtext (ce_stack c)" and ?e = "jopt (JStr \<circ> wo_error W) (ce_error c)"
  let ?host = "case map_of env ''host'' of None \<Rightarrow> unknown | Some j \<Rightarrow> j"
  let ?kernel = "case map_of env ''kernel'' of None \<Rightarrow> unknown | Some j \<Rightarrow> j"
  let ?blank = "blank_row (jtext run_id) ?host ?kernel (jtext (cf_mode cfg)) ?sc ?st ?e"
  let ?cpu = "\<lambda>out. out\<lparr>ro_py_cpu := shown_pct ''python'' c, ro_btd_cpu := shown_pct ''bluetoothd'' c,
      ro_dbus_cpu := jor (shown_pct ''dbus-broker'' c) (shown_pct ''dbus-daemon'' c)\<rparr>"
  obtain kvs where kvs: "cell_json W c = JObj kvs" "map_of kvs ''scenario'' = Some ?sc" "map_of kvs ''stack'' = Some ?st"
    "map_of kvs ''error'' = Some ?e" "map_of kvs ''result'' = Some (jopt data_json (ce_result c))"
    and cpu: "\<And>out. row_cpu (JObj kvs) out = Inr (?cpu out)"
  proof (cases "ce_params c")
    case None
    with assms have n: "ce_result c = None" "ce_cpu c = None" by (simp_all add: cell_ok_def)
    let ?kvs = "[(''scenario'', ?sc), (''stack'', ?st), (''error'', ?e), (''result'', JNull)]"
    show thesis
      by (rule that [of ?kvs]) (simp_all add: None n cell_json_def jopt_def row_cpu_short shown_pct_def)
  next
    case (Some p)
    let ?kvs = "[(''scenario'', ?sc), (''stack'', ?st),
       (''mode'', jtext (cp_mode p)), (''coexistence'', jtext (cp_coexistence p)),
       (''bluetoothd_paused'', JBool (cp_paused p)), (''params'', params_json W p),
       (''result'', jopt data_json (ce_result c)), (''cpu'', jopt cpu_json (ce_cpu c)),
       (''notes'', JList (map (JStr \<circ> wo_note W) (ce_notes c))), (''error'', ?e)]"
    have "map_of ?kvs ''cpu'' = Some (jopt cpu_json (ce_cpu c))" by simp
    from row_cpu_full [OF refl this] have "row_cpu (JObj ?kvs) out = Inr (?cpu out)" for out
      by (simp only: shown_pct_def)
    moreover have "cell_json W c = JObj ?kvs" by (simp add: Some cell_json_def)
    ultimately show thesis by (intro that [of ?kvs]) simp_all
  qed
  have "report_row (run_json W run_id cfg env cells) (JObj kvs) = Inr (?cpu (filled_row c ?blank))"
    unfolding report_row_def row_base_run [OF kvs(2-4)] rbind_simps jget.simps kvs(2,5) option.case
      row_result_cell [OF assms] cpu ..
  also have "?cpu (filled_row c ?blank) = cell_row W run_id cfg env c"
    unfolding filled_row_def blank_row_def cell_row_def by simp
  finally show ?thesis unfolding kvs(1) .
qed

lemma watched_params: "watched S name cpu deadline ts gen out s = (Inr (c, w), s') \<Longrightarrow> ce_params c = ce_params out"
  by (auto simp: watched_def watch_stop_def rbind_eq_Inr split: if_splits prod.splits sum.splits)

lemma teardown_params:
  "ce_params (fst (teardown_noted S h out s)) = ce_params out \<and> ce_result (fst (teardown_noted S h out s)) = ce_result out"
  by (simp add: teardown_noted_def split: prod.split sum.split)

lemma base_params: "\<exists>p. ce_params (base_result cfg scenario name) = Some p"
  by (simp add: base_result_def)

lemma run_advert_data:
  assumes "run_advert S cfg s = (Inr c, s')"
  shows "ce_params c \<noteq> None \<and> (\<exists>d first. ce_result c = Some (AdvertData d first))"
proof -
  obtain now s1 where 1: "sk_clock S s = (now, s1)" by (cases "sk_clock S s")
  obtain cpu where 2: "for_default_pids (sk_proc S s1) = Inr cpu"
    using assms 1 by (cases "for_default_pids (sk_proc S s1)") (simp_all add: run_advert_def)
  obtain evs gen s2 where 3: "sk_scan S (cf_warmup cfg + cf_duration cfg) s1 = (evs, gen, s2)"
    by (metis prod.exhaust)
  let ?b = "base_result cfg ''advert'' (sk_name S)"
  let ?out = "if ce_stack ?b \<in> {''raw_dbus'', ''lib_bleak''} then ?b\<lparr>ce_notes := ce_notes ?b @ [CoalesceNote]\<rparr> else ?b"
  obtain p where "ce_params ?b = Some p" using base_params by blast
  then have p: "ce_params ?out = Some p" by simp
  from assms have "sx_bind (watched S ''adverts'' cpu (now + cf_warmup cfg) (map ae_t_ns evs) gen ?out) (\<lambda>(out2, w) s3.
        (Inr (out2\<lparr>ce_result := Some (AdvertData (rate_to_dict (wa_rec w)) (wa_first w))\<rparr>), s3)) s2 = (Inr c, s')"
    unfolding run_advert_def Let_def 1 2 3 prod.case sum.case .
  then obtain out2 w s3 where w: "watched S ''adverts'' cpu (now + cf_warmup cfg) (map ae_t_ns evs) gen ?out s2 = (Inr (out2, w), s3)"
    and c: "c = out2\<lparr>ce_result := Some (AdvertData (rate_to_dict (wa_rec w)) (wa_first w))\<rparr>"
    by (elim sx_bindE) auto
  have "ce_params out2 = Some p" using watched_params [OF w] p by (rule trans)
  then show ?thesis unfolding c by simp
qed

lemma run_notify_data:
  assumes "run_notify S cfg x s = (Inr c, s')"
  shows "ce_params c \<noteq> None \<and> (\<exists>d. ce_result c = Some (RateData d))"
proof -
  let ?b = "base_result cfg ''notify'' (sk_name S)"
  let ?out = "?b\<lparr>ce_params := map_option (\<lambda>p. p\<lparr>cp_target_rate_hz := Some (cf_notify_rate_hz cfg)\<rparr>) (ce_params ?b)\<rparr>"
  obtain h s0 where 0: "sk_setup S x s = (Inr h, s0)"
    using assms unfolding run_notify_def by (elim sx_bindE)
  obtain now s1 where 1: "sk_clock S s0 = (now, s1)" by (cases "sk_clock S s0")
  obtain cpu where 2: "for_default_pids (sk_proc S s1) = Inr cpu"
    using assms 0 1 by (cases "for_default_pids (sk_proc S s1)") (simp_all add: run_notify_def sx_bind_def)
  obtain evs gen s2 where 3: "sk_notify S h (cf_char_notify_uuid cfg) (cf_warmup cfg + cf_duration cfg) s1 = (evs, gen, s2)"
    by (metis prod.exhaust)
  from assms have "sx_bind (watched S ''notify'' cpu (now + cf_warmup cfg) (map ne_t_ns evs) gen ?out) (\<lambda>(out2, w) s3.
        let (out3, s4) = teardown_noted S h out2 s3
        in (Inr (out3\<lparr>ce_result := Some (RateData (rate_to_dict (wa_rec w)))\<rparr>), s4)) s2 = (Inr c, s')"
    unfolding run_notify_def sx_bind_def [of "sk_setup S x"] Let_def 0 1 2 3 prod.case sum.case .
  then obtain out2 w s3 where w: "watched S ''notify'' cpu (now + cf_warmup cfg) (map ne_t_ns evs) gen ?out s2 = (Inr (out2, w), s3)"
    and "c = (fst (teardown_noted S h out2 s3))\<lparr>ce_result := Some (RateData (rate_to_dict (wa_rec w)))\<rparr>"
    by (elim sx_bindE) (auto split: prod.splits)
  moreover obtain p where "ce_params ?b = Some p" using base_params by blast
  ultimately show ?thesis using watched_params [OF w] teardown_params [of S h out2 s3] by simp
qed

lemma run_read_write_data:
  assumes "run_read_write S cfg x s = (Inr c, s')"
  shows "ce_params c \<noteq> None \<and> (case ce_result c of None \<Rightarrow> True | Some (RttData _ _) \<Rightarrow> True | _ \<Rightarrow> False)"
proof -
  let ?b = "base_result cfg ''read_write'' (sk_name S)"
  obtain h s1 where s: "sk_setup S x s = (Inr h, s1)"
    using assms unfolding run_read_write_def by (elim sx_bindE)
  obtain r s2 where r: "run_read_write_body S cfg h ?b s1 = (r, s2)"
    by (cases "run_read_write_body S cfg h ?b s1")
  let ?out = "case r of Inl e \<Rightarrow> ?b\<lparr>ce_error := Some (Raised e)\<rparr> | Inr out' \<Rightarrow> out'"
  have c: "c = fst (teardown_noted S h ?out s2)"
    using assms s r by (simp add: run_read_write_def sx_bind_def Let_def split_beta)
  have "ce_params ?out = ce_params ?b \<and> (case ce_result ?out of None \<Rightarrow> True | Some (RttData _ _) \<Rightarrow> True | _ \<Rightarrow> False)"
  proof (cases r)
    case (Inl e)
    then show ?thesis by (simp add: base_result_def)
  next
    case (Inr out')
    then show ?thesis using r
      by (auto simp: run_read_write_body_def base_result_def Let_def elim!: sx_bindE split: sum.splits prod.splits)
  qed
  moreover obtain p where "ce_params ?b = Some p" using base_params by blast
  ultimately show ?thesis unfolding c using teardown_params [of S h ?out s2] by simp
qed

lemma error_cell_ok: "cell_ok (error_cell scenario name e)"
  by (simp add: cell_ok_def error_cell_def)

lemma run_cell_ok: "cell_ok (fst (run_cell name S cfg scenario s))"
proof -
  obtain r s' where r: "run_scenario scenario S cfg s = (r, s')" by (cases "run_scenario scenario S cfg s")
  show ?thesis
  proof (cases r)
    case (Inl e)
    then show ?thesis using r by (simp add: run_cell_def error_cell_ok)
  next
    case (Inr c)
    have c: "run_scenario scenario S cfg s = (Inr c, s')" using r Inr by simp
    have sc: "ce_scenario c = scenario" using run_scenario_label [OF c] by (rule conjunct1)
    from c have "cell_ok c"
    proof (cases rule: run_scenario_cases)
      case advert
      from run_advert_data [OF advert(2)] sc advert(1) show ?thesis by (auto simp: cell_ok_def)
    next
      case (read_write x)
      from run_read_write_data [OF read_write(2)] sc read_write(1) show ?thesis
        by (auto simp: cell_ok_def split: option.splits cell_data.splits)
    next
      case (notify x)
      from run_notify_data [OF notify(2)] sc notify(1) show ?thesis by (auto simp: cell_ok_def)
    next
      case no_target
      then show ?thesis by (simp add: error_cell_ok)
    qed
    then show ?thesis using r Inr by (simp add: run_cell_def)
  qed
qed

lemma run_cells_ok: "list_all cell_ok (fst (run_cells name S cfg xs s))"
proof (induction xs arbitrary: s)
  case (Cons x xs)
  then show ?case using run_cell_ok [of name S cfg x s] by (simp add: split_beta Let_def)
qed simp

lemma run_matrix_ok: "list_all cell_ok (fst (run_matrix load cfg s))"
proof -
  have "list_all cell_ok (fst (run_stacks load cfg ns s))" for ns
  proof (induction ns arbitrary: s)
    case (Cons n ns)
    obtain r s1 where l: "load n cfg s = (r, s1)" by (cases "load n cfg s")
    have "list_all cell_ok (fst (run_stacks load cfg ns s'))" for s' using Cons.IH .
    then show ?case
      using l run_cells_ok [of n _ cfg "cf_scenarios cfg" s1]
      by (cases r) (simp_all add: split_beta Let_def error_cell_ok)
  qed simp
  then show ?thesis by (simp add: run_matrix_def)
qed

text \<open>The report of a run shows what the run measured: from the result file it makes one row per
  cell, in order, with the percentiles, the count, the rate and the shares of the processes that the
  cell holds, and with its error; there is no result file of the runner it fails on.\<close>

theorem report_of_run:
  "run_rows (run_json W run_id cfg env (fst (run_matrix load cfg s)))
    = Inr (map (cell_row W run_id cfg env) (fst (run_matrix load cfg s)))"
proof -
  let ?cells = "fst (run_matrix load cfg s)"
  let ?run = "run_json W run_id cfg env ?cells"
  have "rmap (report_row ?run) (map (cell_json W) cs) = Inr (map (cell_row W run_id cfg env) cs)"
    if "list_all cell_ok cs" for cs
    using that by (induction cs) (simp_all add: report_row_cell)
  from this [OF run_matrix_ok] show ?thesis by (simp add: run_rows_def run_json_def)
qed



section \<open>The shape of the table\<close>

text \<open>Text without a bar and without a line break.\<close>

definition plain :: "ustr \<Rightarrow> bool" where
  "plain t \<longleftrightarrow> 124 \<notin> set t \<and> 10 \<notin> set t"

lemma plain_append [simp]: "plain (a @ b) \<longleftrightarrow> plain a \<and> plain b"
  by (auto simp: plain_def)

lemma plain_dash [simp]: "plain DASH"
  by (simp add: plain_def DASH_def)

lemma plain_uc: "plain (uc s) \<longleftrightarrow> CHR ''|'' \<notin> set s \<and> CHR 0x0A \<notin> set s"
proof -
  have c: "int (of_char c) = 124 \<longleftrightarrow> c = CHR ''|''" "int (of_char c) = 10 \<longleftrightarrow> c = CHR 0x0A" for c :: char
    using of_char_eq_iff [of c "CHR ''|''", where 'a = nat] of_char_eq_iff [of c "CHR 0x0A", where 'a = nat] by simp_all
  have "124 \<in> set (uc s) \<longleftrightarrow> (\<exists>x\<in>set s. int (of_char x) = 124)" "10 \<in> set (uc s) \<longleftrightarrow> (\<exists>x\<in>set s. int (of_char x) = 10)"
    by (force simp: uc_def)+
  then show ?thesis unfolding plain_def c by simp
qed

lemma decw_digits: "c \<in> set (decw d n) \<Longrightarrow> is_digit c"
proof (induction d arbitrary: n)
  case (Suc d)
  have "char_of (48 + n mod 10) = (char_of (nat (48 + int (n mod 10))) :: char)" by (simp add: nat_add_distrib)
  moreover have "is_digit (char_of (nat (48 + int (n mod 10))))" by (rule digit_char(1)) simp_all
  ultimately show ?case using Suc by auto
qed simp

lemma plain_digits: "(\<And>c. c \<in> set s \<Longrightarrow> is_digit c) \<Longrightarrow> plain (uc s)"
proof -
  assume a: "\<And>c. c \<in> set s \<Longrightarrow> is_digit c"
  have "\<not> is_digit CHR ''|''" "\<not> is_digit CHR 0x0A" by (simp_all add: is_digit_def)
  then show ?thesis using a unfolding plain_uc by blast
qed

lemma uc_append [simp]: "uc (s @ t) = uc s @ uc t" "uc (c # s) = int (of_char c) # uc s" "uc [] = []"
  by (simp_all add: uc_def)

lemma plain_Cons: "plain (c # t) \<longleftrightarrow> c \<noteq> 124 \<and> c \<noteq> 10 \<and> plain t"
  by (auto simp: plain_def)

lemma plain_Nil [simp]: "plain []"
  by (simp add: plain_def)

lemma plain_dec: "0 \<le> n \<Longrightarrow> plain (uc (dec_digits n))"
  by (rule plain_digits) (rule dec_digits_chars)

lemma plain_fixed: "plain (uc (fixed_point d t))"
  using plain_dec [of "int (t div 10 ^ d)"] plain_digits [of "decw d (t mod 10 ^ d)", OF decw_digits]
  by (simp add: fixed_point_def plain_Cons)

lemma plain_float: "plain (uc (fmt_float d m k))"
  by (simp add: fmt_float_def plain_fixed plain_Cons)

lemma plain_str_int: "plain (uc (str_int i))"
  using plain_dec [of i] plain_dec [of "- i"] by (simp add: str_int_def plain_Cons)

text \<open>The texts of a row that are printed as they are; the error may have bars.\<close>

definition row_plain :: "(json \<Rightarrow> ustr) \<Rightarrow> row \<Rightarrow> bool" where
  "row_plain other r \<longleftrightarrow>
     list_all (\<lambda>j. plain (str_json other j)) [ro_scenario r, ro_stack r, ro_mode r, ro_host r, ro_n r]
     \<and> (case ro_error r of JStr s \<Rightarrow> 10 \<notin> set s | _ \<Rightarrow> True)"

definition plain_floats :: "(json \<Rightarrow> ustr) \<Rightarrow> bool" where
  "plain_floats other \<longleftrightarrow> (\<forall>m k. plain (other (JFloat m k)))"

lemma plain_tenths: "fmt_tenths v b = Inr t \<Longrightarrow> plain t"
  by (cases "(v, b)" rule: fmt_tenths.cases) (auto simp: rbind_eq_Inr plain_float)

lemma plain_fmt_json: "fmt_json d v = Inr t \<Longrightarrow> plain t"
  by (cases v) (auto simp: rbind_eq_Inr plain_float)

lemma plain_fmt_ns:
  assumes "plain_floats other" "fmt_ns other v = Inr t"
  shows "plain t"
proof -
  have u: "plain (uc ''ns'')" "plain (uc ''us'')" "plain (uc ''ms'')" "plain (uc ''True'')" "plain (uc ''False'')"
    by (simp_all add: plain_Cons)
  have "plain (str_json other v)" if "json_less v 10000 = Inr x" for x
    using that assms(1) u(4,5) plain_str_int by (cases v) (auto simp: plain_floats_def simp del: uc_append)
  then show ?thesis
    using assms(2) u(1-3) by (auto simp: fmt_ns_def rbind_eq_Inr simp del: uc_append split: if_splits dest: plain_tenths)
qed

lemma plain_fmt_pct: "fmt_pct v = Inr t \<Longrightarrow> plain t"
  by (auto simp: fmt_pct_def rbind_eq_Inr plain_Cons split: if_splits dest: plain_fmt_json)

lemma plain_fmt_error:
  assumes "fmt_error e = Inr t" "case e of JStr s \<Rightarrow> 10 \<notin> set s | _ \<Rightarrow> True"
  shows "plain t"
  using assms by (cases e) (auto simp: fmt_error_def jor_def plain_def split: if_splits)

lemma ujoin_shape:
  assumes "list_all plain ls" "ls \<noteq> []"
  shows "count_list (ujoin (uc '' | '') ls) 124 = length ls - 1 \<and> 10 \<notin> set (ujoin (uc '' | '') ls)"
proof -
  have s: "count_list (uc '' | '') 124 = 1" "10 \<notin> set (uc '' | '')" by simp_all
  have z: "count_list l 124 = 0" if "plain l" for l :: ustr using that by (simp add: plain_def count_list_0_iff)
  from assms show ?thesis
    by (induction "uc '' | ''" ls rule: ujoin.induct) (auto simp: z s plain_def simp del: uc_append)
qed

lemma table_line_shape:
  assumes "list_all plain ls" "ls \<noteq> []"
  shows "count_list (table_line ls) 124 = length ls + 1 \<and> 10 \<notin> set (table_line ls)"
  using ujoin_shape [OF assms] assms(2) by (cases ls) (simp_all add: table_line_def)

lemma report_line_shape:
  assumes "plain_floats other" "row_plain other r" "report_line other r = Inr l"
  shows "count_list l 124 = 14 \<and> 10 \<notin> set l"
proof -
  have rate: "plain t" if "(if ro_rate r = JNull then Inr DASH else rbind (fmt_json 1 (ro_rate r)) (\<lambda>t. Inr (t @ uc ''/s''))) = Inr t" for t
    using that plain_fmt_json by (auto simp: rbind_eq_Inr plain_Cons split: if_splits)
  from assms(3) obtain rate err p50 p95 p99 py btd dbus where
    p: "(if ro_rate r = JNull then Inr DASH else rbind (fmt_json 1 (ro_rate r)) (\<lambda>t. Inr (t @ uc ''/s''))) = Inr rate"
      "fmt_error (ro_error r) = Inr err" "fmt_ns other (ro_p50 r) = Inr p50" "fmt_ns other (ro_p95 r) = Inr p95"
      "fmt_ns other (ro_p99 r) = Inr p99" "fmt_pct (ro_py_cpu r) = Inr py" "fmt_pct (ro_btd_cpu r) = Inr btd"
      "fmt_pct (ro_dbus_cpu r) = Inr dbus"
    and l: "l = table_line [str_json other (ro_scenario r), str_json other (ro_stack r), str_json other (ro_mode r),
      str_json other (ro_host r), p50, p95, p99, rate, if ro_n r = JNull then DASH else str_json other (ro_n r), py, btd, dbus, err]"
      (is "l = table_line ?cells")
    unfolding report_line_def Let_def rbind_eq_Inr by blast
  have "list_all plain ?cells"
    using assms(2) rate [OF p(1)] plain_fmt_error [OF p(2)] p(3-8) plain_fmt_ns [OF assms(1)] plain_fmt_pct
    by (auto simp: row_plain_def)
  from table_line_shape [OF this] show ?thesis by (simp add: l)
qed

text \<open>The lines of a text.\<close>

fun ulines :: "ustr \<Rightarrow> ustr list" where
  "ulines [] = [[]]"
| "ulines (c # cs) = (if c = 10 then [] # ulines cs else (c # hd (ulines cs)) # tl (ulines cs))"

lemma ulines_line: "10 \<notin> set l \<Longrightarrow> ulines l = [l]"
  by (induction l) auto

lemma ulines_append: "10 \<notin> set l \<Longrightarrow> ulines (l @ 10 # t) = l # ulines t"
  by (induction l) auto

lemma ulines_join: "ls \<noteq> [] \<Longrightarrow> \<forall>l\<in>set ls. 10 \<notin> set l \<Longrightarrow> ulines (ujoin [10] ls) = ls"
  by (induction "[10 :: int]" ls rule: ujoin.induct) (auto simp: ulines_line ulines_append)

text \<open>Every row of the report is one line of thirteen columns, under the two lines of the heading,
  whatever bars the text of an error has; names and errors without line breaks are needed for that.\<close>

theorem report_table_shape:
  assumes "plain_floats other" "list_all (row_plain other) rows" "render other rows = Inr text"
  shows "length (ulines text) = length rows + 2 \<and> list_all (\<lambda>l. count_list l 124 = 14) (ulines text)"
proof -
  from assms(3) obtain ls where ls: "rmap (report_line other) rows = Inr ls" "text = ujoin [10] (HEADER # SEPARATOR # ls)"
    by (auto simp: render_def rbind_eq_Inr)
  have "list_all (\<lambda>l. count_list l 124 = 14 \<and> 10 \<notin> set l) ls"
    using ls(1) assms(2) report_line_shape [OF assms(1)]
    by (induction rows arbitrary: ls) (auto simp: rbind_eq_Inr)
  moreover have "list_all (\<lambda>l. count_list l 124 = 14 \<and> 10 \<notin> set l) [HEADER, SEPARATOR]"
    by (simp add: HEADER_def SEPARATOR_def)
  ultimately have "list_all (\<lambda>l. count_list l 124 = 14 \<and> 10 \<notin> set l) (HEADER # SEPARATOR # ls)" by simp
  moreover from this have "ulines text = HEADER # SEPARATOR # ls"
    unfolding ls(2) by (intro ulines_join) (auto simp: list_all_iff)
  ultimately show ?thesis using rmap_length [OF ls(1)] by (simp add: list_all_iff)
qed

theorem report_table_shape_witness:
  "\<exists>text. render (\<lambda>_. []) [blank_row unknown (jtext ''pi'') unknown (jtext ''micro'') (jtext ''advert'') (jtext ''raw_l2cap'')
       (jtext ''OSError: a|b'')] = Inr text
    \<and> length (ulines text) = 3 \<and> list_all (\<lambda>l. count_list l 124 = 14) (ulines text)"
proof -
  let ?r = "blank_row unknown (jtext ''pi'') unknown (jtext ''micro'') (jtext ''advert'') (jtext ''raw_l2cap'')
    (jtext ''OSError: a|b'')"
  have "plain_floats (\<lambda>_. [])" by (simp add: plain_floats_def)
  moreover have "list_all (row_plain (\<lambda>_. [])) [?r]"
    by (simp add: row_plain_def blank_row_def jtext_def plain_Cons)
  moreover obtain l where "report_line (\<lambda>_. []) ?r = Inr l"
    by (simp add: report_line_def blank_row_def fmt_error_def jor_def jtext_def fmt_ns_def fmt_pct_def Let_def)
  then have "render (\<lambda>_. []) [?r] = Inr (ujoin (uc [CHR 0x0A]) [HEADER, SEPARATOR, l])" (is "_ = Inr ?t")
    by (simp add: render_def)
  ultimately have "length (ulines ?t) = length [?r] + 2 \<and> list_all (\<lambda>l. count_list l 124 = 14) (ulines ?t)"
    by (rule report_table_shape)
  then show ?thesis using \<open>render (\<lambda>_. []) [?r] = Inr ?t\<close> by (intro exI [of _ ?t]) simp
qed


section \<open>The exit code\<close>

text \<open>Files that cannot be read or are not JSON are skipped; the others contribute their rows in the
  order of the paths.\<close>

lemma gather_rows:
  assumes "list_all (\<lambda>p. rf_load fs p = Unreadable \<or> (\<exists>run rows. rf_load fs p = Loaded run \<and> run_rows run = Inr rows)) ps"
  shows "gather fs ps = (filter (\<lambda>p. rf_load fs p = Unreadable) ps, Inr (concat (map (\<lambda>p. case rf_load fs p of
      Loaded run \<Rightarrow> (case run_rows run of Inr rows \<Rightarrow> rows | Inl _ \<Rightarrow> []) | _ \<Rightarrow> []) ps)))"
  using assms by (induction ps) auto

lemma report_exit:
  assumes "report_main fs other argv = (sk, Inr (out, code))"
  shows "code = (if out = None then 1 else 0)"
  using assms by (auto simp: report_main_def rbind_eq_Inr split: prod.splits if_splits)

text \<open>The results that \<open>bench.microbench.echo\<close> writes into the same directory have other keys: the report
  makes rows of them that say nothing.\<close>

lemma foreign_results_row:
  assumes "map_of kvs ''scenario'' = None" "map_of kvs ''stack'' = None" "map_of kvs ''cpu'' = None"
    "map_of kvs ''error'' = None" "map_of env ''host'' = Some h" "map_of env ''kernel'' = Some kern"
  shows "report_row (JObj [(''env'', JObj env), (''results'', JList rs)]) (JObj kvs)
    = Inr (blank_row unknown h kern unknown unknown unknown JNull)"
  using assms
  by (simp add: report_row_def row_base_def jget2_def row_result_def row_cpu_def proc_pct_none blank_row_def
      unknown_def jtext_def uc_def)

end
