(* ===== verification/Bench_Run.thy ===== *)
theory Bench_Run
  imports Bench_Scenarios Bench_Micro
begin

text \<open>
  The micro stack as a stack of the runner, and a run of the matrix over it: the in-memory peripheral,
  the ATT client, the scenarios and the recorders together.  The world holds the session, the readings
  of the clock still to come, the turns of the scan loop and the wake-ups of the notification loop.
\<close>

record micro_world =
  mw_session :: "(fake, nat) session option"
  mw_clock :: "nat \<Rightarrow> int"
  mw_ticks :: nat
  mw_proc :: proc_env
  mw_turns :: "(int \<times> int) list"
  mw_wakes :: "nat list"
  mw_pump :: "(nat \<times> nat) list"

definition micro_clock :: "micro_world \<Rightarrow> int \<times> micro_world" where
  "micro_clock s = (mw_clock s (mw_ticks s), s\<lparr>mw_ticks := mw_ticks s + 1\<rparr>)"

text \<open>An operation of the session behind a handle.\<close>

definition with_session :: "((fake, nat) session, 'a) sx \<Rightarrow> (micro_world, 'a) sx" where
  "with_session f s =
     (case mw_session s of
        None \<Rightarrow> (Inl KeyError, s)
      | Some h \<Rightarrow> (let (r, h') = f h in (r, s\<lparr>mw_session := Some h'\<rparr>)))"

definition micro_stack :: "bench_config \<Rightarrow> (micro_world, unit) stack" where
  "micro_stack cfg =
     \<lparr>sk_name = ''micro_fake'',
      sk_scan = (\<lambda>duration s.
        let (now, s1) = micro_clock s
        in (micro_scan (now + duration) (mw_turns s), Inr (), s1)),
      sk_setup = (\<lambda>_ s.
        case micro_setup (nat (cf_payload_size cfg)) (cf_notify_rate_hz cfg) (mw_pump s) of
          Inl e \<Rightarrow> (Inl e, s) | Inr h \<Rightarrow> (Inr (), s\<lparr>mw_session := Some h\<rparr>)),
      sk_teardown = (\<lambda>_. with_session (\<lambda>h. (Inr (), micro_teardown h))),
      sk_read = (\<lambda>_ uuid. with_session (micro_read uuid)),
      sk_write = (\<lambda>_ uuid d. with_session (micro_write uuid d)),
      sk_notify = (\<lambda>_ uuid duration s.
        let (now, s1) = micro_clock s
        in case with_session (micro_notify 0 uuid duration now (mw_wakes s)) s1 of
             (Inl e, s2) \<Rightarrow> ([], Inl e, s2) | (Inr evs, s2) \<Rightarrow> (evs, Inr (), s2)),
      sk_clock = micro_clock, sk_proc = mw_proc\<rparr>"

text \<open>The loader of the micro mode.\<close>

definition load_micro :: "string \<Rightarrow> bench_config \<Rightarrow> (micro_world, (micro_world, unit) stack) sx" where
  "load_micro n cfg s = (if n = ''micro_fake'' then (Inr (micro_stack cfg), s) else (Inl RuntimeError, s))"


section \<open>A run succeeds\<close>

text \<open>The process table can be read: no file of it makes the tracker raise.\<close>

definition readable :: "proc_env \<Rightarrow> bool" where
  "readable e \<longleftrightarrow> (\<exists>cpu. for_default_pids e = Inr cpu \<and> (\<exists>m. snapshot e (ct_pids cpu) = Inr m))"

definition in_state :: "nat \<Rightarrow> proc_env \<Rightarrow> micro_world \<Rightarrow> bool" where
  "in_state n e s \<longleftrightarrow> mw_proc s = e \<and> (\<exists>h. mw_session s = Some h \<and> micro_ok n h)"

lemma micro_stack_read:
  assumes "in_state n e s" "n \<le> 245"
  shows "\<exists>s'. sk_read (micro_stack cfg) u MICRO_READ s = (Inr (pattern n), s') \<and> in_state n e s'"
proof -
  obtain h where h: "mw_session s = Some h" "micro_ok n h" using assms(1) by (auto simp: in_state_def)
  obtain r h' where m: "micro_read MICRO_READ h = (r, h')" by (cases "micro_read MICRO_READ h")
  from micro_read_ok [OF h(2)] assms(2) m have "r = Inr (pattern n)" "micro_ok n h'" by simp_all
  then show ?thesis using assms(1) h(1) m by (simp add: micro_stack_def with_session_def in_state_def)
qed

lemma micro_stack_write:
  assumes "in_state n e s"
  shows "\<exists>s'. sk_write (micro_stack cfg) u MICRO_WRITE d s = (Inr (), s') \<and> in_state n e s'"
proof -
  obtain h where h: "mw_session s = Some h" "micro_ok n h" using assms(1) by (auto simp: in_state_def)
  obtain r h' where m: "micro_write MICRO_WRITE d h = (r, h')" by (cases "micro_write MICRO_WRITE d h")
  from micro_write_ok [OF h(2), of d] m have "r = Inr ()" "micro_ok n h'" by simp_all
  then show ?thesis using assms(1) h(1) m by (simp add: micro_stack_def with_session_def in_state_def)
qed

lemma in_state_clock: "in_state n e s \<Longrightarrow> in_state n e (snd (micro_clock s))"
  by (simp add: in_state_def micro_clock_def)

lemma sk_clock_micro [simp]: "sk_clock (micro_stack cfg) = micro_clock" "sk_proc (micro_stack cfg) = mw_proc"
  "sk_name (micro_stack cfg) = ''micro_fake''"
  by (simp_all add: micro_stack_def)

text \<open>The characteristics of the configuration are those of the peripheral.\<close>

definition micro_cfg :: "bench_config \<Rightarrow> bool" where
  "micro_cfg cfg \<longleftrightarrow> cf_char_read_uuid cfg = CHR_READ_UUID \<and> cf_char_write_uuid cfg = CHR_WRITE_UUID
     \<and> cf_char_notify_uuid cfg = CHR_NOTIFY_UUID"

lemma micro_cfg_uuids: "micro_cfg cfg \<Longrightarrow> cf_char_read_uuid cfg = MICRO_READ \<and> cf_char_write_uuid cfg = MICRO_WRITE"
  by (simp add: micro_cfg_def CHR_READ_UUID_def CHR_WRITE_UUID_def micro_uuids)

lemma micro_warmup:
  assumes "micro_cfg cfg" "n \<le> 245" "in_state n e s"
  shows "\<exists>s'. warmup_rounds (micro_stack cfg) cfg h payload k s = (Inr (), s') \<and> in_state n e s'"
  using assms(3)
proof (induction k arbitrary: s)
  case (Suc k)
  obtain s1 where 1: "sk_read (micro_stack cfg) h MICRO_READ s = (Inr (pattern n), s1)" "in_state n e s1"
    using micro_stack_read [OF Suc.prems assms(2)] by blast
  obtain s2 where 2: "sk_write (micro_stack cfg) h MICRO_WRITE payload s1 = (Inr (), s2)" "in_state n e s2"
    using micro_stack_write [OF 1(2)] by blast
  from Suc.IH [OF 2(2)] show ?case using micro_cfg_uuids [OF assms(1)] 1(1) 2(1) by (simp add: sx_bind_def)
qed simp

lemma micro_timed:
  assumes "\<And>s. in_state n e s \<Longrightarrow> \<exists>x s'. f s = (Inr x, s') \<and> in_state n e s'" "in_state n e s"
  shows "\<exists>r s'. timed (micro_stack cfg) f rec s = (Inr r, s') \<and> in_state n e s'"
proof -
  obtain x s' where f: "f (snd (micro_clock s)) = (Inr x, s')" "in_state n e s'"
    using assms(1) [OF in_state_clock [OF assms(2)]] by blast
  then show ?thesis using in_state_clock [OF f(2)] by (simp add: timed_def split_beta Let_def)
qed

lemma micro_rounds:
  assumes "micro_cfg cfg" "n \<le> 245" "in_state n e s"
  shows "\<exists>r s'. rtt_rounds (micro_stack cfg) cfg h payload k recs s = (Inr r, s') \<and> in_state n e s'"
  using assms(3)
proof (induction k arbitrary: s recs)
  case (Suc k)
  let ?S = "micro_stack cfg"
  obtain rd s1 where 1: "timed ?S (sk_read ?S h MICRO_READ) (fst recs) s = (Inr rd, s1)" "in_state n e s1"
    using micro_timed [OF _ Suc.prems, of "sk_read ?S h MICRO_READ"] micro_stack_read [OF _ assms(2)] by blast
  obtain wr s2 where 2: "timed ?S (sk_write ?S h MICRO_WRITE payload) (snd recs) s1 = (Inr wr, s2)" "in_state n e s2"
    using micro_timed [OF _ 1(2), of "sk_write ?S h MICRO_WRITE payload"] micro_stack_write by blast
  from Suc.IH [OF 2(2), of "(rd, wr)"] show ?case
    using micro_cfg_uuids [OF assms(1)] 1(1) 2(1) by (simp add: sx_bind_def)
qed simp

lemma readable_tracker:
  assumes "readable e" "for_default_pids e = Inr cpu"
  shows "\<exists>t. tracker_start now e cpu = (Inr (), t) \<and> ct_pids t = ct_pids cpu"
    and "ct_pids t = ct_pids cpu \<Longrightarrow> \<exists>t'. tracker_stop now e t = (Inr (), t')"
  using assms by (auto simp: readable_def tracker_start_def tracker_stop_def)

lemma micro_rtt_run:
  assumes "micro_cfg cfg" "0 \<le> cf_payload_size cfg" "cf_payload_size cfg \<le> 245" "readable (mw_proc s)"
  shows "\<exists>c s' rd wr. run_read_write (micro_stack cfg) cfg target s = (Inr c, s')
    \<and> ce_error c = None \<and> ce_notes c = [] \<and> ce_result c = Some (RttData (latency_dict rd) (latency_dict wr))
    \<and> length (lr_samples rd) = nat (cf_rtt_iters cfg) \<and> length (lr_samples wr) = nat (cf_rtt_iters cfg)"
proof -
  let ?S = "micro_stack cfg" and ?n = "nat (cf_payload_size cfg)" and ?e = "mw_proc s"
  let ?out = "base_result cfg ''read_write'' (sk_name ?S)" and ?p = "byte_pattern (cf_payload_size cfg)"
  obtain x where x: "micro_setup ?n (cf_notify_rate_hz cfg) (mw_pump s)
      = Inr (micro_start ?n (cf_notify_rate_hz cfg) x :: (fake, nat) session)"
    using micro_setup_start by blast
  let ?s0 = "s\<lparr>mw_session := Some (micro_start ?n (cf_notify_rate_hz cfg) x)\<rparr>"
  have su: "sk_setup ?S target s = (Inr (), ?s0)" using x by (simp add: micro_stack_def)
  have n: "?n \<le> 245" using assms(3) by simp
  have s0: "in_state ?n ?e ?s0" using micro_start_ok by (simp add: in_state_def)
  obtain s1 where w: "warmup_rounds ?S cfg () ?p (nat (cf_warmup_iters cfg)) ?s0 = (Inr (), s1)" "in_state ?n ?e s1"
    using micro_warmup [OF assms(1) n s0] by blast
  obtain cpu where cpu: "for_default_pids ?e = Inr cpu" using assms(4) by (auto simp: readable_def)
  let ?s1 = "snd (micro_clock s1)" and ?t = "fst (micro_clock s1)"
  obtain t1 where t1: "tracker_start ?t ?e cpu = (Inr (), t1)" "ct_pids t1 = ct_pids cpu"
    using readable_tracker(1) [OF assms(4) cpu] by blast
  have s1: "in_state ?n ?e ?s1" "mw_proc ?s1 = ?e" "mw_proc s1 = ?e"
    using in_state_clock [OF w(2)] w(2) by (simp_all add: in_state_def)
  let ?recs = "(latency_init ''read_rtt_ns'', latency_init ''write_rtt_ns'')"
  obtain r s2 where r: "rtt_rounds ?S cfg () ?p (nat (cf_rtt_iters cfg)) ?recs ?s1 = (Inr r, s2)" "in_state ?n ?e s2"
    using micro_rounds [OF assms(1) n s1(1)] by blast
  let ?s2 = "snd (micro_clock s2)" and ?t2 = "fst (micro_clock s2)"
  obtain t2 where t2: "tracker_stop ?t2 ?e t1 = (Inr (), t2)"
    using readable_tracker(2) [OF assms(4) cpu t1(2)] by blast
  have s2: "in_state ?n ?e ?s2" "mw_proc ?s2 = ?e" using in_state_clock [OF r(2)] by (simp_all add: in_state_def)
  let ?c = "?out\<lparr>ce_result := Some (RttData (latency_dict (fst r)) (latency_dict (snd r))), ce_cpu := Some (tracker_dict t2)\<rparr>"
  have body: "run_read_write_body ?S cfg () ?out ?s0 = (Inr ?c, ?s2)"
    using w(1) cpu s1(2,3) t1(1) r(1) s2(2) t2
    by (simp add: run_read_write_body_def sx_bind_def cpu_start_def cpu_stop_def split_beta Let_def)
  obtain h where "mw_session ?s2 = Some h" using s2(1) by (auto simp: in_state_def)
  then have "teardown_noted ?S () ?c ?s2 = (?c, ?s2\<lparr>mw_session := Some (micro_teardown h)\<rparr>)"
    by (simp add: teardown_noted_def micro_stack_def with_session_def)
  then have "run_read_write ?S cfg target s = (Inr ?c, ?s2\<lparr>mw_session := Some (micro_teardown h)\<rparr>)"
    using su body by (simp add: run_read_write_def sx_bind_def)
  moreover have "ce_error ?c = None" "ce_notes ?c = []" by (simp_all add: base_result_def)
  moreover have "length (lr_samples (fst r)) = nat (cf_rtt_iters cfg)" "length (lr_samples (snd r)) = nat (cf_rtt_iters cfg)"
    using rtt_rounds_count [OF r(1)] by (simp_all add: latency_init_def)
  ultimately show ?thesis by (intro exI [of _ ?c] exI [of _ "?s2\<lparr>mw_session := Some (micro_teardown h)\<rparr>"]
    exI [of _ "fst r"] exI [of _ "snd r"]) simp
qed


text \<open>A host without a process table, and a short run on it.\<close>

definition bare_host :: micro_world where
  "bare_host = \<lparr>mw_session = None, mw_clock = (\<lambda>n. 1000 * int n), mw_ticks = 0,
     mw_proc = \<lparr>pe_list = Inl (OSError 2), pe_comm = (\<lambda>_. Inl (OSError 2)), pe_stat = (\<lambda>_. Inl (OSError 2)),
       pe_status = (\<lambda>_. Inl (OSError 2)), pe_hz = None, pe_self = 42\<rparr>,
     mw_turns = [], mw_wakes = [], mw_pump = []\<rparr>"

definition short_cfg :: bench_config where
  "short_cfg = default_config\<lparr>cf_target := Some ''C8:47:8C:E1:E2:E3'', cf_mode := ''micro'', cf_rtt_iters := 3,
     cf_warmup_iters := 1, cf_scenarios := [''read_write'']\<rparr>"

lemma short_run: "micro_cfg short_cfg" "cf_payload_size short_cfg = 20" "cf_rtt_iters short_cfg = 3"
  "resolve_stacks short_cfg = [''micro_fake'']" "cf_scenarios short_cfg = [''read_write'']"
  "cf_target short_cfg = Some ''C8:47:8C:E1:E2:E3''" "readable (mw_proc bare_host)"
proof -
  show "readable (mw_proc bare_host)"
    by (simp add: readable_def bare_host_def for_default_pids_def DEFAULT_COMMS_def resolve_pid_by_comm_def
        tracker_init_def snapshot_def read_proc_cpu_ns_def)
qed (simp_all add: micro_cfg_def short_cfg_def default_config_def resolve_stacks_def)


lemma load_micro_names: "names_stacks load_micro"
  unfolding names_stacks_def load_micro_def by (auto simp: micro_stack_def)

theorem exit_code_complete_witness:
  "map (\<lambda>c. (ce_stack c, ce_scenario c)) (fst (run_matrix load_micro short_cfg bare_host))
    = [(''micro_fake'', ''read_write'')]"
proof -
  obtain c s' where c: "run_read_write (micro_stack short_cfg) short_cfg ''C8:47:8C:E1:E2:E3'' bare_host = (Inr c, s')"
    "ce_error c = None"
    using micro_rtt_run [OF short_run(1) _ _ short_run(7)] short_run(2) by fastforce
  have "run_cell ''micro_fake'' (micro_stack short_cfg) short_cfg ''read_write'' bare_host = (c, s')"
    using c(1) by (simp add: run_cell_def run_scenario_def short_run)
  then have "fst (run_matrix load_micro short_cfg bare_host) = [c]"
    by (simp add: run_matrix_def short_run load_micro_def)
  then have "exit_code (fst (run_matrix load_micro short_cfg bare_host)) = 0"
    using c(2) by (simp add: exit_code_def)
  from exit_code_complete [OF load_micro_names this] show ?thesis by (simp add: short_run)
qed

end
