(* ===== verification/Bench_Main.thy ===== *)
theory Bench_Main
  imports Bench_Process Bench_Report Bench_Run
begin

text \<open>
  The command \<open>bench.runner\<close> around the matrix of \<open>Bench_Scenarios\<close>: its arguments, the capture of the
  environment (\<open>jsonout.py\<close>), the peripheral it may start, the result file, and the exit code; and the
  way from there to the table of the report.
\<close>

section \<open>Arguments\<close>

definition default_args :: cli_args where
  "default_args =
     \<lparr>ns_mode = ''integration'', ns_target = None, ns_adapter = ''hci0'', ns_peripheral_adapter = None,
      ns_use_mock_peripheral = False, ns_duration = 10000000000, ns_rtt_iters = 1000, ns_warmup_iters = 50,
      ns_warmup = 2000000000, ns_notify_rate = 200, ns_payload_size = 20,
      ns_scenarios = [''advert'', ''read_write'', ''notify''],
      ns_stacks = [''raw_l2cap'', ''raw_dbus'', ''lib_bluek'', ''lib_bleak''], ns_isolate_adapter = False,
      ns_results_dir = ''bench/results'', ns_run_id = None\<rparr>"

text \<open>The choices the parser accepts.\<close>

definition args_ok :: "cli_args \<Rightarrow> bool" where
  "args_ok ns \<longleftrightarrow> ns_mode ns \<in> {''integration'', ''micro''}
     \<and> ns_scenarios ns \<noteq> [] \<and> set (ns_scenarios ns) \<subseteq> {''advert'', ''read_write'', ''notify''}
     \<and> ns_stacks ns \<noteq> [] \<and> set (ns_stacks ns) \<subseteq> {''raw_l2cap'', ''raw_dbus'', ''lib_bluek'', ''lib_bleak''}"


section \<open>The environment\<close>

record host_info =
  hi_host :: string
  hi_platform :: string
  hi_python :: string
  hi_version :: "string \<Rightarrow> string option"

fun dict_set :: "string \<Rightarrow> json \<Rightarrow> (string \<times> json) list \<Rightarrow> (string \<times> json) list" where
  "dict_set k v [] = [(k, v)]"
| "dict_set k v ((k', v') # kvs) = (if k = k' then (k, v) # kvs else (k', v') # dict_set k v kvs)"

definition capture_env :: "tools \<Rightarrow> host_info \<Rightarrow> (string \<times> json) list \<Rightarrow> (string \<times> json) list" where
  "capture_env T H extra = fold (\<lambda>(k, v). dict_set k v) extra
     [(''host'', jtext (hi_host H)), (''platform'', jtext (hi_platform H)),
      (''kernel'', jopt jtext (safe_run T [''uname'', ''-r''])), (''python'', jtext (hi_python H)),
      (''bluez_version'', jopt jtext (safe_run T [''bluetoothctl'', ''--version''])),
      (''pkg_versions'', JObj (map (\<lambda>n. (n, jopt jtext (hi_version H n)))
         [''bluek'', ''bleak'', ''dbus-fast'', ''bumble'', ''psutil'']))]"


section \<open>The run\<close>

record run_result =
  ru_id :: string
  ru_config :: bench_config
  ru_env :: "(string \<times> json) list"
  ru_cells :: "cell list"

text \<open>The world outside the stacks: tools, host, the peripheral's process, and the time stamp.\<close>

record 'c run_world =
  rw_tools :: tools
  rw_host :: host_info
  rw_child :: "'c \<Rightarrow> child"
  rw_peripheral :: 'c
  rw_spawn :: "exn option"
  rw_timestamp :: string

definition run_id_of :: "'c run_world \<Rightarrow> bench_config \<Rightarrow> string" where
  "run_id_of R cfg =
     (case cf_run_id cfg of
        Some (c # cs) \<Rightarrow> c # cs
      | _ \<Rightarrow> make_run_id (rw_timestamp R) (hi_host (rw_host R)))"

definition main_async ::
  "'c run_world \<Rightarrow> (string \<Rightarrow> bench_config \<Rightarrow> ('s, ('s, 'h) stack) sx) \<Rightarrow> bench_config
   \<Rightarrow> ('s \<times> 'c process_event list, run_result) sx" where
  "main_async R load cfg st =
     (let env = capture_env (rw_tools R) (rw_host R)
            [(''adapter'', jtext (cf_adapter cfg)), (''target'', jopt jtext (cf_target cfg))];
          result = (\<lambda>cfg' env' cells. \<lparr>ru_id = run_id_of R cfg', ru_config = cfg', ru_env = env', ru_cells = cells\<rparr>)
      in if cf_use_mock_peripheral cfg \<and> cf_mode cfg = ''integration'' then
           (case cf_peripheral_adapter cfg of
              Some (c # cs) \<Rightarrow>
                bumble_peripheral (rw_tools R) (rw_child R) (rw_peripheral R) (rw_spawn R) (c # cs) True 10000000000
                  (\<lambda>mac s.
                     let cfg' = cfg\<lparr>cf_target := Some mac\<rparr>;
                         env' = dict_set ''mock_peripheral'' (JObj [(''adapter'', jtext (c # cs)), (''address'', jtext mac)])
                                  (dict_set ''target'' (jtext mac) env);
                         (cells, s') = run_matrix load cfg' s
                     in (Inr (result cfg' env' cells), s')) st
            | _ \<Rightarrow> (Inl SystemExit, st))
         else
           (let (cells, s') = run_matrix load cfg (fst st) in (Inr (result cfg env cells), (s', snd st))))"

text \<open>The path and the contents of the file, and the exit code.\<close>

definition runner_main ::
  "wording \<Rightarrow> 'c run_world \<Rightarrow> (string \<Rightarrow> bench_config \<Rightarrow> ('s, ('s, 'h) stack) sx) \<Rightarrow> cli_args
   \<Rightarrow> ('s \<times> 'c process_event list, string \<times> json \<times> int) sx" where
  "runner_main W R load ns =
     sx_bind (main_async R load (cfg_from_args ns)) (\<lambda>r st.
       (Inr (run_path (cf_results_dir (ru_config r)) (ru_id r),
             run_json W (ru_id r) (ru_config r) (ru_env r) (ru_cells r),
             exit_code (ru_cells r)), st))"


section \<open>From a run to its report\<close>

text \<open>The cells of a run are those of a matrix.\<close>

lemma main_async_cells:
  assumes "main_async R load cfg st = (Inr r, st')"
  shows "\<exists>s. ru_cells r = fst (run_matrix load (ru_config r) s)"
proof (cases "cf_use_mock_peripheral cfg \<and> cf_mode cfg = ''integration''")
  case False
  then have "ru_cells r = fst (run_matrix load cfg (fst st)) \<and> ru_config r = cfg"
    using assms by (auto simp: main_async_def Let_def split: prod.splits if_splits)
  then show ?thesis by auto
next
  case True
  then obtain c cs where ad: "cf_peripheral_adapter cfg = Some (c # cs)"
    using assms by (auto simp: main_async_def Let_def split: option.splits list.splits)
  have "rw_spawn R = None" using assms True ad
    by (cases "rw_spawn R") (auto simp: main_async_def bumble_peripheral_def Let_def split: prod.splits)
  moreover obtain mac where "read_ready 10000000000 (ch_lines (rw_child R (rw_peripheral R))) = Inr mac"
    using assms True ad calculation
    by (cases "read_ready 10000000000 (ch_lines (rw_child R (rw_peripheral R)))")
      (auto simp: main_async_def bumble_peripheral_def Let_def split: prod.splits)
  ultimately have "ru_config r = cfg\<lparr>cf_target := Some mac\<rparr>
      \<and> ru_cells r = fst (run_matrix load (cfg\<lparr>cf_target := Some mac\<rparr>) (fst st))"
    using assms True ad by (auto simp: main_async_def bumble_peripheral_def Let_def split: prod.splits)
  then show ?thesis by auto
qed

lemma cell_row_error: "ro_error (cell_row W run_id cfg env c) = JNull \<longleftrightarrow> ce_error c = None"
  by (simp add: cell_row_def jopt_def split: option.split)


definition demo_world :: "unit run_world" where
  "demo_world = \<lparr>rw_tools = \<lparr>to_have = (\<lambda>_. True), to_run = (\<lambda>_. Some (0, ''6.1.0''))\<rparr>,
     rw_host = \<lparr>hi_host = ''pi'', hi_platform = ''Linux'', hi_python = ''3.12.1'', hi_version = (\<lambda>_. None)\<rparr>,
     rw_child = (\<lambda>_. \<lparr>ch_lines = [], ch_running = True, ch_gone = False, ch_obeys = True\<rparr>), rw_peripheral = (),
     rw_spawn = None, rw_timestamp = ''20250101T000000''\<rparr>"

definition demo_wording :: wording where
  "demo_wording = \<lparr>wo_error = (\<lambda>_. uc ''RuntimeError: ''), wo_note = (\<lambda>_. []), wo_seconds = (\<lambda>_. JInt 0)\<rparr>"


text \<open>A run against the peripheral it starts itself measures that peripheral, under the address it
  announced, and has stopped it by the time it ends.\<close>

theorem mock_run:
  assumes "cf_use_mock_peripheral cfg" "cf_mode cfg = ''integration''" "cf_peripheral_adapter cfg = Some ad" "ad \<noteq> []"
    and "ch_running (rw_child R (rw_peripheral R))" "rw_spawn R = None"
  shows "case main_async R load cfg (s, []) of (r, (s', evs)) \<Rightarrow>
    Reaped (rw_peripheral R) \<in> set evs \<and> Spawned (rw_peripheral R) \<in> set evs
    \<and> (case read_ready 10000000000 (ch_lines (rw_child R (rw_peripheral R))) of
         Inl e \<Rightarrow> r = Inl e \<and> s' = s
       | Inr mac \<Rightarrow>
           (let m = run_matrix load (cfg\<lparr>cf_target := Some mac\<rparr>) s
            in s' = snd m \<and> (\<exists>run. r = Inr run \<and> ru_cells run = fst m \<and> cf_target (ru_config run) = Some mac
                 \<and> map_of (ru_env run) ''target'' = Some (jtext mac))))"
proof -
  have set_other: "map_of (dict_set k v kvs) k' = (if k = k' then Some v else map_of kvs k')" for k k' v kvs
    by (induction kvs) auto
  obtain c cs where ad: "ad = c # cs" using assms(4) by (cases ad) auto
  show ?thesis
    using assms(1-3,5,6)
    by (cases "read_ready 10000000000 (ch_lines (rw_child R (rw_peripheral R)))")
      (auto simp: ad main_async_def bumble_peripheral_def supervisor_finally_def reap_def Let_def set_other split_beta)
qed

end
