(* ===== verification/Bench_Echo.thy ===== *)
theory Bench_Echo
  imports Bench_Json
begin

text \<open>
  \<open>bench/microbench/echo.py\<close>, the sockets: the echo server and its client as two processes that
  share a connection of \<open>SOCK_SEQPACKET\<close> packets.  Each function is the next step of one process, in
  the order of the code's system calls; it is undefined where the process is blocked.  \<open>estep\<close>
  interleaves them, and time passes between the steps.  A received packet is cut to 65536 bytes, and
  an empty one looks like the end of the connection.
\<close>

section \<open>The two processes\<close>

record echo_args =
  ea_payload :: bytes
  ea_iters :: nat
  ea_warmup :: nat

text \<open>Where the server is: before \<open>listen\<close>, and in its two loops.  It stops when a \<open>send\<close> raises.\<close>

datatype server_at = SStart | SAccept | SRecv | SSend bytes | SClose | SDead exn

text \<open>Where the client is, with the rounds of warm-up and measuring left and the samples; \<open>t0\<close> is
  \<open>None\<close> during the warm-up.\<close>

datatype client_at =
    CConnect nat
  | CRound nat nat "int list"
  | CSend nat nat "int list" "int option"
  | CRecv nat nat "int list" "int option"
  | CTime nat nat "int list" "int option"
  | CClose "int list result"
  | CDone "int list result"

record echo_state =
  es_now :: int
  es_server :: server_at
  es_client :: client_at
  es_connected :: bool
  es_accepted :: bool
  es_up :: "bytes list"
  es_down :: "bytes list"
  es_client_open :: bool
  es_server_open :: bool

definition EPIPE :: int where "EPIPE = 32"
definition EMSGSIZE :: int where "EMSGSIZE = 90"

definition echo_init :: echo_state where
  "echo_init = \<lparr>es_now = 0, es_server = SStart, es_client = CConnect 50, es_connected = False, es_accepted = False,
     es_up = [], es_down = [], es_client_open = True, es_server_open = True\<rparr>"

text \<open>The server.  Before \<open>listen\<close> it removes an old socket file and binds.  \<open>limit\<close> is the largest packet
  that can be sent.\<close>

definition server_step :: "nat \<Rightarrow> echo_state \<Rightarrow> echo_state option" where
  "server_step limit s =
     (case es_server s of
        SStart \<Rightarrow> Some (s\<lparr>es_server := SAccept\<rparr>)
      | SAccept \<Rightarrow>
          (if es_connected s \<and> \<not> es_accepted s then Some (s\<lparr>es_accepted := True, es_server := SRecv\<rparr>) else None)
      | SRecv \<Rightarrow>
          (case es_up s of
             d # ds \<Rightarrow>
               (let data = take 65536 d
                in Some (s\<lparr>es_up := ds, es_server := (if data = [] then SClose else SSend data)\<rparr>))
           | [] \<Rightarrow> if es_client_open s then None else Some (s\<lparr>es_server := SClose\<rparr>))
      | SSend data \<Rightarrow>
          (if \<not> es_client_open s then Some (s\<lparr>es_server_open := False, es_server := SDead (OSError EPIPE)\<rparr>)
           else if limit < length data then Some (s\<lparr>es_server_open := False, es_server := SDead (OSError EMSGSIZE)\<rparr>)
           else Some (s\<lparr>es_down := es_down s @ [data], es_server := SRecv\<rparr>))
      | SClose \<Rightarrow> Some (s\<lparr>es_server_open := False, es_server := SAccept\<rparr>)
      | SDead e \<Rightarrow> None)"

definition client_step :: "nat \<Rightarrow> echo_args \<Rightarrow> echo_state \<Rightarrow> echo_state option" where
  "client_step limit A s =
     (case es_client s of
        CConnect 0 \<Rightarrow> Some (s\<lparr>es_client := CDone (Inl RuntimeError)\<rparr>)
      | CConnect (Suc n) \<Rightarrow>
          (if es_server s = SStart then Some (s\<lparr>es_now := es_now s + 20000000, es_client := CConnect n\<rparr>)
           else Some (s\<lparr>es_connected := True, es_client := CRound (ea_warmup A) (ea_iters A) []\<rparr>))
      | CRound (Suc w) i ts \<Rightarrow> Some (s\<lparr>es_client := CSend w i ts None\<rparr>)
      | CRound 0 (Suc i) ts \<Rightarrow> Some (s\<lparr>es_client := CSend 0 i ts (Some (es_now s))\<rparr>)
      | CRound 0 0 ts \<Rightarrow> Some (s\<lparr>es_client := CClose (Inr ts)\<rparr>)
      | CSend w i ts t0 \<Rightarrow>
          (if \<not> es_server_open s then Some (s\<lparr>es_client := CClose (Inl (OSError EPIPE))\<rparr>)
           else if limit < length (ea_payload A) then Some (s\<lparr>es_client := CClose (Inl (OSError EMSGSIZE))\<rparr>)
           else Some (s\<lparr>es_up := es_up s @ [ea_payload A], es_client := CRecv w i ts t0\<rparr>))
      | CRecv w i ts t0 \<Rightarrow>
          (case es_down s of
             d # ds \<Rightarrow> Some (s\<lparr>es_down := ds, es_client := CTime w i ts t0\<rparr>)
           | [] \<Rightarrow> if es_server_open s then None else Some (s\<lparr>es_client := CTime w i ts t0\<rparr>))
      | CTime w i ts t0 \<Rightarrow>
          Some (s\<lparr>es_client := CRound w i (case t0 of None \<Rightarrow> ts | Some t \<Rightarrow> ts @ [es_now s - t])\<rparr>)
      | CClose r \<Rightarrow> Some (s\<lparr>es_client_open := False, es_client := CDone r\<rparr>)
      | CDone r \<Rightarrow> None)"

definition later :: "nat \<Rightarrow> echo_state \<Rightarrow> echo_state" where
  "later d s = s\<lparr>es_now := es_now s + int d\<rparr>"

inductive estep :: "nat \<Rightarrow> echo_args \<Rightarrow> echo_state \<Rightarrow> echo_state \<Rightarrow> bool" for limit A where
  server: "server_step limit (later d s) = Some s' \<Longrightarrow> estep limit A s s'"
| client: "client_step limit A (later d s) = Some s' \<Longrightarrow> estep limit A s s'"

inductive esteps :: "nat \<Rightarrow> echo_args \<Rightarrow> nat \<Rightarrow> echo_state \<Rightarrow> echo_state \<Rightarrow> bool" for limit A where
  refl: "esteps limit A 0 s s"
| more: "esteps limit A n s t \<Longrightarrow> estep limit A t u \<Longrightarrow> esteps limit A (Suc n) s u"


section \<open>Every session ends\<close>

text \<open>What is left to do, for both processes together: each step makes it smaller.\<close>

definition client_left :: "echo_args \<Rightarrow> client_at \<Rightarrow> nat" where
  "client_left A c =
     (let rounds = (\<lambda>w i. 6 * (w + i)) in
      case c of
        CConnect n \<Rightarrow> n + rounds (ea_warmup A) (ea_iters A) + 6
      | CRound w i ts \<Rightarrow> rounds w i + 5
      | CSend w i ts t0 \<Rightarrow> rounds w i + 10
      | CRecv w i ts t0 \<Rightarrow> rounds w i + 7
      | CTime w i ts t0 \<Rightarrow> rounds w i + 6
      | CClose r \<Rightarrow> 1
      | CDone r \<Rightarrow> 0)"

definition server_left :: "echo_state \<Rightarrow> nat" where
  "server_left s = 2 * length (es_up s) +
     (case es_server s of
        SStart \<Rightarrow> 5 | SAccept \<Rightarrow> if es_accepted s then 0 else 4 | SRecv \<Rightarrow> 3 | SSend d \<Rightarrow> 4 | SClose \<Rightarrow> 2 | SDead e \<Rightarrow> 0)"

lemma server_step_left:
  assumes "server_step limit s = Some s'" "es_server s = SClose \<Longrightarrow> es_accepted s"
  shows "server_left s' < server_left s \<and> es_client s' = es_client s"
  using assms
  by (auto simp: server_step_def server_left_def Let_def split: server_at.splits if_splits list.splits)

lemma client_step_left:
  assumes "client_step limit A s = Some s'"
  shows "client_left A (es_client s') + server_left s' < client_left A (es_client s) + server_left s"
  using assms
  by (auto simp: client_step_def client_left_def server_left_def Let_def split: client_at.splits nat.splits if_splits list.splits)



section \<open>A session with a proper payload\<close>

text \<open>The server's side: it has accepted the connection exactly when it is at work on it.\<close>

definition serving :: "echo_state \<Rightarrow> bool" where
  "serving s \<longleftrightarrow> (case es_server s of SAccept \<Rightarrow> \<not> es_accepted s | SRecv \<Rightarrow> es_accepted s | _ \<Rightarrow> False)"

definition both_open :: "echo_state \<Rightarrow> bool" where
  "both_open s \<longleftrightarrow> es_connected s \<and> es_client_open s \<and> es_server_open s"

definition between_rounds :: "echo_state \<Rightarrow> bool" where
  "between_rounds s \<longleftrightarrow> both_open s \<and> serving s \<and> es_up s = [] \<and> es_down s = []"

text \<open>The payload is on its way: to the server, in its hands, or on its way back.\<close>

definition in_flight :: "bytes \<Rightarrow> echo_state \<Rightarrow> bool" where
  "in_flight p s \<longleftrightarrow> both_open s \<and>
     (serving s \<and> es_up s = [p] \<and> es_down s = []
      \<or> es_server s = SSend p \<and> es_accepted s \<and> es_up s = [] \<and> es_down s = []
      \<or> es_server s = SRecv \<and> es_accepted s \<and> es_up s = [] \<and> es_down s = [p])"

definition untouched :: "echo_state \<Rightarrow> bool" where
  "untouched s \<longleftrightarrow> \<not> es_connected s \<and> \<not> es_accepted s \<and> es_up s = [] \<and> es_down s = []
     \<and> es_client_open s \<and> es_server_open s \<and> es_server s \<in> {SStart, SAccept}"

definition left_alone :: "echo_state \<Rightarrow> bool" where
  "left_alone s \<longleftrightarrow> \<not> es_client_open s \<and> es_up s = []
     \<and> (case es_server s of SAccept \<Rightarrow> True | SRecv \<Rightarrow> es_accepted s | SClose \<Rightarrow> es_accepted s | _ \<Rightarrow> False)"

definition good_samples :: "echo_args \<Rightarrow> nat \<Rightarrow> int list \<Rightarrow> bool" where
  "good_samples A n ts \<longleftrightarrow> length ts + n = ea_iters A \<and> (\<forall>t\<in>set ts. 0 \<le> t)"

definition sampling :: "echo_args \<Rightarrow> int \<Rightarrow> nat \<Rightarrow> int list \<Rightarrow> int option \<Rightarrow> bool" where
  "sampling A now i ts t0 \<longleftrightarrow>
     (case t0 of None \<Rightarrow> good_samples A i ts | Some t \<Rightarrow> good_samples A (Suc i) ts \<and> t \<le> now)"

definition echo_ok :: "echo_args \<Rightarrow> echo_state \<Rightarrow> bool" where
  "echo_ok A s \<longleftrightarrow>
     (case es_client s of
        CConnect n \<Rightarrow> untouched s
      | CRound w i ts \<Rightarrow> between_rounds s \<and> good_samples A i ts
      | CSend w i ts t0 \<Rightarrow> between_rounds s \<and> sampling A (es_now s) i ts t0
      | CRecv w i ts t0 \<Rightarrow> in_flight (ea_payload A) s \<and> sampling A (es_now s) i ts t0
      | CTime w i ts t0 \<Rightarrow> between_rounds s \<and> sampling A (es_now s) i ts t0
      | CClose (Inr ts) \<Rightarrow> between_rounds s \<and> good_samples A 0 ts
      | CClose (Inl e) \<Rightarrow> False
      | CDone (Inr ts) \<Rightarrow> left_alone s \<and> good_samples A 0 ts
      | CDone (Inl e) \<Rightarrow> e = RuntimeError \<and> untouched s)"

lemmas echo_defs = untouched_def between_rounds_def in_flight_def both_open_def serving_def left_alone_def

lemma echo_frame [simp]:
  "untouched (s\<lparr>es_client := c\<rparr>) = untouched s" "untouched (s\<lparr>es_now := n\<rparr>) = untouched s"
  "between_rounds (s\<lparr>es_client := c\<rparr>) = between_rounds s" "between_rounds (s\<lparr>es_now := n\<rparr>) = between_rounds s"
  "in_flight p (s\<lparr>es_client := c\<rparr>) = in_flight p s" "in_flight p (s\<lparr>es_now := n\<rparr>) = in_flight p s"
  "left_alone (s\<lparr>es_client := c\<rparr>) = left_alone s" "left_alone (s\<lparr>es_now := n\<rparr>) = left_alone s"
  by (simp_all add: echo_defs cong: server_at.case_cong)

text \<open>A payload that one packet carries, and that is not taken for the end of the connection.\<close>

definition payload_ok :: "nat \<Rightarrow> echo_args \<Rightarrow> bool" where
  "payload_ok limit A \<longleftrightarrow> ea_payload A \<noteq> [] \<and> length (ea_payload A) \<le> min limit 65536"

lemma echo_ok_init: "echo_ok A echo_init"
  by (simp add: echo_ok_def echo_init_def untouched_def)

lemma sampling_later: "sampling A now i ts t0 \<Longrightarrow> now \<le> now' \<Longrightarrow> sampling A now' i ts t0"
  by (auto simp: sampling_def split: option.splits)

lemma echo_ok_later:
  assumes "echo_ok A s"
  shows "echo_ok A (later d s)"
proof -
  have "sampling A (es_now s + int d) i ts t0" if "sampling A (es_now s) i ts t0" for i ts t0
    using sampling_later [OF that] by simp
  with assms show ?thesis by (auto simp: echo_ok_def later_def split: client_at.splits sum.splits)
qed

text \<open>What the server does to each of these conditions.\<close>

lemma server_step_untouched: "server_step limit s = Some s' \<Longrightarrow> untouched s \<Longrightarrow> untouched s'"
  by (auto simp: server_step_def untouched_def split: if_splits)

lemma server_step_between: "server_step limit s = Some s' \<Longrightarrow> between_rounds s \<Longrightarrow> between_rounds s'"
  by (cases "es_server s") (auto simp: server_step_def echo_defs split: if_splits)

lemma server_step_flight:
  assumes "server_step limit s = Some s'" "in_flight p s" "p \<noteq> []" "length p \<le> min limit 65536"
  shows "in_flight p s'"
  using assms by (cases "es_server s") (auto simp: server_step_def echo_defs Let_def split: if_splits)

lemma server_step_left_alone: "server_step limit s = Some s' \<Longrightarrow> left_alone s \<Longrightarrow> left_alone s'"
  by (cases "es_server s") (auto simp: server_step_def echo_defs Let_def split: if_splits)

lemma server_step_frame: "server_step limit s = Some s' \<Longrightarrow> es_client s' = es_client s \<and> es_now s' = es_now s"
  by (auto simp: server_step_def Let_def split: server_at.splits if_splits list.splits)

lemma echo_ok_server:
  assumes "echo_ok A s" "payload_ok limit A" "server_step limit s = Some s'"
  shows "echo_ok A s'"
  using assms(1,2) server_step_frame [OF assms(3)] server_step_untouched [OF assms(3)]
    server_step_between [OF assms(3)] server_step_flight [OF assms(3), of "ea_payload A"] server_step_left_alone [OF assms(3)]
  by (simp add: echo_ok_def payload_ok_def split: client_at.splits sum.splits)

lemma in_flight_up: "between_rounds s \<Longrightarrow> in_flight p (s\<lparr>es_up := es_up s @ [p]\<rparr>)"
  by (simp add: echo_defs cong: server_at.case_cong)

lemma in_flight_back: "in_flight p s \<Longrightarrow> es_down s = d # ds \<Longrightarrow> between_rounds (s\<lparr>es_down := ds\<rparr>)"
  by (auto simp: echo_defs)

lemma untouched_connect: "untouched s \<Longrightarrow> es_server s \<noteq> SStart \<Longrightarrow> between_rounds (s\<lparr>es_connected := True\<rparr>)"
  by (auto simp: echo_defs)

lemma between_leave: "between_rounds s \<Longrightarrow> left_alone (s\<lparr>es_client_open := False\<rparr>)"
  by (auto simp: echo_defs split: server_at.splits)

lemma echo_ok_client:
  assumes "echo_ok A s" "payload_ok limit A" "client_step limit A s = Some s'"
  shows "echo_ok A s'"
proof (cases "es_client s")
  case (CConnect n)
  then have u: "untouched s" using assms(1) by (simp add: echo_ok_def)
  show ?thesis using CConnect assms(3) u untouched_connect [OF u]
    by (cases n) (auto simp: echo_ok_def client_step_def good_samples_def split: if_splits)
next
  case (CRound w i ts)
  then show ?thesis using assms
    by (cases w; cases i) (auto simp: echo_ok_def client_step_def sampling_def good_samples_def)
next
  case (CSend w i ts t0)
  then have b: "between_rounds s" "sampling A (es_now s) i ts t0" using assms(1) by (simp_all add: echo_ok_def)
  then have "es_server_open s" by (simp add: between_rounds_def both_open_def)
  then have "s' = s\<lparr>es_up := es_up s @ [ea_payload A], es_client := CRecv w i ts t0\<rparr>"
    using CSend assms(2,3) by (auto simp: client_step_def payload_ok_def)
  then show ?thesis using b in_flight_up [OF b(1)] by (simp add: echo_ok_def)
next
  case (CRecv w i ts t0)
  then have f: "in_flight (ea_payload A) s" "sampling A (es_now s) i ts t0" using assms(1) by (simp_all add: echo_ok_def)
  then have "es_server_open s" by (simp add: in_flight_def both_open_def)
  then obtain d ds where "es_down s = d # ds" "s' = s\<lparr>es_down := ds, es_client := CTime w i ts t0\<rparr>"
    using CRecv assms(3) by (cases "es_down s") (auto simp: client_step_def)
  then show ?thesis using f(2) in_flight_back [OF f(1)] by (simp add: echo_ok_def)
next
  case (CTime w i ts t0)
  then show ?thesis using assms
    by (auto simp: echo_ok_def client_step_def sampling_def good_samples_def split: option.splits)
next
  case (CClose r)
  then show ?thesis using assms between_leave
    by (auto simp: echo_ok_def client_step_def split: sum.splits)
qed (use assms in \<open>simp add: client_step_def\<close>)


section \<open>The end of a session\<close>

lemma echo_ok_step:
  assumes "estep limit A s s'" "echo_ok A s" "payload_ok limit A"
  shows "echo_ok A s'"
  using assms(1)
proof cases
  case (server d)
  then show ?thesis using echo_ok_server [OF echo_ok_later [OF assms(2)] assms(3)] by blast
next
  case (client d)
  then show ?thesis using echo_ok_client [OF echo_ok_later [OF assms(2)] assms(3)] by blast
qed

lemma server_left_later [simp]: "server_left (later d s) = server_left s" "es_client (later d s) = es_client s"
  "es_server (later d s) = es_server s" "es_accepted (later d s) = es_accepted s"
  by (simp_all add: server_left_def later_def cong: server_at.case_cong)

definition echo_left :: "echo_args \<Rightarrow> echo_state \<Rightarrow> nat" where
  "echo_left A s = client_left A (es_client s) + server_left s"

lemma echo_ok_close: "echo_ok A s \<Longrightarrow> es_server s = SClose \<Longrightarrow> es_accepted s"
  by (auto simp: echo_ok_def echo_defs split: client_at.splits sum.splits)

lemma echo_left_step:
  assumes "estep limit A s s'" "echo_ok A s"
  shows "echo_left A s' < echo_left A s"
  using assms(1)
proof cases
  case (server d)
  from server_step_left [OF server] echo_ok_close [OF assms(2)] show ?thesis by (simp add: echo_left_def)
next
  case (client d)
  from client_step_left [OF client] show ?thesis by (simp add: echo_left_def)
qed

lemma echo_progress:
  assumes "echo_ok A s" "\<And>s'. \<not> estep limit A s s'"
  shows "\<exists>r. es_client s = CDone r"
proof (rule ccontr)
  assume "\<nexists>r. es_client s = CDone r"
  moreover have l: "later 0 s = s" by (simp add: later_def)
  have "client_step limit A s = None"
    using assms(2) estep.client [of limit A 0 s, unfolded l] by (cases "client_step limit A s") blast+
  moreover have "server_step limit s = None"
    using assms(2) estep.server [of limit 0 s _ A, unfolded l] by (cases "server_step limit s") blast+
  moreover have "client_step limit A s \<noteq> None \<or> server_step limit s \<noteq> None" if "in_flight (ea_payload A) s"
    "es_client s = CRecv w i ts t0" for w i ts t0
    using that by (cases "es_server s") (auto simp: echo_defs server_step_def client_step_def Let_def)
  ultimately show False
    using assms(1) by (auto simp: echo_ok_def client_step_def split: client_at.splits nat.splits if_splits)
qed

lemma esteps_ok:
  assumes "esteps limit A n s t" "echo_ok A s" "payload_ok limit A"
  shows "echo_ok A t \<and> n + echo_left A t \<le> echo_left A s"
  using assms(1,2)
proof induction
  case (more n s t u)
  then have "echo_ok A t" "n + echo_left A t \<le> echo_left A s" by auto
  then show ?case using echo_ok_step [OF more(2) _ assms(3)] echo_left_step [OF more(2)] by fastforce
qed simp


text \<open>A schedule: which process steps next (the server for \<open>True\<close>), and after what delay.\<close>

fun play :: "nat \<Rightarrow> echo_args \<Rightarrow> (bool \<times> nat) list \<Rightarrow> echo_state \<Rightarrow> echo_state option" where
  "play limit A [] s = Some s"
| "play limit A ((srv, d) # xs) s =
     (case (if srv then server_step limit (later d s) else client_step limit A (later d s)) of
        None \<Rightarrow> None
      | Some s' \<Rightarrow> play limit A xs s')"

lemma esteps_trans: "esteps limit A m t u \<Longrightarrow> esteps limit A n s t \<Longrightarrow> esteps limit A (n + m) s u"
  by (induction rule: esteps.induct) (auto intro: esteps.more)

lemma esteps_one: "estep limit A s t \<Longrightarrow> esteps limit A 1 s t"
  using esteps.more [OF esteps.refl] by simp

lemma play_esteps: "play limit A xs s = Some t \<Longrightarrow> esteps limit A (length xs) s t"
proof (induction xs arbitrary: s)
  case (Cons x xs)
  obtain srv d where x: "x = (srv, d)" by fastforce
  from Cons.prems x obtain s' where s': "(if srv then server_step limit (later d s) else client_step limit A (later d s)) = Some s'"
    "play limit A xs s' = Some t" by (auto split: option.splits)
  then have "estep limit A s s'" by (cases srv) (auto intro: estep.intros)
  from esteps_trans [OF Cons.IH [OF s'(2)] esteps_one [OF this]] show ?case by simp
qed (simp add: esteps.refl)

definition demo_echo :: echo_args where
  "demo_echo = \<lparr>ea_payload = [0, 1], ea_iters = 1, ea_warmup = 1\<rparr>"

definition demo_schedule :: "(bool \<times> nat) list" where
  "demo_schedule = [(False, 1), (True, 1), (False, 1), (False, 1), (False, 1), (True, 1), (True, 1), (True, 1), (False, 1),
     (False, 1), (False, 1), (False, 1), (True, 2), (True, 3), (False, 1), (False, 1), (False, 1), (False, 1), (True, 1), (True, 1)]"

text \<open>The first attempt to connect comes before the server listens; one warm-up round, one sample.\<close>

lemma demo_session_run: "\<exists>s. esteps 100 demo_echo 20 echo_init s \<and> es_client s = CDone (Inr [8])"
proof -
  have "case play 100 demo_echo demo_schedule echo_init of None \<Rightarrow> False | Some s \<Rightarrow> es_client s = CDone (Inr [8])"
    by (simp add: demo_schedule_def demo_echo_def echo_init_def later_def server_step_def client_step_def)
  then obtain s where s: "play 100 demo_echo demo_schedule echo_init = Some s" "es_client s = CDone (Inr [8])"
    by (auto split: option.splits)
  have len: "length demo_schedule = 20" by (simp add: demo_schedule_def)
  from play_esteps [OF s(1)] s(2) show ?thesis unfolding len by blast
qed



section \<open>An empty payload\<close>

text \<open>With an empty payload the server takes the first packet for the end of the connection and closes
  it, so a client with more than one round always fails.\<close>

definition no_echo :: "echo_state \<Rightarrow> bool" where
  "no_echo s \<longleftrightarrow> (\<forall>p\<in>set (es_up s). p = []) \<and> es_down s = [] \<and> (\<forall>d. es_server s \<noteq> SSend d)"

definition empty_ok :: "echo_args \<Rightarrow> echo_state \<Rightarrow> bool" where
  "empty_ok A s \<longleftrightarrow> no_echo s \<and> (let total = ea_warmup A + ea_iters A in
     case es_client s of
       CConnect n \<Rightarrow> True
     | CRound w i ts \<Rightarrow> w + i = total \<or> \<not> es_server_open s \<and> w + i + 1 = total
     | CSend w i ts t0 \<Rightarrow> w + i + 1 = total \<or> \<not> es_server_open s \<and> w + i + 2 = total
     | CRecv w i ts t0 \<Rightarrow> w + i + 1 = total
     | CTime w i ts t0 \<Rightarrow> \<not> es_server_open s \<and> w + i + 1 = total
     | CClose r \<Rightarrow> \<exists>e. r = Inl e
     | CDone r \<Rightarrow> \<exists>e. r = Inl e)"

lemma empty_ok_server:
  assumes "server_step limit s = Some s'" "empty_ok A s"
  shows "empty_ok A s'"
proof -
  have "es_server_open s' \<longrightarrow> es_server_open s"
    using assms(1) by (auto simp: server_step_def Let_def split: server_at.splits if_splits list.splits)
  moreover have "no_echo s'"
    using assms by (auto simp: empty_ok_def no_echo_def server_step_def Let_def split: server_at.splits if_splits list.splits)
  ultimately show ?thesis
    using assms(2) server_step_frame [OF assms(1)] by (auto simp: empty_ok_def Let_def split: client_at.splits)
qed

lemma empty_ok_client:
  assumes "client_step limit A s = Some s'" "empty_ok A s" "ea_payload A = []" "2 \<le> ea_warmup A + ea_iters A"
  shows "empty_ok A s'"
proof (cases "es_client s")
  case (CRound w i ts)
  then show ?thesis using assms
    by (cases w; cases i) (auto simp: empty_ok_def no_echo_def client_step_def Let_def)
next
  case (CRecv w i ts t0)
  then show ?thesis using assms
    by (auto simp: empty_ok_def no_echo_def client_step_def Let_def split: if_splits)
qed (use assms in \<open>auto simp: empty_ok_def no_echo_def client_step_def Let_def split: if_splits nat.splits\<close>)

lemma empty_ok_later [simp]: "empty_ok A (later d s) = empty_ok A s"
  by (simp add: empty_ok_def no_echo_def later_def Let_def cong: client_at.case_cong)

theorem empty_payload_fails:
  assumes "ea_payload A = []" "2 \<le> ea_warmup A + ea_iters A" "esteps limit A n echo_init s"
  shows "es_client s \<noteq> CDone (Inr ts)"
proof -
  have "empty_ok A s" using assms(3)
  proof (induction "echo_init" s rule: esteps.induct)
    case refl
    show ?case by (simp add: empty_ok_def no_echo_def echo_init_def)
  next
    case (more n t u)
    from more(3) show ?case
    proof cases
      case (server d)
      from empty_ok_server [OF server] more show ?thesis by simp
    next
      case (client d)
      from empty_ok_client [OF client] more assms(1,2) show ?thesis by simp
    qed
  qed
  then show ?thesis by (auto simp: empty_ok_def Let_def)
qed

end
