(* ===== verification/Bench_Orchestra.thy ===== *)
theory Bench_Orchestra
  imports Bench_Echo Bench_Process
begin

text \<open>
  The rest of \<open>bench/microbench/echo.py\<close>: the client over D-Bus (the bus library is the parameter
  \<open>bus_client\<close>), the summaries, and the orchestrator, which starts a bus and two servers, measures
  both ways for each payload size, and stops them.  Its environment says which children can be
  started, what they print, and what the two clients give for a payload.
\<close>

section \<open>Summaries\<close>

definition echo_percentile :: "int list \<Rightarrow> int \<Rightarrow> int" where
  "echo_percentile xs p =
     (if xs = [] then 0
      else
        let s = sort xs;
            rank = max 0 (min (int (length s) - 1) (int (scaled_index (nat p) (length s)) - (if p = 100 then 1 else 0)))
        in s ! nat rank)"

record echo_result =
  er_method :: string
  er_payload_size :: int
  er_n :: int
  er_min :: int
  er_p50 :: int
  er_p95 :: int
  er_p99 :: int
  er_max :: int
  er_mean :: int
  er_samples :: "int list"

text \<open>\<open>min\<close> of no samples raises.\<close>

definition echo_summarize :: "string \<Rightarrow> int \<Rightarrow> int list \<Rightarrow> echo_result result" where
  "echo_summarize name payload samples =
     (if samples = [] then Inl ValueError
      else Inr \<lparr>er_method = name, er_payload_size = payload, er_n = int (length samples), er_min = Min (set samples),
        er_p50 = echo_percentile samples 50, er_p95 = echo_percentile samples 95, er_p99 = echo_percentile samples 99,
        er_max = Max (set samples), er_mean = sum_list samples div int (length samples), er_samples = samples\<rparr>)"


section \<open>The client over D-Bus\<close>

record 'b bus_client =
  bu_connect :: "('b, unit) sx"
  bu_introspect :: "('b, unit) sx"
  bu_call :: "bytes \<Rightarrow> ('b, bytes) sx"
  bu_now :: "'b \<Rightarrow> int \<times> 'b"
  bu_disconnect :: "'b \<Rightarrow> 'b"

text \<open>The method of the server.\<close>

definition serve_echo :: "bytes \<Rightarrow> bytes" where
  "serve_echo data = data"

fun bus_warmup :: "'b bus_client \<Rightarrow> bytes \<Rightarrow> nat \<Rightarrow> ('b, unit) sx" where
  "bus_warmup B arg 0 = sx_lift (Inr ())"
| "bus_warmup B arg (Suc n) = sx_bind (bu_call B arg) (\<lambda>_. bus_warmup B arg n)"

definition bus_timed :: "'b bus_client \<Rightarrow> bytes \<Rightarrow> ('b, int) sx" where
  "bus_timed B arg s =
     (let (t0, s1) = bu_now B s
      in case bu_call B arg s1 of
           (Inl e, s2) \<Rightarrow> (Inl e, s2)
         | (Inr _, s2) \<Rightarrow> (let (t1, s3) = bu_now B s2 in (Inr (t1 - t0), s3)))"

fun bus_samples :: "'b bus_client \<Rightarrow> bytes \<Rightarrow> nat \<Rightarrow> int list \<Rightarrow> ('b, int list) sx" where
  "bus_samples B arg 0 samples = sx_lift (Inr samples)"
| "bus_samples B arg (Suc n) samples =
     sx_bind (bus_timed B arg) (\<lambda>t. bus_samples B arg n (samples @ [t]))"

definition client_dbus :: "'b bus_client \<Rightarrow> bytes \<Rightarrow> int \<Rightarrow> int \<Rightarrow> ('b, int list) sx" where
  "client_dbus B payload iters warmup =
     sx_bind (bu_connect B) (\<lambda>_. sx_bind (bu_introspect B) (\<lambda>_.
     sx_bind (bus_warmup B payload (nat warmup)) (\<lambda>_.
     sx_bind (bus_samples B payload (nat iters) []) (\<lambda>samples s. (Inr samples, bu_disconnect B s)))))"


section \<open>The orchestrator\<close>

datatype program = Daemon | DbusServer | SocketServer

record orch_env =
  oe_which :: bool
  oe_spawn :: "program \<Rightarrow> exn option"
  oe_socket :: "nat \<Rightarrow> bool"
  oe_child :: "program \<Rightarrow> child"
  oe_dbus :: "bytes \<Rightarrow> int list result"
  oe_client :: "bytes \<Rightarrow> int list result"
  oe_removable :: bool
  oe_env :: "(string \<times> json) list"

definition py_rstrip :: "string \<Rightarrow> string" where
  "py_rstrip s = rev (dropWhile is_space (rev s))"

text \<open>The configuration of the private bus.\<close>

definition dq :: "string \<Rightarrow> string" where
  "dq s = CHR 0x22 # s @ [CHR 0x22]"

definition bus_config :: "string \<Rightarrow> string list" where
  "bus_config bus_socket =
     [''<?xml version='' @ dq ''1.0'' @ '' encoding='' @ dq ''UTF-8'' @ ''?>'',
      ''<!DOCTYPE busconfig PUBLIC'',
      '' '' @ dq ''-//freedesktop//DTD D-Bus Bus Configuration 1.0//EN'',
      '' '' @ dq ''http://www.freedesktop.org/standards/dbus/1.0/busconfig.dtd'' @ ''>'',
      ''<busconfig>'',
      ''  <type>session</type>'',
      ''  <listen>unix:path='' @ bus_socket @ ''</listen>'',
      ''  <auth>EXTERNAL</auth>'',
      ''  <policy context='' @ dq ''default'' @ ''>'',
      ''    <allow send_destination='' @ dq ''*'' @ '' eavesdrop='' @ dq ''true'' @ ''/>'',
      ''    <allow eavesdrop='' @ dq ''true'' @ ''/>'',
      ''    <allow own='' @ dq ''*'' @ ''/>'',
      ''  </policy>'',
      ''</busconfig>'', '''']"

text \<open>The command lines of the two servers.\<close>

definition server_cmd :: "string \<Rightarrow> program \<Rightarrow> string \<Rightarrow> string list" where
  "server_cmd executable p path =
     (case p of
        Daemon \<Rightarrow> [''dbus-daemon'', ''--nofork'', ''--config-file='' @ path]
      | DbusServer \<Rightarrow> [executable, ''-u'', ''-m'', ''bench.microbench.echo'', ''server-dbus'', ''--bus-address'', path]
      | SocketServer \<Rightarrow> [executable, ''-u'', ''-m'', ''bench.microbench.echo'', ''server-socket'', ''--socket-path'', path])"

text \<open>At most a hundred lines, ten seconds for each.\<close>

fun wait_ready :: "nat \<Rightarrow> string \<Rightarrow> (nat \<times> string) list \<Rightarrow> unit result" where
  "wait_ready 0 marker ls = Inl SystemExit"
| "wait_ready (Suc n) marker [] = Inl TimeoutError"
| "wait_ready (Suc n) marker ((d, line) # ls) =
     (if 10000000000 \<le> d then Inl TimeoutError
      else if line = [] then Inl SystemExit
      else if py_rstrip line = marker then Inr ()
      else wait_ready n marker ls)"

text \<open>The looks for the socket of the bus: how many there were when the loop ends.\<close>

fun socket_looks :: "(nat \<Rightarrow> bool) \<Rightarrow> nat \<Rightarrow> nat \<Rightarrow> nat" where
  "socket_looks exists 0 k = k"
| "socket_looks exists (Suc n) k = (if exists k then Suc k else socket_looks exists n (Suc k))"

fun measure_sizes :: "orch_env \<Rightarrow> int list \<Rightarrow> echo_result list result" where
  "measure_sizes E [] = Inr []"
| "measure_sizes E (n # ns) =
     (let payload = byte_pattern n in
      rbind (oe_dbus E payload) (\<lambda>ds. rbind (echo_summarize ''dbus'' n ds) (\<lambda>d.
      rbind (oe_client E payload) (\<lambda>ss. rbind (echo_summarize ''socket'' n ss) (\<lambda>s.
      rbind (measure_sizes E ns) (\<lambda>rest. Inr (d # s # rest)))))))"

definition orch_finally :: "orch_env \<Rightarrow> program process_event list" where
  "orch_finally E =
     map (\<lambda>c. Sent c SIGTERM) (filter (\<lambda>c. ch_running (oe_child E c)) [DbusServer, SocketServer, Daemon])
     @ concat (map (reap (oe_child E)) [DbusServer, SocketServer, Daemon])"

text \<open>What happens to the processes, whether the temporary directory stays, and the outcome.\<close>

definition orchestrate :: "orch_env \<Rightarrow> int list \<Rightarrow> program process_event list \<times> bool \<times> echo_result list result" where
  "orchestrate E ns =
     (if \<not> oe_which E then ([], False, Inl SystemExit)
      else case oe_spawn E Daemon of
        Some e \<Rightarrow> ([], True, Inl e)
      | None \<Rightarrow>
          if \<not> oe_socket E (socket_looks (oe_socket E) 50 0) then ([Spawned Daemon], True, Inl SystemExit)
          else case oe_spawn E DbusServer of
            Some e \<Rightarrow> ([Spawned Daemon], True, Inl e)
          | None \<Rightarrow>
              (case oe_spawn E SocketServer of
                 Some e \<Rightarrow> ([Spawned Daemon, Spawned DbusServer], True, Inl e)
               | None \<Rightarrow>
                   let r = rbind (wait_ready 100 ''DBUS_SERVER_READY'' (ch_lines (oe_child E DbusServer))) (\<lambda>_.
                           rbind (wait_ready 100 ''SOCKET_SERVER_READY'' (ch_lines (oe_child E SocketServer))) (\<lambda>_.
                             measure_sizes E ns))
                   in (map Spawned [Daemon, DbusServer, SocketServer] @ orch_finally E, \<not> oe_removable E, r)))"


section \<open>The command\<close>

definition echo_fields :: "json \<Rightarrow> echo_result \<Rightarrow> (string \<times> json) list" where
  "echo_fields samples r = [(''name'', jtext (er_method r)), (''payload_size'', JInt (er_payload_size r)),
     (''n'', JInt (er_n r)), (''min_ns'', JInt (er_min r)), (''p50_ns'', JInt (er_p50 r)), (''p95_ns'', JInt (er_p95 r)),
     (''p99_ns'', JInt (er_p99 r)), (''max_ns'', JInt (er_max r)), (''mean_ns'', JInt (er_mean r)), (''samples_ns'', samples)]"

definition echo_result_json :: "echo_result \<Rightarrow> json" where
  "echo_result_json r = JObj (echo_fields (JList (map JInt (er_samples r))) r)"

definition orch_json :: "(string \<times> json) list \<Rightarrow> int \<Rightarrow> int \<Rightarrow> echo_result list \<Rightarrow> json" where
  "orch_json env iters warmup rs =
     JObj [(''env'', JObj env), (''iters'', JInt iters), (''warmup'', JInt warmup), (''results'', JList (map echo_result_json rs))]"

definition rjust :: "nat \<Rightarrow> string \<Rightarrow> string" where
  "rjust n s = replicate (n - length s) CHR '' '' @ s"

definition echo_table_row :: "string list \<Rightarrow> string" where
  "echo_table_row cells = py_join '' '' (map2 rjust [8, 8, 6, 10, 10, 10, 10, 10] cells)"

definition echo_table :: "echo_result list \<Rightarrow> string list" where
  "echo_table rs =
     (echo_table_row [''payload'', ''method'', ''n'', ''min'', ''p50'', ''p95'', ''p99'', ''max''] @ ''  (ns)'')
     # map (\<lambda>r. echo_table_row [str_int (er_payload_size r), er_method r, str_int (er_n r), str_int (er_min r),
         str_int (er_p50 r), str_int (er_p95 r), str_int (er_p99 r), str_int (er_max r)]) rs"

definition echo_out_path :: "string option \<Rightarrow> string \<Rightarrow> string \<Rightarrow> string" where
  "echo_out_path out timestamp host =
     (case out of
        Some (c # cs) \<Rightarrow> c # cs
      | _ \<Rightarrow> ''bench/results/microbench-'' @ timestamp @ ''-'' @ host @ ''.json'')"


text \<open>The modes \<open>client\<close>, which leaves out the samples of D-Bus, and \<open>all\<close>, with the defaults of its arguments:
  what becomes of the processes, and the path, the contents of the file and the table.\<close>

definition echo_client_mode :: "orch_env \<Rightarrow> int \<Rightarrow> json result" where
  "echo_client_mode E n =
     (let payload = byte_pattern n in
      rbind (oe_dbus E payload) (\<lambda>ds. rbind (oe_client E payload) (\<lambda>ss.
      rbind (echo_summarize ''dbus'' n ds) (\<lambda>d. rbind (echo_summarize ''socket'' n ss) (\<lambda>s.
        Inr (JObj [(''dbus'', JObj (echo_fields (jtext ''...'') d)), (''socket'', echo_result_json s)]))))))"

definition PAYLOAD_SIZES :: "int list" where "PAYLOAD_SIZES = [1, 20, 200, 1500]"
definition ECHO_ITERS :: int where "ECHO_ITERS = 2000"
definition ECHO_WARMUP :: int where "ECHO_WARMUP = 200"

definition echo_all ::
  "orch_env \<Rightarrow> int list \<Rightarrow> int \<Rightarrow> int \<Rightarrow> string option \<Rightarrow> string \<Rightarrow> string
   \<Rightarrow> program process_event list \<times> bool \<times> (string \<times> json \<times> string list) result" where
  "echo_all E sizes iters warmup out timestamp host =
     (case orchestrate E sizes of
        (evs, left, r) \<Rightarrow>
          (evs, left, rbind r (\<lambda>rs. Inr (echo_out_path out timestamp host, orch_json (oe_env E) iters warmup rs, echo_table rs))))"



section \<open>The measurements\<close>

text \<open>The percentiles are those of the measurements of the suite.\<close>

lemma echo_percentile_eq: "summary_percent p \<Longrightarrow> echo_percentile xs p = percentile xs p"
  by (auto simp: echo_percentile_def percentile_def)

theorem echo_summary_agrees:
  assumes "echo_summarize name size' samples = Inr r"
  shows "samples \<noteq> [] \<and> (er_n r, er_min r, er_p50 r, er_p95 r, er_p99 r, er_max r, er_mean r)
    = (let s = summarize samples in (su_n s, su_min s, su_p50 s, su_p95 s, su_p99 s, su_max s, su_mean s))"
  using assms by (auto simp: echo_summarize_def summarize_def echo_percentile_eq Let_def split: if_splits)

lemma bus_samples_length:
  "bus_samples B arg n samples s = (Inr ts, s') \<Longrightarrow> length ts = length samples + n"
  by (induction n arbitrary: samples s) (auto simp: sx_bind_def split: prod.splits sum.splits)

text \<open>A client over D-Bus that returns has one sample per iteration.\<close>

lemma client_dbus_samples:
  "client_dbus B payload iters warmup s = (Inr ts, s') \<Longrightarrow> length ts = nat iters"
  by (auto simp: client_dbus_def sx_bind_def split: prod.splits sum.splits dest!: bus_samples_length)

text \<open>What a session of the socket client may give.\<close>

definition session_outcome :: "nat \<Rightarrow> echo_args \<Rightarrow> int list result \<Rightarrow> bool" where
  "session_outcome limit A r \<longleftrightarrow> (\<exists>n s. esteps limit A n echo_init s \<and> es_client s = CDone r)"

lemma session_outcome_length:
  assumes "session_outcome limit A (Inr ts)" "payload_ok limit A"
  shows "length ts = ea_iters A \<and> (\<forall>t\<in>set ts. 0 \<le> t)"
proof -
  from assms(1) obtain n s where s: "esteps limit A n echo_init s" "es_client s = CDone (Inr ts)"
    by (auto simp: session_outcome_def)
  from esteps_ok [OF s(1) echo_ok_init assms(2)] s(2) show ?thesis
    by (auto simp: echo_ok_def good_samples_def)
qed

lemma length_byte_pattern: "length (byte_pattern n) = nat n"
  by (simp add: byte_pattern_def)

text \<open>When the orchestrator gives results, they are two for each payload size, in the order of the
  sizes, first D-Bus and then the socket, each of as many samples as there were iterations, and the
  times through the socket are not negative.\<close>

theorem orchestrate_results:
  assumes "orchestrate E ns = (evs, left, Inr rs)"
    and "\<forall>n\<in>set ns. 0 < n \<and> nat n \<le> min limit 65536"
    and "\<forall>n\<in>set ns. session_outcome limit \<lparr>ea_payload = byte_pattern n, ea_iters = iters, ea_warmup = warmup\<rparr>
           (oe_client E (byte_pattern n))"
    and "\<forall>n\<in>set ns. \<exists>s s'. client_dbus B (byte_pattern n) (int iters) (int warmup) s = (oe_dbus E (byte_pattern n), s')"
  shows "map (\<lambda>r. (er_payload_size r, er_method r, er_n r)) rs
      = concat (map (\<lambda>n. [(n, ''dbus'', int iters), (n, ''socket'', int iters)]) ns)
    \<and> (\<forall>r\<in>set rs. er_method r = ''socket'' \<longrightarrow> 0 \<le> er_min r)"
proof -
  have m: "measure_sizes E ns = Inr rs"
    using assms(1) by (auto simp: orchestrate_def Let_def rbind_eq_Inr split: if_splits option.splits)
  then show ?thesis using assms(2-4)
  proof (induction ns arbitrary: rs)
    case (Cons n ns)
    let ?A = "\<lparr>ea_payload = byte_pattern n, ea_iters = iters, ea_warmup = warmup\<rparr>"
    from Cons.prems(1) obtain ds d ss s rest where
      p: "oe_dbus E (byte_pattern n) = Inr ds" "echo_summarize ''dbus'' n ds = Inr d"
        "oe_client E (byte_pattern n) = Inr ss" "echo_summarize ''socket'' n ss = Inr s"
        "measure_sizes E ns = Inr rest" "rs = d # s # rest"
      unfolding measure_sizes.simps Let_def rbind_eq_Inr by blast
    from Cons.IH [OF p(5)] Cons.prems have IH: "map (\<lambda>r. (er_payload_size r, er_method r, er_n r)) rest
        = concat (map (\<lambda>n. [(n, ''dbus'', int iters), (n, ''socket'', int iters)]) ns)
      \<and> (\<forall>r\<in>set rest. er_method r = ''socket'' \<longrightarrow> 0 \<le> er_min r)" by simp
    have "byte_pattern n \<noteq> []" using Cons.prems(2) length_byte_pattern [of n] by fastforce
    then have "payload_ok limit ?A"
      using Cons.prems(2) by (simp add: payload_ok_def length_byte_pattern)
    moreover have "session_outcome limit ?A (Inr ss)" using Cons.prems(3) p(3) by (metis list.set_intros(1))
    ultimately have ss: "length ss = iters" "\<forall>t\<in>set ss. 0 \<le> t"
      using session_outcome_length [of limit ?A ss] by auto
    have ds: "length ds = iters"
    proof -
      obtain st st' where "client_dbus B (byte_pattern n) (int iters) (int warmup) st = (Inr ds, st')"
        using Cons.prems(4) p(1) by (metis list.set_intros(1))
      from client_dbus_samples [OF this] show ?thesis by simp
    qed
    have "ss \<noteq> []" "er_min s = Min (set ss)" using p(4) by (auto simp: echo_summarize_def split: if_splits)
    then have "0 \<le> er_min s" using ss(2) by simp
    then show ?case
      using IH p(2,4) ss(1) ds unfolding p(6) by (auto simp: echo_summarize_def split: if_splits)
  qed simp
qed


definition demo_bus :: "unit bus_client" where
  "demo_bus = \<lparr>bu_connect = sx_lift (Inr ()), bu_introspect = sx_lift (Inr ()), bu_call = (\<lambda>arg. sx_lift (Inr (serve_echo arg))),
     bu_now = (\<lambda>s. (7, s)), bu_disconnect = (\<lambda>s. s)\<rparr>"

definition demo_orch :: orch_env where
  "demo_orch = \<lparr>oe_which = True, oe_spawn = (\<lambda>_. None), oe_socket = (\<lambda>k. 2 \<le> k),
     oe_child = (\<lambda>c. \<lparr>ch_lines = [(5, ''starting''), (5, if c = DbusServer then ''DBUS_SERVER_READY '' else ''SOCKET_SERVER_READY'')],
       ch_running = True, ch_gone = False, ch_obeys = c \<noteq> Daemon\<rparr>),
     oe_dbus = (\<lambda>_. Inr [0]), oe_client = (\<lambda>_. Inr [8]), oe_removable = True, oe_env = []\<rparr>"

theorem orchestrate_results_witness:
  "\<exists>evs left rs. orchestrate demo_orch [2] = (evs, left, Inr rs)
    \<and> map (\<lambda>r. (er_payload_size r, er_method r, er_n r)) rs = [(2, ''dbus'', 1), (2, ''socket'', 1)]"
proof -
  have p: "byte_pattern 2 = [0, 1]" by (simp add: byte_pattern_def upt_rec)
  obtain d s where ds: "echo_summarize ''dbus'' 2 [0] = Inr d" "echo_summarize ''socket'' 2 [8] = Inr s"
    by (simp add: echo_summarize_def)
  have n: "(100 :: nat) = Suc (Suc 98)" "(50 :: nat) = Suc (Suc (Suc 47))" by simp_all
  have "wait_ready 100 ''DBUS_SERVER_READY'' (ch_lines (oe_child demo_orch DbusServer)) = Inr ()"
    "wait_ready 100 ''SOCKET_SERVER_READY'' (ch_lines (oe_child demo_orch SocketServer)) = Inr ()"
    unfolding n by (simp_all add: demo_orch_def py_rstrip_def is_space_def del: Suc_numeral)
  moreover have "oe_socket demo_orch (socket_looks (oe_socket demo_orch) 50 0)"
    unfolding n by (simp add: demo_orch_def del: Suc_numeral)
  ultimately have "\<exists>evs. orchestrate demo_orch [2] = (evs, False, Inr [d, s])"
    by (simp add: orchestrate_def ds demo_orch_def Let_def)
  then obtain evs where o: "orchestrate demo_orch [2] = (evs, False, Inr [d, s])" by blast
  have "session_outcome 100 demo_echo (Inr [8])"
    using demo_session_run by (auto simp: session_outcome_def)
  moreover have "client_dbus demo_bus [0, 1] 1 1 () = (Inr [0], ())"
    by (simp add: client_dbus_def demo_bus_def bus_timed_def sx_bind_def)
  ultimately have "map (\<lambda>r. (er_payload_size r, er_method r, er_n r)) [d, s]
      = concat (map (\<lambda>n. [(n, ''dbus'', int 1), (n, ''socket'', int 1)]) [2])
    \<and> (\<forall>r\<in>set [d, s]. er_method r = ''socket'' \<longrightarrow> 0 \<le> er_min r)"
    by (intro orchestrate_results [OF o, where limit = 100 and warmup = 1 and B = demo_bus])
      (simp_all add: p demo_echo_def demo_orch_def)
  with o show ?thesis by auto
qed


section \<open>No child is left behind\<close>


end
