(* ===== verification/Bench_Peripheral.thy ===== *)
theory Bench_Peripheral
  imports Bench_Process Fake_Peripheral
begin

text \<open>
  The two programs that serve a peripheral over \<open>bumble\<close>: \<open>bench/fixtures/peripheral_bumble.py\<close> on a
  controller, and \<open>peripheral_vhci.py\<close> with a virtual one for the kernel.  What they are is the order
  of the calls they make, each of which may raise: \<open>K\<close> says which do.  The result of a call that the
  program looks at is a parameter (the addresses of the device).  A program serves until it is stopped,
  by an exception too.
\<close>

section \<open>Calls in order\<close>

text \<open>Calls are made until one raises.\<close>

fun attempt :: "('c \<Rightarrow> exn option) \<Rightarrow> 'c list \<Rightarrow> 'c list \<times> unit result" where
  "attempt K [] = ([], Inr ())"
| "attempt K (c # cs) =
     (case K c of
        Some e \<Rightarrow> ([c], Inl e)
      | None \<Rightarrow> (let (made, r) = attempt K cs in (c # made, r)))"

lemma attempt_append:
  "attempt K (cs @ ds) =
     (case attempt K cs of
        (made, Inl e) \<Rightarrow> (made, Inl e)
      | (made, Inr _) \<Rightarrow> (let (made', r) = attempt K ds in (made @ made', r)))"
  by (induction cs) (auto simp: Let_def split: prod.splits sum.splits option.splits)

lemma attempt_ok: "snd (attempt K cs) = Inr () \<longleftrightarrow> list_all (\<lambda>c. K c = None) cs"
  by (induction cs) (auto simp: Let_def split: prod.splits option.splits)

lemma attempt_all: "snd (attempt K cs) = Inr () \<Longrightarrow> fst (attempt K cs) = cs"
  by (induction cs) (auto simp: Let_def split: prod.splits option.splits)

lemma attempt_subset: "set (fst (attempt K cs)) \<subseteq> set cs"
  by (induction cs) (auto simp: Let_def split: prod.splits option.splits)

lemma attempt_prefix: "prefix (fst (attempt K cs)) cs"
  by (induction cs) (auto simp: Let_def split: prod.splits option.splits)


section \<open>The service\<close>

text \<open>A characteristic: its UUID, and the names of its properties and permissions.\<close>

type_synonym bumble_char = "int \<times> string list \<times> string list"

definition bumble_chars :: "bumble_char list" where
  "bumble_chars =
     [(CHR_READ_UUID16, [''READ''], [''READABLE'']),
      (CHR_WRITE_UUID16, [''WRITE'', ''WRITE_WITHOUT_RESPONSE''], [''WRITEABLE'']),
      (CHR_NOTIFY_UUID16, [''NOTIFY''], [''READABLE''])]"

definition DEVICE_ADDRESS :: string where "DEVICE_ADDRESS = ''F0:F1:F2:F3:F4:F5''"

text \<open>The calls: the transport, the parts that are made, and what is done with the device.\<close>

datatype peripheral_call =
    OpenTransport string
  | MakeController string string
  | MakeHost
  | MakeDevice string string
  | AddService int "bumble_char list"
  | PowerOn
  | StartAdvertising
  | Print string
  | StartPump
  | CancelPump
  | PowerOff
  | CloseTransport

text \<open>\<open>device.random_address or device.public_address\<close>.\<close>

definition adv_address :: "string option \<Rightarrow> string option \<Rightarrow> string" where
  "adv_address random public =
     (case random of Some (c # cs) \<Rightarrow> c # cs | _ \<Rightarrow> (case public of Some a \<Rightarrow> a | None \<Rightarrow> ''None''))"


section \<open>The program on a controller\<close>

definition bumble_setup :: "int \<Rightarrow> string \<Rightarrow> peripheral_call list" where
  "bumble_setup hci_index advert_name =
     [OpenTransport (''hci-socket:'' @ str_int hci_index), MakeDevice advert_name DEVICE_ADDRESS,
      AddService SVC_UUID16 bumble_chars, PowerOn, StartAdvertising]"

text \<open>The way to the wait for ever, which ends with \<open>stop\<close>, and the \<open>finally\<close> block.\<close>

definition bumble_process ::
  "(peripheral_call \<Rightarrow> exn option) \<Rightarrow> exn \<Rightarrow> string \<Rightarrow> int \<Rightarrow> string \<Rightarrow> peripheral_call list \<times> unit result" where
  "bumble_process K stop address hci_index advert_name =
     (case attempt K (bumble_setup hci_index advert_name) of
        (made, Inl e) \<Rightarrow> (made, Inl e)
      | (made, Inr _) \<Rightarrow>
          (let (undone, r) = attempt K [CancelPump, PowerOff]
           in (made @ [Print (READY_PREFIX @ address), StartPump] @ undone,
               case r of Inl e \<Rightarrow> Inl e | Inr _ \<Rightarrow> Inl stop)))"

text \<open>\<open>main\<close>: the exit code; \<open>asyncio.run\<close> raises \<open>KeyboardInterrupt\<close> when the wait is interrupted.\<close>

definition KeyboardInterrupt :: exn where "KeyboardInterrupt = ForeignError ''KeyboardInterrupt''"

definition exit_of :: "unit result \<Rightarrow> int result" where
  "exit_of r = (case r of Inr _ \<Rightarrow> Inr 0 | Inl e \<Rightarrow> if e = KeyboardInterrupt then Inr 0 else Inl e)"

definition bumble_main ::
  "(peripheral_call \<Rightarrow> exn option) \<Rightarrow> exn \<Rightarrow> string \<Rightarrow> string \<Rightarrow> string \<Rightarrow> peripheral_call list \<times> int result" where
  "bumble_main K stop address hci advert_name =
     (case bumble_hci_index hci of
        Inl e \<Rightarrow> ([], Inl e)
      | Inr (Inl code) \<Rightarrow> ([], Inr code)
      | Inr (Inr i) \<Rightarrow> (let (made, r) = bumble_process K stop address i advert_name in (made, exit_of r)))"


section \<open>The program with a virtual controller\<close>

text \<open>The kernel's controller \<open>C\<close> and the device's controller \<open>P\<close> are joined by the link of the library.\<close>

definition vhci_setup :: "string \<Rightarrow> peripheral_call list" where
  "vhci_setup advert_name =
     [OpenTransport ''vhci'', MakeController ''vhciC'' ''AA:BB:CC:DD:EE:01/P'',
      MakeController ''vhciP'' ''AA:BB:CC:DD:EE:02/P'', MakeHost, MakeDevice advert_name DEVICE_ADDRESS,
      AddService SVC_UUID16 bumble_chars, PowerOn, StartAdvertising]"

definition central_line :: "string \<Rightarrow> string" where "central_line hci = ''CENTRAL_READY '' @ hci"

text \<open>\<open>before\<close> and \<open>looks\<close> are the listings among which the new controller is searched; an exception of
  \<open>power_off\<close> is swallowed.\<close>

definition vhci_process ::
  "(peripheral_call \<Rightarrow> exn option) \<Rightarrow> exn \<Rightarrow> string \<Rightarrow> string list option \<Rightarrow> string list option list \<Rightarrow> string
   \<Rightarrow> peripheral_call list \<times> unit result" where
  "vhci_process K stop address before looks advert_name =
     (case attempt K (vhci_setup advert_name) of
        (made, Inl e) \<Rightarrow> (made, Inl e)
      | (made, Inr _) \<Rightarrow>
          (made @ [Print (central_line (resolve_hci before looks)), Print (READY_PREFIX @ address), StartPump]
             @ (case K CancelPump of
                  Some e \<Rightarrow> [CancelPump]
                | None \<Rightarrow> [CancelPump, PowerOff, CloseTransport]),
           case K CancelPump of
             Some e \<Rightarrow> Inl e
           | None \<Rightarrow> (case K CloseTransport of Some e \<Rightarrow> Inl e | None \<Rightarrow> Inl stop)))"

definition vhci_main ::
  "(peripheral_call \<Rightarrow> exn option) \<Rightarrow> exn \<Rightarrow> string \<Rightarrow> string list option \<Rightarrow> string list option list \<Rightarrow> string
   \<Rightarrow> peripheral_call list \<times> int result" where
  "vhci_main K stop address before looks advert_name =
     (let (made, r) = vhci_process K stop address before looks advert_name in (made, exit_of r))"


section \<open>The announcement comes last\<close>

text \<open>The lines a process prints, as the supervisor reads them.\<close>

definition printed :: "peripheral_call list \<Rightarrow> string list" where
  "printed calls = List.map_filter (\<lambda>c. case c of Print s \<Rightarrow> Some (s @ [CHR 0x0A]) | _ \<Rightarrow> None) calls"

lemma printed_append [simp]: "printed (xs @ ys) = printed xs @ printed ys"
  by (simp add: printed_def List.map_filter_def)

lemma printed_setup: "prefix made (bumble_setup i name) \<Longrightarrow> printed made = []"
  "prefix made (vhci_setup name) \<Longrightarrow> printed made = []"
  by (auto simp: bumble_setup_def vhci_setup_def prefix_Cons printed_def map_filter_simps)

lemma printed_central [simp]: "printed (Print (central_line h) # cs) = (central_line h @ [CHR 0x0A]) # printed cs"
  by (simp add: printed_def map_filter_simps)

lemma printed_ready [simp]: "printed (Print (READY_PREFIX @ a) # cs) = ready_line a # printed cs"
  by (simp add: printed_def ready_line_def map_filter_simps)

lemma printed_other [simp]:
  "printed [] = []" "printed (StartPump # cs) = printed cs" "printed (CancelPump # cs) = printed cs"
  "printed (PowerOff # cs) = printed cs" "printed (CloseTransport # cs) = printed cs"
  by (simp_all add: printed_def map_filter_simps)

text \<open>The peripheral announces itself only once it is there: it prints nothing unless every step of
  its set-up has succeeded, the line it prints then is the one the supervisor takes the address from,
  and from then on, however it is stopped, the pump is cancelled and the device powered off.  When a
  step of the set-up raises, what was opened before is left as it is.\<close>

lemma bumble_announces:
  assumes "mac \<noteq> []" "\<forall>c\<in>set (mac @ kind). \<not> is_space c" "CHR ''/'' \<notin> set mac"
    and "kind = [] \<or> (\<exists>k. kind = CHR ''/'' # k)" "d < left" "K CancelPump = None"
  shows "case bumble_process K stop (mac @ kind) i name of (calls, r) \<Rightarrow>
    if list_all (\<lambda>c. K c = None) (bumble_setup i name) then
      calls = bumble_setup i name @ [Print (READY_PREFIX @ mac @ kind), StartPump, CancelPump, PowerOff]
      \<and> read_ready left (map (\<lambda>l. (d, l)) (printed calls)) = Inr mac
      \<and> r = Inl (case K PowerOff of Some e \<Rightarrow> e | None \<Rightarrow> stop)
    else prefix calls (bumble_setup i name) \<and> printed calls = [] \<and> (\<exists>e. r = Inl e)"
proof -
  obtain made q where a: "attempt K (bumble_setup i name) = (made, q)" by (cases "attempt K (bumble_setup i name)")
  have ready: "read_ready left [(d, ready_line (mac @ kind))] = Inr mac"
    using ready_line_read [OF assms(1-3,5,4)] .
  have none: "printed made = []"
    using printed_setup(1) attempt_prefix [of K "bumble_setup i name"] a by simp
  show ?thesis
  proof (cases q)
    case (Inl e)
    then have "\<not> list_all (\<lambda>c. K c = None) (bumble_setup i name)" using attempt_ok [of K "bumble_setup i name"] a by simp
    then show ?thesis using a Inl none attempt_prefix [of K "bumble_setup i name"] by (simp add: bumble_process_def)
  next
    case (Inr u)
    then have ok: "list_all (\<lambda>c. K c = None) (bumble_setup i name)" "made = bumble_setup i name"
      using attempt_ok [of K "bumble_setup i name"] attempt_all [of K "bumble_setup i name"] a by auto
    have u: "attempt K [CancelPump, PowerOff] = ([CancelPump, PowerOff], case K PowerOff of Some e \<Rightarrow> Inl e | None \<Rightarrow> Inr ())"
      using assms(6) by (simp split: option.split)
    show ?thesis
      using a Inr ok none ready u by (simp add: bumble_process_def split: option.split)
  qed
qed

lemma bumble_announces_example:
  "case bumble_process (\<lambda>_. None) KeyboardInterrupt (DEVICE_ADDRESS @ ''/R'') 1 ''bluek-bench'' of (calls, r) \<Rightarrow>
    read_ready 10000000000 (map (\<lambda>l. (5, l)) (printed calls)) = Inr DEVICE_ADDRESS \<and> exit_of r = Inr 0 \<and> PowerOff \<in> set calls"
proof -
  have "DEVICE_ADDRESS \<noteq> []" "\<forall>c\<in>set (DEVICE_ADDRESS @ ''/R''). \<not> is_space c" "CHR ''/'' \<notin> set DEVICE_ADDRESS"
    by (simp_all add: DEVICE_ADDRESS_def is_space_def)
  from bumble_announces [OF this, where K = "\<lambda>_. None" and d = 5 and left = 10000000000 and stop = KeyboardInterrupt
      and i = 1 and name = "''bluek-bench''"]
  show ?thesis by (auto simp: list_all_iff exit_of_def split: prod.splits)
qed

text \<open>The program with a virtual controller announces itself in two lines, of which the supervisor takes
  the second; it closes its transport also when the device cannot be powered off.\<close>

lemma central_line_noise: "noise (d, central_line x @ [CHR 0x0A])"
proof -
  have "strip_by is_space (CHR ''C'' # ys) = CHR ''C'' # rev (dropWhile is_space (rev ys))" if "\<exists>y\<in>set ys. \<not> is_space y" for ys
    using that by (auto simp: strip_by_def is_space_def dropWhile_append)
  then have "hd (py_strip (central_line x @ [CHR 0x0A])) = CHR ''C''"
    by (simp add: py_strip_def is_space_def central_line_def)
  then have "\<not> prefix READY_PREFIX (py_strip (central_line x @ [CHR 0x0A]))"
    by (cases "py_strip (central_line x @ [CHR 0x0A])") (auto simp: READY_PREFIX_def)
  then show ?thesis by (simp add: noise_def)
qed

lemma vhci_announces:
  assumes "mac \<noteq> []" "\<forall>c\<in>set (mac @ kind). \<not> is_space c" "CHR ''/'' \<notin> set mac"
    and "kind = [] \<or> (\<exists>k. kind = CHR ''/'' # k)" "d + d < left" "K CancelPump = None"
    and "list_all (\<lambda>c. K c = None) (vhci_setup name)"
  shows "case vhci_process K stop (mac @ kind) before looks name of (calls, r) \<Rightarrow>
      read_ready left (map (\<lambda>l. (d, l)) (printed calls)) = Inr mac
      \<and> List.last calls = CloseTransport \<and> PowerOff \<in> set calls"
proof -
  have a: "attempt K (vhci_setup name) = (vhci_setup name, Inr ())"
    using assms(7) attempt_ok [of K "vhci_setup name"] attempt_all [of K "vhci_setup name"]
    by (cases "attempt K (vhci_setup name)") simp
  have p: "printed (vhci_setup name) = []" using printed_setup(2) [of "vhci_setup name" name] by simp
  let ?l = "central_line (resolve_hci before looks) @ [CHR 0x0A]"
  have "read_ready left ([(d, ?l)] @ [(d, ready_line (mac @ kind))]) = read_ready (left - d) [(d, ready_line (mac @ kind))]"
    using read_ready_noise [of "[(d, ?l)]" left "[(d, ready_line (mac @ kind))]"] central_line_noise [of d "resolve_hci before looks"] assms(5)
    by simp
  also have "\<dots> = Inr mac" by (rule ready_line_read [OF assms(1-3) _ assms(4)]) (use assms(5) in simp)
  finally have "read_ready left [(d, ?l), (d, ready_line (mac @ kind))] = Inr mac"
    by (simp only: append_Cons append_Nil)
  then show ?thesis
    using a p assms(6) by (simp add: vhci_process_def del: read_ready.simps)
qed

text \<open>It serves what the configuration of the benchmarks asks for, as the peripheral in memory does.\<close>

lemma bumble_serves_configuration:
  "map (uuid128_from_uuid16 \<circ> fst) bumble_chars = [CHR_READ_UUID, CHR_WRITE_UUID, CHR_NOTIFY_UUID]"
  "read_fn (bumble_serve (int n)) = fp_read_value (fake_init n [])"
  by (code_simp, simp add: read_fn_def bumble_serve_def byte_pattern_def fake_init_def pattern_def)

end
