(* ===== verification/Bench_Dbus.thy ===== *)
theory Bench_Dbus
  imports Bench_Events
begin

text \<open>
  \<open>bench/stacks/raw_dbus.py\<close>: the stack that calls BlueZ over D-Bus.  The bus with BlueZ behind it is
  the parameter \<open>bluez\<close>: each call gives its answer, the signals that are delivered while it is awaited,
  and the new state of the world.  The stack's state keeps a log of all signals and of all calls, and
  counts the handlers that are registered.  A proxy interface is identified with the path of its
  object; an exception of a handler, which the library swallows, is no event.

  Strings are ASCII except the names of devices.  As BlueZ documents, \<open>Address\<close> is a string, \<open>RSSI\<close> an
  integer, \<open>UUID\<close> a string and \<open>Value\<close> an array of bytes.
\<close>

section \<open>The bus\<close>

datatype dvalue = DNone | DBool bool | DInt int | DStr ustr | DBytes bytes | Variant dvalue

type_synonym dprops = "(string \<times> dvalue) list"
type_synonym dobjects = "(string \<times> (string \<times> dprops) list) list"

text \<open>The body of a message, and what is delivered: the arguments of \<open>on_added\<close>, or a message by its type
  (whether it is a signal), interface, member, path and body.\<close>

datatype dbody = BStr string | BDict dprops | BOther

datatype dsignal = Added string "(string \<times> dprops) list" | Msg bool string string string "dbody list"

type_synonym ('b, 'a) bus_op = "'b \<Rightarrow> 'a result \<times> dsignal list \<times> 'b"

datatype dcall = Connect | Introspect | GetManagedObjects | AddMatch string | Get string string
  | SetDiscoveryFilter | StartDiscovery | StopDiscovery | DeviceConnect | Disconnect
  | ReadValue | WriteValue bytes | StartNotify | StopNotify

record 'b bluez =
  bz_connect :: "('b, unit) bus_op"
  bz_introspect :: "string \<Rightarrow> ('b, string list) bus_op"
  bz_objects :: "('b, dobjects) bus_op"
  bz_call :: "string \<Rightarrow> dcall \<Rightarrow> ('b, dvalue) bus_op"
  bz_sleep :: "nat \<Rightarrow> 'b \<Rightarrow> dsignal list \<times> 'b"

record 'b dbus_state =
  db_world :: 'b
  db_connected :: bool
  db_signals :: "dsignal list"
  db_calls :: "(string \<times> dcall) list"
  db_added_handlers :: nat
  db_message_handlers :: nat
  db_props_handlers :: nat

text \<open>A call on the bus.\<close>

definition on_bus :: "string \<Rightarrow> dcall \<Rightarrow> ('b, 'a) bus_op \<Rightarrow> ('b dbus_state, 'a) sx" where
  "on_bus path c f st =
     (case f (db_world st) of
        (r, sigs, w) \<Rightarrow> (r, st\<lparr>db_world := w, db_signals := db_signals st @ sigs, db_calls := db_calls st @ [(path, c)]\<rparr>))"

definition invoke :: "'b bluez \<Rightarrow> string \<Rightarrow> dcall \<Rightarrow> ('b dbus_state, dvalue) sx" where
  "invoke B path c = on_bus path c (bz_call B path c)"

text \<open>\<open>try: ... except Exception: pass\<close>.\<close>

definition ignoring :: "('s, 'a) sx \<Rightarrow> 's \<Rightarrow> 's" where
  "ignoring f s = snd (f s)"

definition pause :: "'b bluez \<Rightarrow> nat \<Rightarrow> 'b dbus_state \<Rightarrow> 'b dbus_state" where
  "pause B ns st =
     (let (sigs, w) = bz_sleep B ns (db_world st) in st\<lparr>db_world := w, db_signals := db_signals st @ sigs\<rparr>)"


section \<open>Values\<close>

text \<open>\<open>getattr(v, "value", v)\<close> and the truth of a value.\<close>

fun unwrap :: "dvalue \<Rightarrow> dvalue" where
  "unwrap (Variant v) = v"
| "unwrap v = v"

fun dtrue :: "dvalue \<Rightarrow> bool" where
  "dtrue DNone = False"
| "dtrue (DBool b) = b"
| "dtrue (DInt i) = (i \<noteq> 0)"
| "dtrue (DStr s) = (s \<noteq> [])"
| "dtrue (DBytes b) = (b \<noteq> [])"
| "dtrue (Variant v) = True"

definition prop_value :: "string \<Rightarrow> dprops \<Rightarrow> dvalue" where
  "prop_value name props = (case map_of props name of None \<Rightarrow> DNone | Some v \<Rightarrow> unwrap v)"

definition ascii :: "ustr \<Rightarrow> string" where
  "ascii s = map (\<lambda>c. char_of (nat c)) s"

fun as_text :: "dvalue \<Rightarrow> ustr option" where
  "as_text (DStr s) = Some s"
| "as_text _ = None"

fun as_int :: "dvalue \<Rightarrow> int option" where
  "as_int (DInt i) = Some i"
| "as_int _ = None"

fun as_bytes :: "dvalue \<Rightarrow> bytes option" where
  "as_bytes (DBytes b) = Some b"
| "as_bytes _ = None"


section \<open>Objects\<close>

definition adapter_path :: "string \<Rightarrow> string" where
  "adapter_path adapter = ''/org/bluez/'' @ adapter"

definition mac_to_dev_path :: "string \<Rightarrow> string \<Rightarrow> string" where
  "mac_to_dev_path adapter mac = adapter_path adapter @ ''/dev_'' @ py_replace '':'' ''_'' (py_upper mac)"

definition bus_handle :: "'b bluez \<Rightarrow> ('b dbus_state, unit) sx" where
  "bus_handle B st =
     (if db_connected st then (Inr (), st)
      else
        case on_bus '''' Connect (bz_connect B) st of
          (Inl e, st') \<Rightarrow> (Inl e, st')
        | (Inr _, st') \<Rightarrow> (Inr (), st'\<lparr>db_connected := True\<rparr>))"

text \<open>A proxy knows the interfaces that the introspection gave; \<open>get_interface\<close> raises for others.\<close>

definition proxy :: "'b bluez \<Rightarrow> string \<Rightarrow> ('b dbus_state, string list) sx" where
  "proxy B path = sx_bind (bus_handle B) (\<lambda>_. on_bus path Introspect (bz_introspect B path))"

definition get_interface :: "string \<Rightarrow> string list \<Rightarrow> unit result" where
  "get_interface name ifaces = (if name \<in> set ifaces then Inr () else Inl (ForeignError ''InterfaceNotFoundError''))"

definition proxy_iface :: "'b bluez \<Rightarrow> string \<Rightarrow> string \<Rightarrow> ('b dbus_state, unit) sx" where
  "proxy_iface B path name = sx_bind (proxy B path) (\<lambda>ifaces. sx_lift (get_interface name ifaces))"

definition adapter_iface :: "'b bluez \<Rightarrow> string \<Rightarrow> ('b dbus_state, unit) sx" where
  "adapter_iface B adapter = proxy_iface B (adapter_path adapter) ''org.bluez.Adapter1''"

definition managed_objects :: "'b bluez \<Rightarrow> ('b dbus_state, dobjects) sx" where
  "managed_objects B =
     sx_bind (proxy_iface B ''/'' ''org.freedesktop.DBus.ObjectManager'') (\<lambda>_.
       on_bus ''/'' GetManagedObjects (bz_objects B))"


section \<open>Scanning\<close>

definition from_props :: "string \<Rightarrow> int \<Rightarrow> string \<Rightarrow> dprops \<Rightarrow> advert_event option" where
  "from_props adapter now path props =
     (if \<not> prefix (adapter_path adapter @ ''/dev_'') path then None
      else
        case as_text (prop_value ''Address'' props) of
          None \<Rightarrow> None
        | Some address \<Rightarrow>
            Some \<lparr>ae_t_ns = now, ae_address = ascii address, ae_rssi = as_int (prop_value ''RSSI'' props),
              ae_name = as_text (if dtrue (prop_value ''Name'' props) then prop_value ''Name'' props
                                 else prop_value ''Alias'' props)\<rparr>)"

definition on_added :: "string \<Rightarrow> int \<Rightarrow> string \<Rightarrow> (string \<times> dprops) list \<Rightarrow> advert_event option" where
  "on_added adapter now path interfaces =
     (case map_of interfaces ''org.bluez.Device1'' of None \<Rightarrow> None | Some dev \<Rightarrow> from_props adapter now path dev)"

definition on_signal :: "string \<Rightarrow> int \<Rightarrow> bool \<Rightarrow> string \<Rightarrow> string \<Rightarrow> string \<Rightarrow> dbody list \<Rightarrow> advert_event option" where
  "on_signal adapter now is_signal iface member path body =
     (if \<not> is_signal then None
      else if member \<noteq> ''PropertiesChanged'' \<or> iface \<noteq> ''org.freedesktop.DBus.Properties'' then None
      else
        case body of
          [] \<Rightarrow> None
        | what # rest \<Rightarrow>
            if what \<noteq> BStr ''org.bluez.Device1'' then None
            else (case rest of
                    [] \<Rightarrow> from_props adapter now path []
                  | BDict changed # _ \<Rightarrow> from_props adapter now path changed
                  | _ \<Rightarrow> None))"

fun signal_event :: "string \<Rightarrow> int \<Rightarrow> dsignal \<Rightarrow> advert_event option" where
  "signal_event adapter now (Added path interfaces) = on_added adapter now path interfaces"
| "signal_event adapter now (Msg s iface member path body) = on_signal adapter now s iface member path body"

definition scan_events :: "string \<Rightarrow> int \<Rightarrow> dsignal list \<Rightarrow> advert_event list" where
  "scan_events adapter now sigs = List.map_filter (signal_event adapter now) sigs"

fun is_added :: "dsignal \<Rightarrow> bool" where
  "is_added (Added _ _) = True"
| "is_added (Msg _ _ _ _ _) = False"

definition scan_wake :: "'b bluez \<Rightarrow> string \<Rightarrow> int \<Rightarrow> 'b dbus_state \<Rightarrow> advert_event list \<times> 'b dbus_state" where
  "scan_wake B adapter now st =
     (let st' = pause B 0 st
      in (scan_events adapter now (drop (length (db_signals st)) (db_signals st')), st'))"

definition quoted :: "string \<Rightarrow> string" where
  "quoted s = CHR 0x27 # s @ [CHR 0x27]"

definition MATCH_RULE :: string where
  "MATCH_RULE = ''type='' @ quoted ''signal'' @ '',interface='' @ quoted ''org.freedesktop.DBus.Properties''
     @ '',member='' @ quoted ''PropertiesChanged''"

text \<open>What is done before the loop: the handlers, the filter, the start; and the positions in the log of
  signals from which on the two handlers were registered.\<close>

definition scan_start :: "'b bluez \<Rightarrow> string \<Rightarrow> ('b dbus_state, nat \<times> nat) sx" where
  "scan_start B adapter =
     sx_bind (bus_handle B) (\<lambda>_.
     sx_bind (proxy_iface B ''/'' ''org.freedesktop.DBus.ObjectManager'') (\<lambda>_ st.
       let from_added = length (db_signals st);
           st1 = st\<lparr>db_added_handlers := Suc (db_added_handlers st)\<rparr>
       in sx_bind (invoke B ''/org/freedesktop/DBus'' (AddMatch MATCH_RULE)) (\<lambda>_ st2.
            let from_messages = length (db_signals st2);
                st3 = st2\<lparr>db_message_handlers := Suc (db_message_handlers st2)\<rparr>
            in sx_bind (adapter_iface B adapter) (\<lambda>_ st4.
                 let st5 = ignoring (invoke B (adapter_path adapter) SetDiscoveryFilter) st4
                 in sx_bind (invoke B (adapter_path adapter) StartDiscovery) (\<lambda>_.
                      sx_lift (Inr (from_added, from_messages))) st5) st3) st1))"

definition scan_stop :: "'b bluez \<Rightarrow> string \<Rightarrow> 'b dbus_state \<Rightarrow> 'b dbus_state" where
  "scan_stop B adapter st =
     (let st1 = ignoring (invoke B (adapter_path adapter) StopDiscovery) st
      in st1\<lparr>db_message_handlers := db_message_handlers st1 - 1\<rparr>)"

text \<open>What the handlers have put into the queue before the loop.\<close>

definition queued_events :: "string \<Rightarrow> int \<Rightarrow> nat \<Rightarrow> nat \<Rightarrow> dsignal list \<Rightarrow> advert_event list" where
  "queued_events adapter now from_added from_messages sigs =
     scan_events adapter now (filter is_added (slice from_added from_messages sigs) @ drop from_messages sigs)"

definition dbus_scan_iter ::
  "'b bluez \<Rightarrow> string \<Rightarrow> int \<Rightarrow> int \<Rightarrow> nat list \<Rightarrow> ('b dbus_state, advert_event list) sx" where
  "dbus_scan_iter B adapter duration now ds =
     sx_bind (scan_start B adapter) (\<lambda>(from_added, from_messages) st.
       let queue = queued_events adapter now from_added from_messages (db_signals st);
           (evs, st') = generate (scan_wake B adapter) (now + duration) ds now queue st
       in (Inr evs, scan_stop B adapter st'))"


section \<open>Sessions\<close>

record dbus_session =
  dh_path :: string
  dh_chars :: "string \<rightharpoonup> string"
  dh_cache :: "string \<rightharpoonup> string"

definition has_object :: "string \<Rightarrow> dobjects \<Rightarrow> bool" where
  "has_object path objs \<longleftrightarrow> path \<in> set (map fst objs)"

text \<open>At most \<open>n\<close> rounds of a tenth of a second.\<close>

fun await_device :: "'b bluez \<Rightarrow> string \<Rightarrow> nat \<Rightarrow> ('b dbus_state, unit) sx" where
  "await_device B path 0 st = (Inr (), st)"
| "await_device B path (Suc n) st =
     (case managed_objects B (pause B 100000000 st) of
        (Inl e, st') \<Rightarrow> (Inl e, st')
      | (Inr objs, st') \<Rightarrow> if has_object path objs then (Inr (), st') else await_device B path n st')"

definition make_known :: "'b bluez \<Rightarrow> string \<Rightarrow> string \<Rightarrow> ('b dbus_state, unit) sx" where
  "make_known B adapter path =
     sx_bind (managed_objects B) (\<lambda>objs st.
       if has_object path objs then (Inr (), st)
       else sx_bind (adapter_iface B adapter) (\<lambda>_ st1.
         let (r, st2) = sx_bind (invoke B (adapter_path adapter) StartDiscovery) (\<lambda>_. await_device B path 50) st1
         in (r, ignoring (invoke B (adapter_path adapter) StopDiscovery) st2)) st)"

fun await_resolved :: "'b bluez \<Rightarrow> string \<Rightarrow> nat \<Rightarrow> ('b dbus_state, unit) sx" where
  "await_resolved B path 0 st = (Inr (), st)"
| "await_resolved B path (Suc n) st =
     (case invoke B path (Get ''org.bluez.Device1'' ''ServicesResolved'') st of
        (Inl e, st') \<Rightarrow> (Inl e, st')
      | (Inr v, st') \<Rightarrow> if dtrue (unwrap v) then (Inr (), st') else await_resolved B path n (pause B 50000000 st'))"

text \<open>The walk over the objects: a later characteristic with the same UUID replaces an earlier one.\<close>

fun walk_chars :: "string \<Rightarrow> dobjects \<Rightarrow> (string \<rightharpoonup> string) \<Rightarrow> (string \<rightharpoonup> string)" where
  "walk_chars dev [] chars = chars"
| "walk_chars dev ((path, ifaces) # objs) chars =
     walk_chars dev objs
       (if \<not> prefix (dev @ ''/'') path then chars
        else
          case map_of ifaces ''org.bluez.GattCharacteristic1'' of
            None \<Rightarrow> chars
          | Some char \<Rightarrow>
              (case as_text (prop_value ''UUID'' char) of
                 None \<Rightarrow> chars
               | Some [] \<Rightarrow> chars
               | Some uuid \<Rightarrow> chars(py_lower (ascii uuid) \<mapsto> path)))"

definition dbus_setup :: "'b bluez \<Rightarrow> string \<Rightarrow> string \<Rightarrow> ('b dbus_state, dbus_session) sx" where
  "dbus_setup B adapter target =
     (let path = mac_to_dev_path adapter target in
      sx_bind (bus_handle B) (\<lambda>_.
      sx_bind (make_known B adapter path) (\<lambda>_.
      sx_bind (proxy B path) (\<lambda>ifaces.
      sx_bind (sx_lift (get_interface ''org.bluez.Device1'' ifaces)) (\<lambda>_.
      sx_bind (sx_lift (get_interface ''org.freedesktop.DBus.Properties'' ifaces)) (\<lambda>_.
      sx_bind (invoke B path (Get ''org.bluez.Device1'' ''Connected'')) (\<lambda>connected.
      sx_bind (if dtrue (unwrap connected) then sx_lift (Inr DNone) else invoke B path DeviceConnect) (\<lambda>_.
      sx_bind (await_resolved B path 100) (\<lambda>_.
      sx_bind (managed_objects B) (\<lambda>objs.
        sx_lift (Inr \<lparr>dh_path = path, dh_chars = walk_chars path objs Map.empty, dh_cache = Map.empty\<rparr>)))))))))))"

definition dbus_teardown :: "'b bluez \<Rightarrow> dbus_session \<Rightarrow> 'b dbus_state \<Rightarrow> 'b dbus_state" where
  "dbus_teardown B h = ignoring (invoke B (dh_path h) Disconnect)"

text \<open>The interface of a characteristic, by its path, and the session with it in its cache.\<close>

definition char_iface :: "'b bluez \<Rightarrow> dbus_session \<Rightarrow> string \<Rightarrow> ('b dbus_state, string \<times> dbus_session) sx" where
  "char_iface B h uuid =
     (case dh_cache h (py_lower uuid) of
        Some path \<Rightarrow> sx_lift (Inr (path, h))
      | None \<Rightarrow>
          (case dh_chars h (py_lower uuid) of
             None \<Rightarrow> sx_lift (Inl KeyError)
           | Some path \<Rightarrow>
               sx_bind (proxy_iface B path ''org.bluez.GattCharacteristic1'') (\<lambda>_.
                 sx_lift (Inr (path, h\<lparr>dh_cache := (dh_cache h)(py_lower uuid \<mapsto> path)\<rparr>)))))"

text \<open>\<open>bytes(value)\<close> of something that is not an array of bytes raises.\<close>

definition dbus_read :: "'b bluez \<Rightarrow> dbus_session \<Rightarrow> string \<Rightarrow> ('b dbus_state, bytes \<times> dbus_session) sx" where
  "dbus_read B h uuid =
     sx_bind (char_iface B h uuid) (\<lambda>(path, h').
     sx_bind (invoke B path ReadValue) (\<lambda>v.
       sx_lift (case as_bytes v of None \<Rightarrow> Inl TypeError | Some bs \<Rightarrow> Inr (bs, h'))))"

definition dbus_write :: "'b bluez \<Rightarrow> dbus_session \<Rightarrow> string \<Rightarrow> bytes \<Rightarrow> ('b dbus_state, dbus_session) sx" where
  "dbus_write B h uuid data =
     sx_bind (char_iface B h uuid) (\<lambda>(path, h').
     sx_bind (invoke B path (WriteValue data)) (\<lambda>_. sx_lift (Inr h')))"

definition props_event :: "string \<Rightarrow> int \<Rightarrow> dsignal \<Rightarrow> notify_event option" where
  "props_event path now sig =
     (case sig of
        Msg True iface member p (BStr what # BDict changed # _) \<Rightarrow>
          if p = path \<and> iface = ''org.freedesktop.DBus.Properties'' \<and> member = ''PropertiesChanged''
             \<and> what = ''org.bluez.GattCharacteristic1''
          then map_option (\<lambda>v. \<lparr>ne_t_ns = now, ne_value = v\<rparr>) (as_bytes (prop_value ''Value'' changed))
          else None
      | _ \<Rightarrow> None)"

definition value_events :: "string \<Rightarrow> int \<Rightarrow> dsignal list \<Rightarrow> notify_event list" where
  "value_events path now sigs = List.map_filter (props_event path now) sigs"

definition value_wake :: "'b bluez \<Rightarrow> string \<Rightarrow> int \<Rightarrow> 'b dbus_state \<Rightarrow> notify_event list \<times> 'b dbus_state" where
  "value_wake B path now st =
     (let st' = pause B 0 st in (value_events path now (drop (length (db_signals st)) (db_signals st')), st'))"

definition dbus_notify ::
  "'b bluez \<Rightarrow> dbus_session \<Rightarrow> string \<Rightarrow> int \<Rightarrow> int \<Rightarrow> nat list \<Rightarrow> ('b dbus_state, notify_event list \<times> dbus_session) sx"
where
  "dbus_notify B h uuid duration now ds =
     sx_bind (bus_handle B) (\<lambda>_.
     sx_bind (char_iface B h uuid) (\<lambda>(_, h').
       case dh_chars h (py_lower uuid) of
         None \<Rightarrow> sx_lift (Inl KeyError)
       | Some path \<Rightarrow>
           sx_bind (proxy_iface B path ''org.freedesktop.DBus.Properties'') (\<lambda>_ st.
             let st1 = st\<lparr>db_props_handlers := Suc (db_props_handlers st)\<rparr>
             in sx_bind (invoke B path StartNotify) (\<lambda>_ st2.
                  let queue = value_events path now (drop (length (db_signals st1)) (db_signals st2));
                      (evs, st3) = generate (value_wake B path) (now + duration) ds now queue st2
                  in (Inr (evs, h'), ignoring (invoke B path StopNotify) st3)) st1)))"



section \<open>What calls leave alone\<close>

text \<open>\<open>within n st st'\<close>: between the states at most \<open>n\<close> calls were made, the logs have only grown, and no
  handler was registered or removed.\<close>

definition within :: "nat \<Rightarrow> 'b dbus_state \<Rightarrow> 'b dbus_state \<Rightarrow> bool" where
  "within n st st' \<longleftrightarrow> prefix (db_signals st) (db_signals st') \<and> prefix (db_calls st) (db_calls st')
     \<and> length (db_calls st') \<le> length (db_calls st) + n
     \<and> db_added_handlers st' = db_added_handlers st \<and> db_message_handlers st' = db_message_handlers st
     \<and> db_props_handlers st' = db_props_handlers st"

definition costs :: "nat \<Rightarrow> ('b dbus_state, 'a) sx \<Rightarrow> bool" where
  "costs n f \<longleftrightarrow> (\<forall>st. within n st (snd (f st)))"

lemma within_refl: "within n st st"
  by (simp add: within_def)

lemma within_trans: "within m st st1 \<Longrightarrow> within n st1 st2 \<Longrightarrow> within (m + n) st st2"
  unfolding within_def by (auto intro: prefix_order.trans)

lemma within_mono: "within m st st' \<Longrightarrow> m \<le> n \<Longrightarrow> within n st st'"
  by (simp add: within_def)

lemma costsD: "costs n f \<Longrightarrow> f st = (r, st') \<Longrightarrow> within n st st'"
  unfolding costs_def by (metis snd_conv)

lemma costs_bind:
  assumes "costs m f" "\<And>x. costs n (g x)"
  shows "costs (m + n) (sx_bind f g)"
  unfolding costs_def
proof
  fix st
  obtain r st1 where f: "f st = (r, st1)" by (cases "f st")
  note w = costsD [OF assms(1) f]
  show "within (m + n) st (snd (sx_bind f g st))"
  proof (cases r)
    case (Inl e)
    then show ?thesis using f within_mono [OF w] by simp
  next
    case (Inr x)
    obtain r' st2 where g: "g x st1 = (r', st2)" by (cases "g x st1")
    show ?thesis using f Inr g within_trans [OF w costsD [OF assms(2) g]] by simp
  qed
qed

lemma costs_lift [simp]: "costs n (sx_lift r)"
  by (simp add: costs_def within_refl)

lemma costs_mono: "costs m f \<Longrightarrow> m \<le> n \<Longrightarrow> costs n f"
  unfolding costs_def using within_mono by blast

lemma costs_on_bus: "costs 1 (on_bus path c f)"
  by (simp add: costs_def within_def on_bus_def split: prod.split)

lemma costs_invoke: "costs 1 (invoke B path c)"
  unfolding invoke_def by (rule costs_on_bus)

lemma costs_handle: "costs 1 (bus_handle B)"
  by (simp add: costs_def bus_handle_def on_bus_def within_def split: prod.split sum.split)

lemma costs_proxy: "costs 2 (proxy B path)"
  unfolding proxy_def using costs_bind [OF costs_handle costs_on_bus] by (simp add: numeral_2_eq_2)

lemma costs_iface: "costs 2 (proxy_iface B path name)"
  unfolding proxy_iface_def using costs_bind [OF costs_proxy costs_lift [of 0]] by simp

lemma costs_adapter: "costs 2 (adapter_iface B adapter)"
  unfolding adapter_iface_def by (rule costs_iface)

lemma costs_managed: "costs 3 (managed_objects B)"
  unfolding managed_objects_def using costs_bind [OF costs_iface costs_on_bus] by (simp add: numeral_3_eq_3)

lemma within_pause: "within 0 st (pause B ns st)"
  by (simp add: within_def pause_def split: prod.split)

lemma within_ignoring: "costs n f \<Longrightarrow> within n st (ignoring f st)"
  by (simp add: costs_def ignoring_def)


section \<open>Setting up makes a bounded number of calls\<close>

lemma costs_await_device: "costs (3 * n) (await_device B path n)"
proof (induction n)
  case (Suc n)
  show ?case unfolding costs_def
  proof
    fix st
    obtain r st1 where m: "managed_objects B (pause B 100000000 st) = (r, st1)" by (cases "managed_objects B (pause B 100000000 st)")
    have w: "within 3 st st1" using within_trans [OF within_pause costsD [OF costs_managed m]] by simp
    obtain r' st2 where a: "await_device B path n st1 = (r', st2)" by (cases "await_device B path n st1")
    have "within (3 + 3 * n) st st2" by (rule within_trans [OF w costsD [OF Suc a]])
    then show "within (3 * Suc n) st (snd (await_device B path (Suc n) st))"
      using m a within_mono [OF w, of "3 * Suc n"] by (simp split: sum.split)
  qed
qed (simp add: costs_def within_refl)

lemma costs_await_resolved: "costs n (await_resolved B path n)"
proof (induction n)
  case (Suc n)
  let ?get = "invoke B path (Get ''org.bluez.Device1'' ''ServicesResolved'')"
  show ?case unfolding costs_def
  proof
    fix st
    obtain r st1 where m: "?get st = (r, st1)" by (cases "?get st")
    note w = costsD [OF costs_invoke m]
    obtain r' st2 where a: "await_resolved B path n (pause B 50000000 st1) = (r', st2)"
      by (cases "await_resolved B path n (pause B 50000000 st1)")
    have "within (1 + (0 + n)) st st2" by (rule within_trans [OF w within_trans [OF within_pause costsD [OF Suc a]]])
    then show "within (Suc n) st (snd (await_resolved B path (Suc n) st))"
      using m a within_mono [OF w, of "Suc n"] by (simp split: sum.split)
  qed
qed (simp add: costs_def within_refl)

lemma costs_finally:
  assumes "costs m f" "costs n g"
  shows "costs (m + n) (\<lambda>st. let (r, st') = f st in (r, ignoring g st'))"
  unfolding costs_def
proof
  fix st
  obtain r st1 where f: "f st = (r, st1)" by (cases "f st")
  from within_trans [OF costsD [OF assms(1) f] within_ignoring [OF assms(2)]]
  show "within (m + n) st (snd (let (r, st') = f st in (r, ignoring g st')))" using f by simp
qed

lemma costs_known: "costs 157 (make_known B adapter path)"
proof -
  let ?search = "\<lambda>_ st1. let (r, st2) = sx_bind (invoke B (adapter_path adapter) StartDiscovery) (\<lambda>_. await_device B path 50) st1
    in (r, ignoring (invoke B (adapter_path adapter) StopDiscovery) st2)"
  have "costs (1 + 3 * 50 + 1) (?search x)" for x :: unit
    by (intro costs_finally costs_bind costs_invoke costs_await_device)
  then have "costs (2 + (1 + 3 * 50 + 1)) (sx_bind (adapter_iface B adapter) ?search)"
    by (intro costs_bind costs_adapter)
  then have "costs (3 + (2 + (1 + 3 * 50 + 1))) (make_known B adapter path)"
    unfolding make_known_def
    by (intro costs_bind costs_managed) (auto simp: costs_def within_refl)
  then show ?thesis by simp
qed




section \<open>Scans and notifications give out what the signals tell\<close>

definition heard :: "advert_event \<Rightarrow> string \<times> int option \<times> ustr option" where
  "heard ev = (ae_address ev, ae_rssi ev, ae_name ev)"

definition told :: "string \<Rightarrow> dsignal list \<Rightarrow> (string \<times> int option \<times> ustr option) list" where
  "told adapter sigs = map heard (scan_events adapter 0 sigs)"

lemma from_props_time:
  "map_option heard (from_props adapter now path props) = map_option heard (from_props adapter 0 path props)"
  "from_props adapter now path props = Some ev \<Longrightarrow> ae_t_ns ev = now"
  by (auto simp: from_props_def heard_def split: option.splits if_splits)

lemma on_signal_time:
  "map_option heard (on_signal adapter now s iface member path body) = map_option heard (on_signal adapter 0 s iface member path body)"
  "on_signal adapter now s iface member path body = Some ev \<Longrightarrow> ae_t_ns ev = now"
  using from_props_time [of adapter now path]
  by (auto simp: on_signal_def split: list.splits dbody.splits if_splits)

lemma signal_event_time:
  "map_option heard (signal_event adapter now sig) = map_option heard (signal_event adapter 0 sig)"
  "signal_event adapter now sig = Some ev \<Longrightarrow> ae_t_ns ev = now"
  using from_props_time [of adapter now] on_signal_time [of adapter now]
  by (cases sig; simp add: on_added_def split: option.splits)+

lemma scan_events_heard: "map heard (scan_events adapter now sigs) = told adapter sigs"
proof (induction sigs)
  case (Cons x xs)
  from signal_event_time(1) [of adapter now x] Cons show ?case
    by (cases "signal_event adapter now x"; cases "signal_event adapter 0 x")
      (simp_all add: scan_events_def told_def map_filter_simps)
qed (simp add: scan_events_def told_def map_filter_simps)

lemma scan_events_time: "\<forall>ev\<in>set (scan_events adapter now sigs). ae_t_ns ev = now"
  by (induction sigs) (auto simp: scan_events_def map_filter_simps dest: signal_event_time(2) split: option.splits)

lemma told_append [simp]: "told adapter (xs @ ys) = told adapter xs @ told adapter ys"
  by (simp add: told_def scan_events_def List.map_filter_def)

lemma pause_signals: "\<exists>sigs. db_signals (pause B ns st) = db_signals st @ sigs"
  using within_pause [of st B ns] by (auto simp: within_def prefix_def)

interpretation bus_adverts: event_source "scan_wake B adapter" ae_t_ns heard "\<lambda>_. True" "\<lambda>st. told adapter (db_signals st)"
  for B :: "'b bluez" and adapter :: string
proof
  fix now evs and s s' :: "'b dbus_state"
  assume "scan_wake B adapter now s = (evs, s')"
  then have e: "s' = pause B 0 s" "evs = scan_events adapter now (drop (length (db_signals s)) (db_signals s'))"
    by (auto simp: scan_wake_def Let_def)
  obtain sigs where "db_signals s' = db_signals s @ sigs" using pause_signals [of B 0 s] e(1) by auto
  then show "True \<and> told adapter (db_signals s') = told adapter (db_signals s) @ map heard evs \<and> (\<forall>ev\<in>set evs. ae_t_ns ev = now)"
    by (simp add: e(2) scan_events_heard scan_events_time)
qed

lemma generate_within:
  assumes "\<And>now s. within 0 s (snd (wake now s))"
  shows "within 0 st (snd (generate wake deadline ds now queue st))"
proof (rule queue_keeps [where P = "within 0 st" and wake = wake, OF _ _ within_refl])
  show "within 0 st s \<Longrightarrow> within 0 st (snd (wake now s))" for now s
    using within_trans [OF _ assms, of 0 st s now] by simp
qed (rule prod.collapse [symmetric])

lemma scan_wake_within: "within 0 s (snd (scan_wake B adapter now s))"
  using within_pause by (simp add: scan_wake_def Let_def)

lemma scan_start_steps:
  assumes "scan_start B adapter st = (Inr (p, q), st')"
  shows "length (db_signals st) \<le> p \<and> p \<le> q \<and> q \<le> length (db_signals st')
    \<and> db_added_handlers st' = Suc (db_added_handlers st) \<and> db_message_handlers st' = Suc (db_message_handlers st)"
proof -
  let ?om = "proxy_iface B ''/'' ''org.freedesktop.DBus.ObjectManager''"
  let ?am = "invoke B ''/org/freedesktop/DBus'' (AddMatch MATCH_RULE)"
  let ?sd = "invoke B (adapter_path adapter) StartDiscovery"
  obtain st1 where 1: "sx_bind (bus_handle B) (\<lambda>_. ?om) st = (Inr (), st1)"
    and r1: "p = length (db_signals st1)"
    and b1: "sx_bind ?am (\<lambda>_ st2.
            let from_messages = length (db_signals st2);
                st3 = st2\<lparr>db_message_handlers := Suc (db_message_handlers st2)\<rparr>
            in sx_bind (adapter_iface B adapter) (\<lambda>_ st4.
                 let st5 = ignoring (invoke B (adapter_path adapter) SetDiscoveryFilter) st4
                 in sx_bind ?sd (\<lambda>_. sx_lift (Inr (p, from_messages))) st5) st3)
          (st1\<lparr>db_added_handlers := Suc (db_added_handlers st1)\<rparr>) = (Inr (p, q), st')"
    using assms unfolding scan_start_def Let_def
    by (auto simp: sx_bind_def split: prod.splits sum.splits)
  have w1: "within 3 st st1" using costsD [OF costs_bind [OF costs_handle costs_iface] 1] by (simp add: numeral_3_eq_3)
  obtain x2 st2 where 2: "?am (st1\<lparr>db_added_handlers := Suc (db_added_handlers st1)\<rparr>) = (Inr x2, st2)"
    and b2: "sx_bind (adapter_iface B adapter) (\<lambda>_ st4.
                 let st5 = ignoring (invoke B (adapter_path adapter) SetDiscoveryFilter) st4
                 in sx_bind ?sd (\<lambda>_. sx_lift (Inr (p, length (db_signals st2)))) st5)
              (st2\<lparr>db_message_handlers := Suc (db_message_handlers st2)\<rparr>) = (Inr (p, q), st')"
    using b1 by (elim sx_bindE) (simp add: Let_def)
  note w2 = costsD [OF costs_invoke 2]
  obtain x4 st4 where 4: "adapter_iface B adapter (st2\<lparr>db_message_handlers := Suc (db_message_handlers st2)\<rparr>) = (Inr x4, st4)"
    and b4: "sx_bind ?sd (\<lambda>_. sx_lift (Inr (p, length (db_signals st2))))
        (ignoring (invoke B (adapter_path adapter) SetDiscoveryFilter) st4) = (Inr (p, q), st')"
    using b2 by (elim sx_bindE) (simp add: Let_def)
  note w4 = within_trans [OF costsD [OF costs_adapter 4] within_ignoring [OF costs_invoke [of B "adapter_path adapter" SetDiscoveryFilter], of st4]]
  obtain x5 where 5: "?sd (ignoring (invoke B (adapter_path adapter) SetDiscoveryFilter) st4) = (Inr x5, st')"
    and q: "q = length (db_signals st2)"
    using b4 by (elim sx_bindE) simp
  note w5 = within_trans [OF w4 costsD [OF costs_invoke 5]]
  show ?thesis using w1 w2 w5 unfolding r1 q within_def
    by (auto dest!: prefix_length_le)
qed

text \<open>A scan over D-Bus gives out, in order and within its window, what the signals of BlueZ tell about
  devices of its adapter from the moment its handlers are registered; at its end it has stopped the
  discovery and removed the handler of messages, but the handler of new devices stays registered.\<close>

theorem dbus_scan_in_order:
  assumes "dbus_scan_iter B adapter duration now ds st = (Inr evs, st')"
  shows "\<exists>p q. length (db_signals st) \<le> p \<and> p \<le> q
    \<and> in_order ae_t_ns heard now (now + duration)
        (told adapter (filter is_added (slice p q (db_signals st')) @ drop q (db_signals st'))) evs
    \<and> List.last (db_calls st') = (adapter_path adapter, StopDiscovery)
    \<and> db_message_handlers st' = db_message_handlers st \<and> db_added_handlers st' = Suc (db_added_handlers st)"
proof -
  obtain p q st1 where s: "scan_start B adapter st = (Inr (p, q), st1)"
    and r: "(let queue = queued_events adapter now p q (db_signals st1);
           (evs, st') = generate (scan_wake B adapter) (now + duration) ds now queue st1
       in (Inr evs, scan_stop B adapter st')) = (Inr evs :: advert_event list result, st')"
    using assms unfolding dbus_scan_iter_def by (elim sx_bindE) auto
  let ?queue = "queued_events adapter now p q (db_signals st1)"
  obtain evs' st2 where g: "generate (scan_wake B adapter) (now + duration) ds now ?queue st1 = (evs', st2)" by fastforce
  have e: "evs' = evs" "st' = scan_stop B adapter st2" using r g by (simp_all add: Let_def)
  note h = scan_start_steps [OF s]
  have w2: "within 0 st1 st2" using generate_within [of "scan_wake B adapter" st1] scan_wake_within g by (metis snd_conv)
  have w3: "within 1 st2 (ignoring (invoke B (adapter_path adapter) StopDiscovery) st2)" by (rule within_ignoring [OF costs_invoke])
  obtain sigs3 where l3: "db_signals st' = db_signals st2 @ sigs3"
    using w3 by (auto simp: e(2) scan_stop_def Let_def within_def prefix_def)
  obtain sigs2 where l2: "db_signals st2 = db_signals st1 @ sigs2" using w2 by (auto simp: within_def prefix_def)
  have qt: "\<forall>ev\<in>set ?queue. ae_t_ns ev = now" by (simp add: queued_events_def scan_events_time)
  from bus_adverts.generate_in_order [OF TrueI qt g] obtain vs where
    vs: "told adapter (db_signals st2) = told adapter (db_signals st1) @ vs"
      "in_order ae_t_ns heard now (now + duration) (map heard ?queue @ vs) evs'" by blast
  have "vs = told adapter sigs2" using vs(1) by (simp add: l2)
  moreover have "map heard ?queue = told adapter (filter is_added (slice p q (db_signals st1)) @ drop q (db_signals st1))"
    by (simp only: queued_events_def scan_events_heard)
  moreover have "slice p q (db_signals st') = slice p q (db_signals st1)"
    using h by (simp add: slice_def l3 l2)
  moreover have "drop q (db_signals st') = drop q (db_signals st1) @ sigs2 @ sigs3" using h by (simp add: l3 l2)
  ultimately have o: "in_order ae_t_ns heard now (now + duration)
      (told adapter (filter is_added (slice p q (db_signals st')) @ drop q (db_signals st'))) evs'"
    using in_order_more [OF vs(2), of "told adapter sigs3"] by simp
  have "List.last (db_calls st') = (adapter_path adapter, StopDiscovery)"
    by (simp add: e(2) scan_stop_def ignoring_def invoke_def on_bus_def Let_def split: prod.split)
  moreover have "db_message_handlers st' = db_message_handlers st" "db_added_handlers st' = Suc (db_added_handlers st)"
    using h w2 w3 by (simp_all add: e(2) scan_stop_def Let_def within_def)
  ultimately show ?thesis using o h unfolding e(1) by blast
qed

text \<open>The same of notifications, which come as changes of the characteristic's value.\<close>

definition values_told :: "string \<Rightarrow> dsignal list \<Rightarrow> bytes list" where
  "values_told path sigs = map ne_value (value_events path 0 sigs)"

lemma props_event_time:
  "map_option ne_value (props_event path now sig) = map_option ne_value (props_event path 0 sig)"
  "props_event path now sig = Some ev \<Longrightarrow> ne_t_ns ev = now"
  by (auto simp: props_event_def option.map_comp comp_def split: dsignal.splits list.splits dbody.splits bool.splits if_splits)

lemma value_events_told: "map ne_value (value_events path now sigs) = values_told path sigs"
proof (induction sigs)
  case (Cons x xs)
  from props_event_time(1) [of path now x] Cons show ?case
    by (cases "props_event path now x"; cases "props_event path 0 x")
      (simp_all add: value_events_def values_told_def map_filter_simps)
qed (simp add: value_events_def values_told_def map_filter_simps)

lemma value_events_time: "\<forall>ev\<in>set (value_events path now sigs). ne_t_ns ev = now"
  by (induction sigs) (auto simp: value_events_def map_filter_simps dest: props_event_time(2) split: option.splits)

lemma values_told_append [simp]: "values_told path (xs @ ys) = values_told path xs @ values_told path ys"
  by (simp add: values_told_def value_events_def List.map_filter_def)

interpretation bus_values: event_source "value_wake B path" ne_t_ns ne_value "\<lambda>_. True" "\<lambda>st. values_told path (db_signals st)"
  for B :: "'b bluez" and path :: string
proof
  fix now evs and s s' :: "'b dbus_state"
  assume "value_wake B path now s = (evs, s')"
  then have e: "s' = pause B 0 s" "evs = value_events path now (drop (length (db_signals s)) (db_signals s'))"
    by (auto simp: value_wake_def Let_def)
  obtain sigs where "db_signals s' = db_signals s @ sigs" using pause_signals [of B 0 s] e(1) by auto
  then show "True \<and> values_told path (db_signals s') = values_told path (db_signals s) @ map ne_value evs \<and> (\<forall>ev\<in>set evs. ne_t_ns ev = now)"
    by (simp add: e(2) value_events_told value_events_time)
qed

lemma costs_char: "costs 2 (char_iface B h uuid)"
proof -
  have "costs 2 (sx_bind (proxy_iface B p name) (\<lambda>_. sx_lift r))" for p name and r :: "(string \<times> dbus_session) result"
    using costs_bind [OF costs_iface, of 0 "\<lambda>_. sx_lift r"] by simp
  then show ?thesis by (simp add: char_iface_def split: option.split)
qed

lemma value_wake_within: "within 0 s (snd (value_wake B path now s))"
  using within_pause by (simp add: value_wake_def Let_def)

text \<open>A subscription over D-Bus gives out, in order and within its window, the values that the signals for
  the characteristic carry from the moment its handler is registered; it ends with the call that
  stops the notifications, and leaves the handler registered.\<close>

theorem dbus_notify_in_order:
  assumes "dbus_notify B h uuid duration now ds st = (Inr (evs, h'), st')"
  shows "\<exists>path sigs vs. dh_chars h (py_lower uuid) = Some path \<and> prefix (db_signals st) sigs
    \<and> values_told path (db_signals st') = values_told path sigs @ vs
    \<and> in_order ne_t_ns ne_value now (now + duration) vs evs
    \<and> List.last (db_calls st') = (path, StopNotify) \<and> db_props_handlers st' = Suc (db_props_handlers st)"
proof -
  obtain x h1 s1 where c: "sx_bind (bus_handle B) (\<lambda>_. char_iface B h uuid) st = (Inr (x, h1), s1)"
    and b: "(case dh_chars h (py_lower uuid) of
         None \<Rightarrow> sx_lift (Inl KeyError)
       | Some path \<Rightarrow>
           sx_bind (proxy_iface B path ''org.freedesktop.DBus.Properties'') (\<lambda>_ st.
             let st1 = st\<lparr>db_props_handlers := Suc (db_props_handlers st)\<rparr>
             in sx_bind (invoke B path StartNotify) (\<lambda>_ st2.
                  let queue = value_events path now (drop (length (db_signals st1)) (db_signals st2));
                      (evs, st3) = generate (value_wake B path) (now + duration) ds now queue st2
                  in (Inr (evs, h1), ignoring (invoke B path StopNotify) st3)) st1)) s1 = (Inr (evs, h'), st')"
    using assms unfolding dbus_notify_def by (auto simp: sx_bind_def split: prod.splits sum.splits)
  then obtain path where p: "dh_chars h (py_lower uuid) = Some path"
    by (cases "dh_chars h (py_lower uuid)") (simp_all add: sx_lift_def)
  obtain y s2 where 2: "proxy_iface B path ''org.freedesktop.DBus.Properties'' s1 = (Inr y, s2)"
    and b2: "(let st1 = s2\<lparr>db_props_handlers := Suc (db_props_handlers s2)\<rparr>
             in sx_bind (invoke B path StartNotify) (\<lambda>_ st2.
                  let queue = value_events path now (drop (length (db_signals st1)) (db_signals st2));
                      (evs, st3) = generate (value_wake B path) (now + duration) ds now queue st2
                  in (Inr (evs, h1), ignoring (invoke B path StopNotify) st3)) st1) = (Inr (evs, h'), st')"
    using b unfolding p option.case by (elim sx_bindE) blast
  let ?s2 = "s2\<lparr>db_props_handlers := Suc (db_props_handlers s2)\<rparr>"
  obtain z s3 where 3: "invoke B path StartNotify ?s2 = (Inr z, s3)"
    and b3: "(case generate (value_wake B path) (now + duration) ds now
          (value_events path now (drop (length (db_signals ?s2)) (db_signals s3))) s3 of
        (evs, st3) \<Rightarrow> (Inr (evs, h1), ignoring (invoke B path StopNotify) st3)) = (Inr (evs, h') :: (notify_event list \<times> dbus_session) result, st')"
    using b2 unfolding Let_def by (elim sx_bindE) (rule that)
  let ?q = "value_events path now (drop (length (db_signals s2)) (db_signals s3))"
  obtain evs' s4 where g: "generate (value_wake B path) (now + duration) ds now ?q s3 = (evs', s4)" by fastforce
  have e: "evs' = evs" "st' = ignoring (invoke B path StopNotify) s4" using b3 g by simp_all
  note w1 = within_trans [OF costsD [OF costs_bind [OF costs_handle costs_char] c] costsD [OF costs_iface 2]]
  note w3 = costsD [OF costs_invoke 3]
  have w4: "within 0 s3 s4"
    using generate_within [of "value_wake B path" s3] value_wake_within g by (metis snd_conv)
  note w5 = within_ignoring [OF costs_invoke [of B path StopNotify], of s4]
  have "True \<and> (\<exists>vs. values_told path (db_signals st') = values_told path (db_signals s2) @ vs
      \<and> in_order ne_t_ns ne_value now (now + duration) vs evs')"
    by (rule bus_values.window_in_order [OF _ _ _ g])
      (use w3 w5 in \<open>auto simp: within_def prefix_def e(2) value_events_told value_events_time\<close>)
  moreover have "prefix (db_signals st) (db_signals s2)" using w1 by (simp add: within_def)
  moreover have "List.last (db_calls st') = (path, StopNotify)"
    by (simp add: e(2) ignoring_def invoke_def on_bus_def Let_def split: prod.split)
  moreover have "db_props_handlers st' = Suc (db_props_handlers st)"
    using w1 w3 w4 w5 by (simp add: within_def e(2))
  ultimately show ?thesis using p e(1) by auto
qed

text \<open>BlueZ announces a new RSSI of a known device with the properties that changed, and \<open>Address\<close> never
  does: such an announcement is no event.\<close>

definition rssi_update :: "dsignal \<Rightarrow> bool" where
  "rssi_update sig \<longleftrightarrow> (case sig of
      Msg True iface member path (BStr what # BDict changed # _) \<Rightarrow>
        iface = ''org.freedesktop.DBus.Properties'' \<and> member = ''PropertiesChanged'' \<and> what = ''org.bluez.Device1''
        \<and> map_of changed ''Address'' = None
    | _ \<Rightarrow> False)"

lemma rssi_updateE:
  assumes "rssi_update sig"
  obtains iface member path what changed rest
  where "sig = Msg True iface member path (BStr what # BDict changed # rest)" "map_of changed ''Address'' = None"
proof (cases sig)
  case (Msg b iface member path body)
  note r = assms [unfolded Msg rssi_update_def dsignal.case]
  have b: "b" using r by (cases b) simp_all
  obtain x xs where body: "body = x # xs" using r b by (cases body) simp_all
  obtain what where x: "x = BStr what" using r b body by (cases x) simp_all
  obtain y ys where xs: "xs = y # ys" using r b body x by (cases xs) simp_all
  obtain changed where y: "y = BDict changed" using r b body x xs by (cases y) simp_all
  have "map_of changed ''Address'' = None" using r b body x xs y by simp
  then show thesis using that Msg b body x xs y by simp
qed (use assms in \<open>simp add: rssi_update_def\<close>)

lemma rssi_update_silent: "rssi_update sig \<Longrightarrow> signal_event adapter now sig = None"
  by (elim rssi_updateE) (simp add: on_signal_def from_props_def prop_value_def)

theorem known_devices_not_counted:
  assumes "dbus_scan_iter B adapter duration now ds st = (Inr evs, st')"
    and "list_all rssi_update (drop (length (db_signals st)) (db_signals st'))"
  shows "evs = []"
proof -
  from dbus_scan_in_order [OF assms(1)] obtain p q where pq: "length (db_signals st) \<le> p" "p \<le> q"
    "in_order ae_t_ns heard now (now + duration)
        (told adapter (filter is_added (slice p q (db_signals st')) @ drop q (db_signals st'))) evs" by blast
  have n: "told adapter sigs = []" if "list_all rssi_update sigs" for sigs
    using that by (induction sigs) (auto simp: told_def scan_events_def map_filter_simps rssi_update_silent)
  have sub: "set (slice p q xs) \<subseteq> set (drop (length (db_signals st)) xs)" "set (drop q xs) \<subseteq> set (drop (length (db_signals st)) xs)"
    for xs :: "dsignal list"
    using pq(1,2) set_drop_subset_set_drop [of "length (db_signals st)" p xs] set_drop_subset_set_drop [of "length (db_signals st)" q xs]
      set_take_subset [of "q - p" "drop p xs"]
    by (auto simp: slice_def)
  have "list_all rssi_update (filter is_added (slice p q (db_signals st')) @ drop q (db_signals st'))"
    using assms(2) sub [of "db_signals st'"] by (auto simp: list_all_iff)
  from n [OF this] pq(3) show ?thesis by (simp add: in_order_def)
qed


section \<open>Characteristics\<close>

text \<open>The table has the last characteristic of each UUID.\<close>

definition char_entry :: "string \<Rightarrow> string \<times> (string \<times> dprops) list \<Rightarrow> (string \<times> string) option" where
  "char_entry dev = (\<lambda>(path, ifaces).
     if \<not> prefix (dev @ ''/'') path then None
     else
       case map_of ifaces ''org.bluez.GattCharacteristic1'' of
         None \<Rightarrow> None
       | Some char \<Rightarrow>
           (case as_text (prop_value ''UUID'' char) of
              None \<Rightarrow> None
            | Some uuid \<Rightarrow> if uuid = [] then None else Some (py_lower (ascii uuid), path)))"

lemma walk_chars_table:
  "walk_chars dev objs m = m ++ map_of (rev (List.map_filter (char_entry dev) objs))"
  by (induction dev objs m rule: walk_chars.induct)
    (auto simp: map_filter_simps char_entry_def map_add_def fun_eq_iff split: option.splits list.splits)

text \<open>After a read the characteristic is known to the session: the next read of it, in any case of its
  UUID, is a single call.\<close>

theorem second_read_one_call:
  assumes "dbus_read B h uuid st = (Inr (v, h'), st1)" "py_lower uuid' = py_lower uuid"
  shows "\<exists>path. dbus_read B h' uuid' st2 = sx_bind (invoke B path ReadValue) (\<lambda>v.
      sx_lift (case as_bytes v of None \<Rightarrow> Inl TypeError | Some bs \<Rightarrow> Inr (bs, h'))) st2
    \<and> length (db_calls (snd (dbus_read B h' uuid' st2))) = length (db_calls st2) + 1"
proof -
  from assms(1) obtain path st0 where c: "char_iface B h uuid st = (Inr (path, h'), st0)"
    unfolding dbus_read_def by (elim sx_bindE) (auto split: option.splits elim!: sx_bindE)
  then have "dh_cache h' (py_lower uuid) = Some path"
    by (auto simp: char_iface_def elim!: sx_bindE split: option.splits)
  then have r: "dbus_read B h' uuid' st2 = sx_bind (invoke B path ReadValue) (\<lambda>v.
      sx_lift (case as_bytes v of None \<Rightarrow> Inl TypeError | Some bs \<Rightarrow> Inr (bs, h'))) st2"
    by (simp add: dbus_read_def char_iface_def assms(2) sx_bind_def)
  moreover have "length (db_calls (snd (dbus_read B h' uuid' st2))) = length (db_calls st2) + 1"
    unfolding r by (simp add: sx_bind_def invoke_def on_bus_def split: prod.split sum.split)
  ultimately show ?thesis by blast
qed

end
