(* ===== verification/Bench_Bleak.thy ===== *)
theory Bench_Bleak
  imports Bench_Events Side_Modules
begin

text \<open>
  \<open>bench/stacks/lib_bleak.py\<close>: the stack over the real \<open>bleak\<close>, with the guard that keeps the shadow of
  this package out.  The library is the parameter \<open>bleak_lib\<close>: each call gives its answer, what the
  callbacks were called with while it was awaited, and the new state of the world.
\<close>

section \<open>The guard\<close>

text \<open>\<open>import bleak\<close>: the loaded module, or the first directory of the path that has one.\<close>

fun find_module :: "(string \<Rightarrow> string option) \<Rightarrow> string list \<Rightarrow> file_attr option" where
  "find_module fs [] = None"
| "find_module fs (d # ds) = (case fs d of Some f \<Rightarrow> Some (FilePath f) | None \<Rightarrow> find_module fs ds)"

definition import_bleak :: "(string \<Rightarrow> string option) \<Rightarrow> (interpreter, file_attr) sx" where
  "import_bleak fs s =
     (case py_modules s ''bleak'' of
        Some m \<Rightarrow> (Inr m, s)
      | None \<Rightarrow>
          (case find_module fs (py_path s) of
             None \<Rightarrow> (Inl (ForeignError ''ImportError''), s)
           | Some m \<Rightarrow> (Inr m, s\<lparr>py_modules := (py_modules s)(''bleak'' \<mapsto> m)\<rparr>)))"

text \<open>\<open>getattr(bleak, "__file__", "") or ""\<close>.\<close>

fun file_text :: "file_attr \<Rightarrow> string" where
  "file_text NoFile = []"
| "file_text FileNone = []"
| "file_text (FilePath f) = f"

definition is_shadow_file :: "string \<Rightarrow> bool" where
  "is_shadow_file f \<longleftrightarrow> sublist ''/_shadow/'' f \<or> sublist (CHR 0x5C # ''_shadow'' @ [CHR 0x5C]) f"

definition load_lib_bleak :: "string \<Rightarrow> (string \<Rightarrow> string option) \<Rightarrow> (interpreter, file_attr) sx" where
  "load_lib_bleak shadow_dir fs s =
     (if py_modules s ''bluek.shadow'' \<noteq> None \<and> shadow_active shadow_dir s then (Inl RuntimeError, s)
      else sx_bind (import_bleak fs) (\<lambda>m.
        if is_shadow_file (file_text m) then sx_lift (Inl RuntimeError) else sx_lift (Inr m)) s)"

text \<open>C40.  The stack over the real library never measures this package by mistake: it does not load in a
  process in which the shadow has been installed, it does not load when the directory of the shadow
  came first on the path in some other way, and the module it loads with is neither the one of the
  shadow nor one of another copy of it.\<close>

theorem lib_bleak_guarded:
  assumes "shadow_dir = root @ ''/_shadow''" "fs shadow_dir = Some (shadow_dir @ ''/bleak/__init__.py'')"
    and "shadow_install shadow_dir s = (Inr (), s1)"
  shows "fst (load_lib_bleak shadow_dir fs (s1\<lparr>py_modules := (py_modules s1)(''bluek.shadow'' \<mapsto> FilePath f)\<rparr>)) = Inl RuntimeError
    \<and> (py_modules s ''bleak'' = None \<and> py_path s = shadow_dir # ds \<longrightarrow> fst (load_lib_bleak shadow_dir fs s) = Inl RuntimeError)
    \<and> (case load_lib_bleak shadow_dir fs s of
         (Inr m, s') \<Rightarrow> \<not> is_shadow_file (file_text m) \<and> py_modules s' ''bleak'' = Some m
           \<and> m \<noteq> FilePath (shadow_dir @ ''/bleak/__init__.py'')
       | (Inl e, s') \<Rightarrow> e = RuntimeError \<or> e = ForeignError ''ImportError'')"
proof (intro conjI)
  have "shadow_active shadow_dir s1"
    using assms(3) by (auto simp: shadow_install_def shadow_active_def Let_def split: option.splits sum.splits if_splits)
  then show "fst (load_lib_bleak shadow_dir fs (s1\<lparr>py_modules := (py_modules s1)(''bluek.shadow'' \<mapsto> FilePath f)\<rparr>)) = Inl RuntimeError"
    by (simp add: load_lib_bleak_def shadow_active_def)
  have shadow: "is_shadow_file (shadow_dir @ ''/bleak/__init__.py'')"
  proof -
    have "shadow_dir @ ''/bleak/__init__.py'' = root @ ''/_shadow/'' @ ''bleak/__init__.py''" by (simp add: assms(1))
    then show ?thesis unfolding is_shadow_file_def sublist_def by blast
  qed
  then show "py_modules s ''bleak'' = None \<and> py_path s = shadow_dir # ds \<longrightarrow> fst (load_lib_bleak shadow_dir fs s) = Inl RuntimeError"
    by (simp add: load_lib_bleak_def import_bleak_def sx_bind_def sx_lift_def assms(2))
  show "case load_lib_bleak shadow_dir fs s of
         (Inr m, s') \<Rightarrow> \<not> is_shadow_file (file_text m) \<and> py_modules s' ''bleak'' = Some m
           \<and> m \<noteq> FilePath (shadow_dir @ ''/bleak/__init__.py'')
       | (Inl e, s') \<Rightarrow> e = RuntimeError \<or> e = ForeignError ''ImportError''"
    using shadow by (auto simp: load_lib_bleak_def import_bleak_def sx_bind_def sx_lift_def split: option.splits)
qed

definition demo_site :: "string \<Rightarrow> string option" where
  "demo_site d = (if d = ''/b/_shadow'' then Some ''/b/_shadow/bleak/__init__.py''
     else if d = ''/site'' then Some ''/site/bleak/__init__.py'' else None)"

theorem lib_bleak_guarded_witness:
  "let s = \<lparr>py_path = [''/site''], py_modules = Map.empty, py_warnings = 0\<rparr>;
       s1 = snd (shadow_install ''/b/_shadow'' s)
   in fst (load_lib_bleak ''/b/_shadow'' demo_site s) = Inr (FilePath ''/site/bleak/__init__.py'')
    \<and> fst (load_lib_bleak ''/b/_shadow'' demo_site
        (s1\<lparr>py_modules := (py_modules s1)(''bluek.shadow'' \<mapsto> FilePath ''/b/shadow.py'')\<rparr>)) = Inl RuntimeError
    \<and> fst (load_lib_bleak ''/b/_shadow'' demo_site (s\<lparr>py_path := [''/b/_shadow'']\<rparr>)) = Inl RuntimeError"
proof -
  let ?s = "\<lparr>py_path = [''/site''], py_modules = Map.empty, py_warnings = 0\<rparr>"
  let ?t = "?s\<lparr>py_path := [''/b/_shadow'']\<rparr>"
  have d: "''/b/_shadow'' = ''/b'' @ ''/_shadow''" "demo_site ''/b/_shadow'' = Some (''/b/_shadow'' @ ''/bleak/__init__.py'')"
    by (simp_all add: demo_site_def)
  have i: "shadow_install ''/b/_shadow'' ?s = (Inr (), snd (shadow_install ''/b/_shadow'' ?s))"
      "shadow_install ''/b/_shadow'' ?t = (Inr (), ?t)"
    by (simp_all add: shadow_install_def)
  have "fst (load_lib_bleak ''/b/_shadow'' demo_site ?s) = Inr (FilePath ''/site/bleak/__init__.py'')"
    by (simp add: load_lib_bleak_def import_bleak_def sx_bind_def sx_lift_def demo_site_def is_shadow_file_def
        sublist_code)
  then show ?thesis
    using lib_bleak_guarded [where fs = demo_site and s = ?s and f = "''/b/shadow.py''", OF d(1) d(2) i(1)]
      lib_bleak_guarded [where fs = demo_site and s = ?t and ds = "[]", OF d(1) d(2) i(2)]
    by (simp add: Let_def)
qed


section \<open>The library\<close>

text \<open>A detection: what the objects given to the callback have.\<close>

record detection =
  dt_address :: string
  dt_adv_rssi :: "int option"
  dt_dev_rssi :: "int option"
  dt_local_name :: "ustr option"
  dt_dev_name :: "ustr option"

type_synonym ('b, 'a) bleak_op = "'b \<Rightarrow> 'a result \<times> (detection + bytes) list \<times> 'b"

record 'b bleak_lib =
  bl_scan_start :: "string \<Rightarrow> ('b, unit) bleak_op"
  bl_scan_stop :: "('b, unit) bleak_op"
  bl_connect :: "string \<Rightarrow> string \<Rightarrow> ('b, unit) bleak_op"
  bl_disconnect :: "('b, unit) bleak_op"
  bl_read :: "string \<Rightarrow> ('b, bytes) bleak_op"
  bl_write :: "string \<Rightarrow> bytes \<Rightarrow> bool \<Rightarrow> ('b, unit) bleak_op"
  bl_start_notify :: "string \<Rightarrow> ('b, unit) bleak_op"
  bl_stop_notify :: "string \<Rightarrow> ('b, unit) bleak_op"
  bl_idle :: "'b \<Rightarrow> (detection + bytes) list \<times> 'b"

record 'b bleak_state =
  bk_world :: 'b
  bk_heard :: "(detection + bytes) list"

definition on_lib :: "('b, 'a) bleak_op \<Rightarrow> ('b bleak_state, 'a) sx" where
  "on_lib f st = (case f (bk_world st) of (r, new, w) \<Rightarrow> (r, \<lparr>bk_world = w, bk_heard = bk_heard st @ new\<rparr>))"

definition lib_idle :: "'b bleak_lib \<Rightarrow> 'b bleak_state \<Rightarrow> 'b bleak_state" where
  "lib_idle L st = (let (new, w) = bl_idle L (bk_world st) in \<lparr>bk_world = w, bk_heard = bk_heard st @ new\<rparr>)"


section \<open>The stack\<close>

text \<open>\<open>a or b\<close> of optional integers and strings.\<close>

definition int_or :: "int option \<Rightarrow> int option \<Rightarrow> int option" where
  "int_or a b = (case a of Some i \<Rightarrow> if i = 0 then b else Some i | None \<Rightarrow> b)"

definition text_or :: "ustr option \<Rightarrow> ustr option \<Rightarrow> ustr option" where
  "text_or a b = (case a of Some (c # cs) \<Rightarrow> Some (c # cs) | _ \<Rightarrow> b)"

definition detected :: "int \<Rightarrow> detection \<Rightarrow> advert_event" where
  "detected now d = \<lparr>ae_t_ns = now, ae_address = dt_address d, ae_rssi = int_or (dt_adv_rssi d) (dt_dev_rssi d),
     ae_name = text_or (dt_local_name d) (dt_dev_name d)\<rparr>"

definition detections :: "(detection + bytes) list \<Rightarrow> detection list" where
  "detections xs = List.map_filter (\<lambda>x. case x of Inl d \<Rightarrow> Some d | Inr _ \<Rightarrow> None) xs"

definition values_of :: "(detection + bytes) list \<Rightarrow> bytes list" where
  "values_of xs = List.map_filter (\<lambda>x. case x of Inl _ \<Rightarrow> None | Inr v \<Rightarrow> Some v) xs"

definition heard_since :: "'b bleak_state \<Rightarrow> 'b bleak_state \<Rightarrow> (detection + bytes) list" where
  "heard_since st st' = drop (length (bk_heard st)) (bk_heard st')"

definition detect_wake :: "'b bleak_lib \<Rightarrow> int \<Rightarrow> 'b bleak_state \<Rightarrow> advert_event list \<times> 'b bleak_state" where
  "detect_wake L now st = (let st' = lib_idle L st in (map (detected now) (detections (heard_since st st')), st'))"

definition bleak_scan_iter ::
  "'b bleak_lib \<Rightarrow> string \<Rightarrow> int \<Rightarrow> int \<Rightarrow> nat list \<Rightarrow> 'b bleak_state \<Rightarrow> advert_event list \<times> unit result \<times> 'b bleak_state"
where
  "bleak_scan_iter L adapter duration now ds st =
     (case on_lib (bl_scan_start L adapter) st of
        (Inl e, st1) \<Rightarrow> ([], Inl e, st1)
      | (Inr _, st1) \<Rightarrow>
          (let queue = map (detected now) (detections (heard_since st st1));
               (evs, st2) = generate (detect_wake L) (now + duration) ds now queue st1;
               (r, st3) = on_lib (bl_scan_stop L) st2
           in (evs, r, st3)))"

definition bleak_setup :: "'b bleak_lib \<Rightarrow> string \<Rightarrow> string \<Rightarrow> ('b bleak_state, unit) sx" where
  "bleak_setup L adapter target = on_lib (bl_connect L target adapter)"

definition bleak_teardown :: "'b bleak_lib \<Rightarrow> ('b bleak_state, unit) sx" where
  "bleak_teardown L = on_lib (bl_disconnect L)"

definition bleak_read :: "'b bleak_lib \<Rightarrow> string \<Rightarrow> ('b bleak_state, bytes) sx" where
  "bleak_read L uuid = on_lib (bl_read L uuid)"

definition bleak_write :: "'b bleak_lib \<Rightarrow> string \<Rightarrow> bytes \<Rightarrow> ('b bleak_state, unit) sx" where
  "bleak_write L uuid data = on_lib (bl_write L uuid data True)"

definition heard_wake :: "'b bleak_lib \<Rightarrow> int \<Rightarrow> 'b bleak_state \<Rightarrow> notify_event list \<times> 'b bleak_state" where
  "heard_wake L now st = (let st' = lib_idle L st in (stamp now (values_of (heard_since st st')), st'))"

definition bleak_notify ::
  "'b bleak_lib \<Rightarrow> string \<Rightarrow> int \<Rightarrow> int \<Rightarrow> nat list \<Rightarrow> 'b bleak_state \<Rightarrow> notify_event list \<times> unit result \<times> 'b bleak_state"
where
  "bleak_notify L uuid duration now ds st =
     (case on_lib (bl_start_notify L uuid) st of
        (Inl e, st1) \<Rightarrow> ([], Inl e, st1)
      | (Inr _, st1) \<Rightarrow>
          (let queue = stamp now (values_of (heard_since st st1));
               (evs, st2) = generate (heard_wake L) (now + duration) ds now queue st1;
               (r, st3) = on_lib (bl_stop_notify L uuid) st2
           in (evs, r, st3)))"


section \<open>Events in order\<close>

definition detected_content :: "advert_event \<Rightarrow> string \<times> int option \<times> ustr option" where
  "detected_content ev = (ae_address ev, ae_rssi ev, ae_name ev)"

lemma detected_content_now: "map detected_content (map (detected now) ds) = map detected_content (map (detected 0) ds)"
  by (simp add: detected_content_def detected_def)

lemma detections_append [simp]: "detections (xs @ ys) = detections xs @ detections ys"
  by (simp add: detections_def List.map_filter_def)

lemma values_append [simp]: "values_of (xs @ ys) = values_of xs @ values_of ys"
  by (simp add: values_of_def List.map_filter_def)

lemma lib_idle_heard: "bk_heard (lib_idle L st) = bk_heard st @ heard_since st (lib_idle L st)"
  by (simp add: lib_idle_def heard_since_def split: prod.split)

lemma on_lib_heard: "on_lib f st = (r, st') \<Longrightarrow> bk_heard st' = bk_heard st @ heard_since st st'"
  by (auto simp: on_lib_def heard_since_def split: prod.splits)

definition detection_log :: "'b bleak_state \<Rightarrow> (string \<times> int option \<times> ustr option) list" where
  "detection_log st = map detected_content (map (detected 0) (detections (bk_heard st)))"

interpretation bleak_adverts: event_source "detect_wake L" ae_t_ns detected_content "\<lambda>_. True" detection_log
  for L :: "'b bleak_lib"
proof
  fix now evs and s s' :: "'b bleak_state"
  assume "detect_wake L now s = (evs, s')"
  then have e: "s' = lib_idle L s" "evs = map (detected now) (detections (heard_since s s'))"
    by (auto simp: detect_wake_def Let_def)
  have "detection_log s' = detection_log s @ map detected_content evs"
    unfolding e(2) detected_content_now [of now] detection_log_def using lib_idle_heard [of L s] e(1) by simp
  moreover have "\<forall>ev\<in>set evs. ae_t_ns ev = now" by (simp add: e(2) detected_def)
  ultimately show "True \<and> detection_log s' = detection_log s @ map detected_content evs \<and> (\<forall>ev\<in>set evs. ae_t_ns ev = now)"
    by blast
qed

interpretation bleak_values: event_source "heard_wake L" ne_t_ns ne_value "\<lambda>_. True" "\<lambda>st. values_of (bk_heard st)"
  for L :: "'b bleak_lib"
proof
  fix now evs and s s' :: "'b bleak_state"
  assume "heard_wake L now s = (evs, s')"
  then have e: "s' = lib_idle L s" "evs = stamp now (values_of (heard_since s s'))"
    by (auto simp: heard_wake_def Let_def)
  show "True \<and> values_of (bk_heard s') = values_of (bk_heard s) @ map ne_value evs \<and> (\<forall>ev\<in>set evs. ne_t_ns ev = now)"
    using lib_idle_heard [of L s] by (simp add: e stamp_def comp_def)
qed

text \<open>The two generators of the stack over the real library give out what their callbacks are called with,
  in order and within the window, and end with the call that undoes their start; an exception of that
  call, unlike one of the D-Bus stack, reaches the scenario.\<close>

theorem bleak_scan_in_order:
  assumes "bleak_scan_iter L adapter duration now ds st = (evs, r, st')"
    and "on_lib (bl_scan_start L adapter) st = (Inr (), st1)"
  shows "(\<exists>vs. detection_log st' = detection_log st @ vs
      \<and> in_order ae_t_ns detected_content now (now + duration) vs evs)
    \<and> (\<exists>st2. on_lib (bl_scan_stop L) st2 = (r, st'))"
proof -
  let ?q = "map (detected now) (detections (heard_since st st1))"
  obtain evs' st2 where g: "generate (detect_wake L) (now + duration) ds now ?q st1 = (evs', st2)" by fastforce
  with assms have e: "evs' = evs" "on_lib (bl_scan_stop L) st2 = (r, st')"
    by (auto simp: bleak_scan_iter_def Let_def split: prod.splits)
  have "True \<and> (\<exists>vs. detection_log st' = detection_log st @ vs
      \<and> in_order ae_t_ns detected_content now (now + duration) vs evs')"
    by (rule bleak_adverts.window_in_order [OF _ _ _ g])
      (use on_lib_heard [OF assms(2)] on_lib_heard [OF e(2)] in
        \<open>simp_all only: detection_log_def detections_append map_append detected_content_now [of now]\<close>,
       auto simp: detected_def)
  with e show ?thesis by blast
qed

theorem bleak_notify_in_order:
  assumes "bleak_notify L uuid duration now ds st = (evs, r, st')"
    and "on_lib (bl_start_notify L uuid) st = (Inr (), st1)"
  shows "(\<exists>vs. values_of (bk_heard st') = values_of (bk_heard st) @ vs \<and> in_order ne_t_ns ne_value now (now + duration) vs evs)
    \<and> (\<exists>st2. on_lib (bl_stop_notify L uuid) st2 = (r, st'))"
proof -
  let ?q = "stamp now (values_of (heard_since st st1))"
  obtain evs' st2 where g: "generate (heard_wake L) (now + duration) ds now ?q st1 = (evs', st2)" by fastforce
  with assms have e: "evs' = evs" "on_lib (bl_stop_notify L uuid) st2 = (r, st')"
    by (auto simp: bleak_notify_def Let_def split: prod.splits)
  have "True \<and> (\<exists>vs. values_of (bk_heard st') = values_of (bk_heard st) @ vs
      \<and> in_order ne_t_ns ne_value now (now + duration) vs evs')"
    by (rule bleak_values.window_in_order [OF _ _ _ g])
      (use on_lib_heard [OF assms(2)] on_lib_heard [OF e(2)] in \<open>auto simp: stamp_def comp_def\<close>)
  with e show ?thesis by blast
qed

end
