(* ===== verification/Spike.thy ===== *)
theory Spike
  imports Connect Scanner
begin

text \<open>
  \<open>examples/spike.py\<close>: a program on the public interface of the package.  It scans, looks for its target
  among the devices, connects, reads every readable characteristic, subscribes to the first that
  notifies, and disconnects.  What it prints is not modelled, except for the values read.
\<close>

section \<open>Scanning for the target\<close>

definition spike_scan ::
  "hci_env \<Rightarrow> mgmt_kernel \<Rightarrow> 'q peer \<Rightarrow> string option \<Rightarrow> ('q, ble_device list) sx" where
  "spike_scan env k Q adapter q =
     (case scanner_new env adapter False of
        Inl e \<Rightarrow> (Inl e, q)
      | Inr s \<Rightarrow>
          (case scanner_start k Q (None, s, q) of
             (Inl e, (_, _, q')) \<Rightarrow> (Inl e, q')
           | (Inr _, st1) \<Rightarrow>
               (case scanner_stop Q (scanner_wait Q st1) of
                  (Inl e, (_, _, q')) \<Rightarrow> (Inl e, q')
                | (Inr _, (_, s', q')) \<Rightarrow> (Inr (discovered_devices s'), q'))))"

text \<open>The target is an address, in upper or lower case, or a name.\<close>

definition is_target :: "string \<Rightarrow> ble_device \<Rightarrow> bool" where
  "is_target target dev \<longleftrightarrow> py_lower (ble_address dev) = py_lower target
     \<or> (case ble_name dev of Some (c # cs) \<Rightarrow> c # cs = map (\<lambda>x. int (of_char x)) target | _ \<Rightarrow> False)"

definition spike_resolve ::
  "hci_env \<Rightarrow> mgmt_kernel \<Rightarrow> 'q peer \<Rightarrow> string \<Rightarrow> string option \<Rightarrow> ('q, ble_device option) sx" where
  "spike_resolve env k Q target adapter =
     sx_bind (spike_scan env k Q adapter) (\<lambda>devs. sx_lift (Inr (find (is_target target) devs)))"


section \<open>The session\<close>

text \<open>A characteristic and what reading it gave, if it was read; every exception of a read is caught.\<close>

type_synonym dump = "(bleak_characteristic \<times> bytes result option) list"

fun dump_chars ::
  "'t transport \<Rightarrow> bleak_characteristic list \<Rightarrow> ('t, 'cb) client \<Rightarrow> dump \<times> ('t, 'cb) client" where
  "dump_chars T [] c = ([], c)"
| "dump_chars T (ch # chs) c =
     (let (v, c1) = (if ''read'' \<in> set (bc_properties ch)
                     then (let (r, c') = read_gatt_char T (SpecChar ch) c in (Some r, c')) else (None, c));
          (ds, c2) = dump_chars T chs c1
      in ((ch, v) # ds, c2))"

definition client_chars :: "('t, 'cb) client \<Rightarrow> bleak_characteristic list" where
  "client_chars c = concat (map bs_characteristics (sc_services (cl_services c)))"

definition subscribable :: "('t, 'cb) client \<Rightarrow> bleak_characteristic option" where
  "subscribable c =
     find (\<lambda>ch. ''notify'' \<in> set (bc_properties ch) \<or> ''indicate'' \<in> set (bc_properties ch)) (client_chars c)"

definition spike_subscribe :: "'t transport \<Rightarrow> 'cb \<Rightarrow> (('t, 'cb) client, unit) sx" where
  "spike_subscribe T cb c =
     (case subscribable c of
        None \<Rightarrow> (Inr (), c)
      | Some ch \<Rightarrow>
          sx_bind (start_notify T (SpecChar ch) cb) (\<lambda>_ c1. stop_notify T (SpecChar ch) (client_idle T c1)) c)"

text \<open>From the connection on: the values, how it ends, the link that is closed, and the client.\<close>

definition spike_session ::
  "'t transport \<Rightarrow> 'cb \<Rightarrow> ('t, 'cb) client \<Rightarrow> dump \<times> unit result \<times> 't option \<times> ('t, 'cb) client" where
  "spike_session T cb c =
     (let (ds, c1) = dump_chars T (client_chars c) c
      in case spike_subscribe T cb c1 of
           (Inl e, c2) \<Rightarrow> (ds, Inl e, None, c2)
         | (Inr _, c2) \<Rightarrow> (let (t, c3) = client_disconnect T c2 in (ds, Inr (), t, c3)))"

text \<open>The program, with its arguments.  What is left at its end: the values read, and the client, if one
  was made.\<close>

definition spike_client ::
  "('w, 'p, 'q) net \<Rightarrow> 'cb \<Rightarrow> string \<Rightarrow> int option \<Rightarrow> string option \<Rightarrow> int \<Rightarrow> 'w
   \<Rightarrow> unit result \<times> dump \<times> (l2 \<times> 'p, 'cb) client option" where
  "spike_client N cb address address_type adapter now w =
     (case client_new (n_hci N) address address_type False adapter of
        Inl e \<Rightarrow> (Inl e, [], None)
      | Inr c \<Rightarrow>
          (case client_connect N 15000000000 (c, now, w) of
             (Inl e, (c', _)) \<Rightarrow> (Inl e, [], Some c')
           | (Inr _, (c', _)) \<Rightarrow>
               (case spike_session (l2_transport (n_l2 N)) cb c' of
                  (ds, r, _, c'') \<Rightarrow> (r, ds, Some c''))))"

definition spike_main ::
  "('w, 'p, 'q) net \<Rightarrow> mgmt_kernel \<Rightarrow> 'q \<Rightarrow> 'cb \<Rightarrow> string list \<Rightarrow> int \<Rightarrow> 'w
   \<Rightarrow> unit result \<times> dump \<times> (l2 \<times> 'p, 'cb) client option" where
  "spike_main N k q cb argv now w =
     (let target = (if 1 < length argv then argv ! 1 else []);
          adapter = (if 2 < length argv then Some (argv ! 2) else None)
      in if target = [] then
           (case spike_scan (n_hci N) k (n_mgmt N) adapter q of (Inl e, _) \<Rightarrow> (Inl e, [], None) | (Inr _, _) \<Rightarrow> (Inr (), [], None))
         else
           (case spike_resolve (n_hci N) k (n_mgmt N) target adapter q of
              (Inl e, _) \<Rightarrow> (Inl e, [], None)
            | (Inr (Some dev), _) \<Rightarrow> spike_client N cb (ble_address dev) (ble_address_type dev) adapter now w
            | (Inr None, _) \<Rightarrow> spike_client N cb target None adapter now w))"


section \<open>What a session does\<close>

lemma dump_chars_Cons:
  "dump_chars T (ch # chs) c =
     (let read = ''read'' \<in> set (bc_properties ch); rest = dump_chars T chs (if read then snd (read_gatt_char T (SpecChar ch) c) else c)
      in ((ch, if read then Some (fst (read_gatt_char T (SpecChar ch) c)) else None) # fst rest, snd rest))"
  by (simp add: Let_def split_beta)

declare dump_chars.simps(2) [simp del] dump_chars_Cons [simp]

lemma dump_chars_fst: "map fst (fst (dump_chars T chs c)) = chs"
  by (induction chs arbitrary: c) (simp_all add: Let_def)

lemma dump_chars_read:
  "\<forall>(ch, v)\<in>set (fst (dump_chars T chs c)). (v \<noteq> None) = (''read'' \<in> set (bc_properties ch))"
  by (induction chs arbitrary: c) (simp_all add: Let_def)

text \<open>Reading changes neither the services of the client nor its table of subscriptions.\<close>

lemma on_disconnects_services: "cl_services (fold client_on_disconnect es c) = cl_services c"
  by (induction es arbitrary: c) (simp_all add: client_on_disconnect_def)

lemma read_services: "cl_services (snd (read_gatt_char T spec c)) = cl_services c"
  by (simp add: read_gatt_char_def with_char_def on_att_def on_disconnects_services Let_def split: sum.split prod.split)

lemma dump_services: "cl_services (snd (dump_chars T chs c)) = cl_services c"
  by (induction chs arbitrary: c) (simp_all add: Let_def read_services)

text \<open>The example shows the whole tree: a session reports every characteristic of the client in
  order, with a value or the reason why it could not be read exactly for the readable ones.  When it
  returns, the client is disconnected and its link closed; when it raises, it is the subscription
  that failed, and the link is left as it is.\<close>

theorem spike_session_outcome:
  "case spike_session T cb c of (ds, r, closed, c') \<Rightarrow>
     map fst ds = client_chars c \<and> (\<forall>(ch, v)\<in>set ds. (v \<noteq> None) = (''read'' \<in> set (bc_properties ch)))
     \<and> (case r of
          Inr _ \<Rightarrow> \<not> cl_connected c' \<and> cl_att c' = None \<and> sc_services (cl_services c') = []
        | Inl e \<Rightarrow> closed = None \<and> subscribable c \<noteq> None
            \<and> spike_subscribe T cb (snd (dump_chars T (client_chars c) c)) = (Inl e, c'))"
proof -
  let ?c1 = "snd (dump_chars T (client_chars c) c)"
  have s: "subscribable ?c1 = subscribable c" by (simp add: subscribable_def client_chars_def dump_services)
  have "spike_subscribe T cb ?c1 = (Inl e, c2) \<Longrightarrow> subscribable c \<noteq> None" for e c2
    using s by (cases "subscribable c") (simp_all add: spike_subscribe_def)
  moreover obtain ds c1 where d: "dump_chars T (client_chars c) c = (ds, c1)" by fastforce
  ultimately show ?thesis
    using dump_chars_fst [of T "client_chars c" c] dump_chars_read [of T "client_chars c" c]
    by (cases "spike_subscribe T cb c1"; cases "fst (spike_subscribe T cb c1)")
      (simp_all add: spike_session_def d client_disconnect_def client_teardown_def no_services_def service_collection_def)
qed

end
