(* ===== verification/Spec2Isabelle.thy ===== *)
theory Spec2Isabelle
  imports Side_Modules Scanner ATT_Locking Client_Fake Bench_Lib Bench_Main Bench_Orchestra Bench_Peripheral Bench_Dbus Bench_Bleak Spike
begin

text \<open>
  A verification library of \<open>bluek\<close>, a Bluetooth LE central with the API of \<open>bleak\<close> over the sockets
  of the Linux kernel, and of its benchmark suite.


  The program.

  \<^item> \<open>bluek/uuids.py\<close> and \<open>_util.py\<close> convert UUIDs and device addresses between strings and bytes;
    \<open>exc.py\<close> has the exceptions; \<open>_hci.py\<close> finds the controller that is meant.
  \<^item> \<open>_mgmt.py\<close> talks to the kernel over a management socket: it starts and stops discovery and
    receives advertisements, which \<open>device.py\<close> interprets and \<open>scanner.py\<close> collects.
  \<^item> \<open>_l2cap.py\<close> connects a socket to the ATT channel of a peer.  \<open>_att.py\<close> runs the attribute protocol
    over it: one request at a time under a lock, notifications, the MTU, long reads, discovery.
  \<^item> \<open>characteristic.py\<close> wraps what discovery found; \<open>client.py\<close> is the client that users see; it uses
    all of these.  \<open>pairing.py\<close> drives \<open>bluetoothctl\<close>; \<open>shadow.py\<close> and \<open>_shadow\<close> let programs written
    for \<open>bleak\<close> import this package instead.
  \<^item> \<open>bench\<close> measures the package: an in-memory peripheral and one in a child process, stacks that offer
    scanning, reads, writes and notifications over them, over the sockets, over D-Bus and over the real
    \<open>bleak\<close>, scenarios, recorders, a runner, and a report of its results.  \<open>bench/microbench\<close> compares a
    round trip over D-Bus with one over a socket.  \<open>examples/spike.py\<close> uses the package.


  The theories, in the order of the code.

  \<^item> \<open>Prelude\<close>: bytes, exceptions (\<open>exn\<close>), results (\<open>exn + 'a\<close>), state-passing code that may raise
    (\<open>('s, 'a) sx\<close>), little-endian integers, slices, strings.
  \<^item> \<open>Uuids\<close>, \<open>Bdaddr\<close>, \<open>Hci\<close>, \<open>Mgmt_Codec\<close>, \<open>Device\<close>: the codecs, with their round trips; \<open>Hci\<close> over
    what the kernel and sysfs answer (\<open>hci_env\<close>).
  \<^item> \<open>L2CAP\<close>: the socket (\<open>l2\<close>), its system calls (\<open>l2_kernel\<close>), and the two interfaces the rest uses,
    \<open>peer\<close> (how the other end of a socket behaves) and \<open>transport\<close> (what the ATT client calls).
  \<^item> \<open>ATT_Core\<close>: the client object (\<open>att\<close>), \<open>on_data\<close>, \<open>on_close\<close>, \<open>request\<close>.  \<open>ATT_Ops\<close>: MTU
    exchange, reads, writes.  \<open>ATT_Discovery\<close>: the paged procedures and the tree.  \<open>ATT_Locking\<close>:
    concurrent calls of \<open>_request\<close> as a step relation.
  \<^item> \<open>Mgmt_Socket\<close> (\<open>mgmt\<close>), \<open>Scanner\<close> (\<open>scanner\<close>), \<open>GATT_Objects\<close> (\<open>service_index\<close>), \<open>Client\<close> (\<open>client\<close>
    on a link), \<open>Connect\<close> (the way to a link), \<open>Side_Modules\<close> (pairing, import path, retries).
    \<open>Spike\<close>: the example, on \<open>Scanner\<close> and \<open>Connect\<close>.
  \<^item> \<open>Fake_Peripheral\<close> (\<open>fake\<close>), \<open>Client_Fake\<close> (the client over it), \<open>Bench_Stats\<close> and \<open>Bench_Proc\<close> (the
    measurements), \<open>Bench_Events\<close>, \<open>Bench_Micro\<close>, \<open>Bench_Raw\<close>, \<open>Bench_Lib\<close>, \<open>Bench_Dbus\<close>,
    \<open>Bench_Bleak\<close> (the stacks; \<open>dbus_fast\<close> with BlueZ and the real \<open>bleak\<close> are the parameters \<open>bluez\<close> and
    \<open>bleak_lib\<close>), \<open>Bench_Scenarios\<close> (scenarios, matrix, exit code), \<open>Bench_Run\<close> (a run of the matrix over
    the in-memory peripheral).
  \<^item> \<open>Bench_Json\<close> (JSON values as Python's dictionaries, and the results as such), \<open>Bench_Report\<close> (the table),
    \<open>Bench_Process\<close> (tools and child processes: \<open>bluetoothd.py\<close>, the supervisor, what the peripheral
    processes compute), \<open>Bench_Peripheral\<close> (the peripheral processes as the calls they make), \<open>Bench_Main\<close> (\<open>runner.main\<close> around all of it).
  \<^item> \<open>Bench_Echo\<close> (server and client of \<open>echo.py\<close> as two interleaved processes), \<open>Bench_Orchestra\<close> (its
    client over D-Bus, summaries, and the orchestrator).

  The fields of the records are the attributes of the objects, and each operation is one definition
  that takes the object and returns it with its result; the order of its effects is the order of the
  code.  Calls of user callbacks are observations, logged in the order in which they happen.


  The interfaces, as locales, with the models that provide them.

  \<^item> \<open>link\<close> (\<open>ATT_Core\<close>): a transport reports its end at most once and never after it was closed.
    Provided by the L2CAP socket (\<open>l2_link\<close>) and the in-memory peripheral (\<open>fake_link\<close>).
  \<^item> \<open>value_server\<close> (\<open>ATT_Ops\<close>), \<open>att_table\<close> and \<open>gatt_server\<close> (\<open>ATT_Discovery\<close>): peers that serve a value
    and a database, in any number of PDUs and with strays around them.  \<open>gatt_server\<close> is an
    \<open>att_table\<close> for its services; the in-memory peripheral provides both servers.
  \<^item> \<open>mgmt_owner\<close> (\<open>Mgmt_Socket\<close>): the owner of a handler of found devices whose invariant the handler
    keeps.  Provided by the scanner, for four invariants, and by the scan of the raw stack.
  \<^item> \<open>event_source\<close> (\<open>Bench_Events\<close>): a state in which events arrive; the loop of the generators gives
    them out in order.  Provided by the notifications of an ATT client and by the scans of the raw
    stack, of the stack on the package, of the stack over D-Bus and of the one over \<open>bleak\<close>, and by
    the notifications of the last two.
  \<^item> \<open>retry_client\<close> (\<open>Side_Modules\<close>): what \<open>establish_connection\<close> needs of a client class.  Provided by
    the model of \<open>BleakClient\<close>.


  What is shown.

  \<^item> Transactions: the exact effect of a batch of upcalls on a request; with any interleaving of calls,
    upcalls, time-outs and cancellations one request is outstanding at a time, its answer is the first
    that answers it, and every call can come to its end.
  \<^item> Operations: reads return whole values, the MTU keeps its bounds, discovery returns the database,
    notifications reach the callback in order.
  \<^item> Connections: connecting either succeeds or leaves nothing behind, within its budget; the end of
    a connection is reported once; without one, accesses fail with \<open>BleakError\<close> and do nothing.
  \<^item> Scanning: a scan knows the latest report of each device; stopping it releases the socket.
  \<^item> Codecs: round trips, canonical forms, and which inputs are refused.
  \<^item> Benchmarks: percentiles are order statistics in spite of float arithmetic; the stacks agree with
    each other; a run that claims success measured every cell, and its report says what the run wrote;
    printed times are right to their last digit.
  \<^item> Processes: every session of the echo client ends, in any interleaving with the server; the
    peripheral process and the children of the orchestrator are waited for; the stack over \<open>bleak\<close>
    does not load on the shadow of this package; a session over D-Bus takes a bounded number of calls.

  Some lemmas show behaviour that is probably not meant: \<open>ATT_Ops.read_truncated_by_early_mtu_request\<close>,
  \<open>Client.stop_notify_timeout_keeps_handler\<close>, \<open>Connect.silent_prescan_raises\<close>,
  \<open>Mgmt_Socket.overlapping_command_loses_reply\<close>, \<open>Scanner.failed_start_keeps_socket\<close>,
  \<open>Bench_Raw.raw_setup_leaks\<close>, \<open>Bench_Lib.duplicate_uuid_differs\<close>, \<open>Bench_Dbus.known_devices_not_counted\<close>,
  \<open>Bench_Echo.empty_payload_fails\<close>, \<open>Bench_Report.foreign_results_row\<close>, \<open>Bench_Process.pump_burst_copies\<close>.


  Bounds and termination.  No definition has fuel; a number of rounds is one of the code, as the fifty
  attempts to connect in \<open>echo.py\<close>.  Loops over data are recursive on it.  \<open>read_loop\<close>
  ends because the value grows and its offset must fit two bytes; \<open>att_scan\<close> because the start handle
  grows; \<open>connect_loop\<close> because each round but the last sleeps and none begins after the deadline.
  Loops that wait for the world (the retries of \<open>send\<close>, the wait of the scan before a connection, the
  generators, the lines of a child) run over the list of what the world does.


  Assumptions of the model.  The event loop runs one callback at a time and \<open>asyncio.Lock\<close> serves its
  waiters in order.  Times are integers in nanoseconds, exact where the code computes with floats
  except in \<open>Bench_Stats\<close> and \<open>Bench_Json\<close>, whose doubles are written out.  Strings are ASCII where the code handles
  addresses, UUIDs, adapter names and files of the process table; advertised names are code points.
  Messages of exceptions are kept for \<open>BleakError\<close> only.


  Not modelled.  Re-exports, logging and what is printed, apart from the tables and the lines that
  another process reads.  What \<open>bumble\<close>, code outside the repository, does when \<open>peripheral_bumble.py\<close> and
  \<open>peripheral_vhci.py\<close> call it, and which of its pipes they hand to which controller.  Argument parsers
  except for the defaults and choices of the runner, the modes of \<open>echo.py\<close> that run a server only, and the text of a JSON file, which \<open>json.dump\<close> and \<open>json.load\<close> write and read.  The closing of a
  generator that its consumer abandons.
\<close>

end
